(* ===== verification/Prelude.thy ===== *)
theory Prelude
  imports Main "HOL-Library.List_Lexorder" "HOL-Library.Product_Lexorder" "HOL-Library.Char_ord"
    "HOL-Library.Multiset"
begin

text \<open>
  Shared vocabulary of the development: how Go values that every package uses are
  represented, and the generic lemmas about them.

  \<^item> A Go \<^verbatim>\<open>string\<close> is a \<open>string\<close> (a list of bytes); the library orders give it Go's
    bytewise lexicographic order, so \<open>sort\<close> and \<open>sort_key\<close> are \<^verbatim>\<open>sort.Strings\<close> and
    \<^verbatim>\<open>sort.Slice\<close> by that key (for a comparator without ties; where a comparator has
    ties the model keeps the input order of the tied elements).
  \<^item> A Go map with string keys is the list of its entries in one iteration order
    (\<open>gomap\<close>); functions whose result must not depend on that order are proved so.
  \<^item> \<^verbatim>\<open>time.Time\<close> is the number of nanoseconds since Go's zero instant (\<open>gotime\<close>).
  \<^item> \<^verbatim>\<open>fmt.Sprintf\<close> and \<^verbatim>\<open>fmt.Errorf\<close> results keep the format string and its arguments
    (\<open>message\<close>, \<open>err\<close>) instead of the rendered text; \<open>Wrapf\<close> is a format with a final
    \<^verbatim>\<open>%w\<close>. A returned \<^verbatim>\<open>error\<close> is an \<open>err option\<close>, a value-or-error pair an \<open>err + 'a\<close>.
\<close>

section \<open>Types\<close>

type_synonym 'v gomap = "(string \<times> 'v) list"
type_synonym gotime = int

datatype arg = AStr string | AInt int | AStrs "string list" | ABool bool

datatype message = Msg string "arg list"

datatype err = Errorf string "arg list" | Wrapf string "arg list" err

named_theorems go_check "rewriting the checks of a validator"

text \<open>The two bytes of the section sign in the messages of the source.\<close>

definition section_sign :: string where
  "section_sign = [CHR 0xC2, CHR 0xA7]"

section \<open>Error results\<close>

fun first_err :: "err option list \<Rightarrow> err option" where
  "first_err [] = None"
| "first_err (None # rs) = first_err rs"
| "first_err (Some e # rs) = Some e"

definition require :: "bool \<Rightarrow> err \<Rightarrow> err option" where
  "require b e = (if b then None else Some e)"

definition wrap_err :: "string \<Rightarrow> arg list \<Rightarrow> err option \<Rightarrow> err option" where
  "wrap_err f as r = map_option (Wrapf f as) r"

section \<open>Lists and maps\<close>

text \<open>
  The loop \<^verbatim>\<open>for _, x := range xs { if seen[k(x)] { continue }; seen[k(x)] = true; ... }\<close>:
  the first element of every key, in input order.
\<close>

fun dedup_seen :: "'k list \<Rightarrow> ('a \<Rightarrow> 'k) \<Rightarrow> 'a list \<Rightarrow> 'a list" where
  "dedup_seen seen k [] = []"
| "dedup_seen seen k (x # xs) =
     (if k x \<in> set seen then dedup_seen seen k xs
      else x # dedup_seen (k x # seen) k xs)"

definition dedup_on :: "('a \<Rightarrow> 'k) \<Rightarrow> 'a list \<Rightarrow> 'a list" where
  "dedup_on k xs = dedup_seen [] k xs"

text \<open>Reading a Go map: the zero value \<open>d\<close> where the key is absent.\<close>

definition map_get :: "'v \<Rightarrow> 'v gomap \<Rightarrow> string \<Rightarrow> 'v" where
  "map_get d m k = (case map_of m k of None \<Rightarrow> d | Some v \<Rightarrow> v)"

definition map_keys :: "'v gomap \<Rightarrow> string list" where
  "map_keys m = remdups (map fst m)"

definition has_prefix :: "string \<Rightarrow> string \<Rightarrow> bool" where
  "has_prefix p s \<longleftrightarrow> take (length p) s = p"

definition has_suffix :: "string \<Rightarrow> string \<Rightarrow> bool" where
  "has_suffix p s \<longleftrightarrow> length p \<le> length s \<and> drop (length s - length p) s = p"

text \<open>\<^verbatim>\<open>strings.Split(s, sep)\<close> for a one-byte separator.\<close>

fun split_on :: "char \<Rightarrow> string \<Rightarrow> string list" where
  "split_on c [] = [[]]"
| "split_on c (x # xs) =
     (if x = c then [] # split_on c xs
      else (case split_on c xs of [] \<Rightarrow> [[x]] | y # ys \<Rightarrow> (x # y) # ys))"

text \<open>\<^verbatim>\<open>strings.Join\<close>.\<close>

fun join_with :: "string \<Rightarrow> string list \<Rightarrow> string" where
  "join_with sep [] = []"
| "join_with sep [s] = s"
| "join_with sep (s # t # ss) = s @ sep @ join_with sep (t # ss)"

text \<open>Assignment to a key of a Go map.\<close>

fun map_put :: "string \<Rightarrow> 'v \<Rightarrow> 'v gomap \<Rightarrow> 'v gomap" where
  "map_put k v [] = [(k, v)]"
| "map_put k v ((k', v') # m) = (if k' = k then (k, v) # m else (k', v') # map_put k v m)"

section \<open>Lemmas\<close>

lemma map_of_map_put [simp]: "map_of (map_put k v m) = (map_of m)(k \<mapsto> v)"
  by (induction m rule: map_put.induct) (auto simp: fun_eq_iff)

lemma fst_map_put [simp]: "fst ` set (map_put k v m) = insert k (fst ` set m)"
  by (induction k v m rule: map_put.induct) auto

lemma distinct_map_put [simp]: "distinct (map fst m) \<Longrightarrow> distinct (map fst (map_put k v m))"
proof (induction k v m rule: map_put.induct)
  case (2 k v k' v' m)
  then show ?case using fst_map_put [of k v m] by (auto simp del: fst_map_put)
qed simp

lemma first_err_None_iff: "first_err rs = None \<longleftrightarrow> (\<forall>r \<in> set rs. r = None)"
  by (induction rs rule: first_err.induct) auto

lemma first_err_append: "first_err (xs @ ys) = (case first_err xs of None \<Rightarrow> first_err ys | Some e \<Rightarrow> Some e)"
  by (induction xs rule: first_err.induct) auto

lemma first_err_checks [go_check]:
  "first_err [] = None"
  "first_err (r # rs) = None \<longleftrightarrow> r = None \<and> first_err rs = None"
  "first_err (xs @ ys) = None \<longleftrightarrow> first_err xs = None \<and> first_err ys = None"
  "first_err (map f zs) = None \<longleftrightarrow> (\<forall>z \<in> set zs. f z = None)"
  by (auto simp: first_err_None_iff)

lemma require_None_iff [go_check]: "require b e = None \<longleftrightarrow> b"
  by (simp add: require_def)

lemma wrap_err_None_iff [go_check]: "wrap_err f as r = None \<longleftrightarrow> r = None"
  by (simp add: wrap_err_def)

lemma dedup_seen_set: "set (dedup_seen seen k xs) \<subseteq> set xs"
  by (induction xs arbitrary: seen) auto

lemma dedup_seen_keys: "k ` set (dedup_seen seen k xs) = k ` set xs - set seen"
  by (induction xs arbitrary: seen) (auto split: if_splits)

lemma dedup_seen_distinct: "distinct (map k (dedup_seen seen k xs))"
proof (induction xs arbitrary: seen)
  case Nil
  then show ?case by simp
next
  case (Cons x xs)
  have "k x \<notin> k ` set (dedup_seen (k x # seen) k xs)"
    by (auto simp: dedup_seen_keys)
  with Cons show ?case by auto
qed

lemma dedup_on_subset: "set (dedup_on k xs) \<subseteq> set xs"
  by (simp add: dedup_on_def dedup_seen_set)

lemma dedup_on_keys [simp]: "k ` set (dedup_on k xs) = k ` set xs"
  by (simp add: dedup_on_def dedup_seen_keys)

lemma dedup_on_distinct [simp]: "distinct (map k (dedup_on k xs))"
  by (simp add: dedup_on_def dedup_seen_distinct)

lemma dedup_on_Nil_iff [simp]: "dedup_on k xs = [] \<longleftrightarrow> xs = []"
  by (cases xs) (auto simp: dedup_on_def)

lemma dedup_seen_id: "distinct (map k xs) \<Longrightarrow> k ` set xs \<inter> set seen = {} \<Longrightarrow> dedup_seen seen k xs = xs"
  by (induction xs arbitrary: seen) auto

lemma dedup_on_id: "distinct (map k xs) \<Longrightarrow> dedup_on k xs = xs"
  by (simp add: dedup_on_def dedup_seen_id)

lemma dedup_on_length_1:
  assumes "length (dedup_on k xs) = 1" "x \<in> set xs" "y \<in> set xs"
  shows "k x = k y"
proof -
  from assms(1) obtain z where z: "dedup_on k xs = [z]"
    by (cases "dedup_on k xs") auto
  have "k ` set xs = {k z}" using dedup_on_keys [of k xs] by (simp only: z) simp
  with assms(2,3) show ?thesis by (metis imageI singletonD)
qed

lemma map_of_distinct_perm:
  "distinct (map fst m) \<Longrightarrow> distinct (map fst m') \<Longrightarrow> set m = set m' \<Longrightarrow> map_of m = map_of m'"
proof (rule ext)
  fix x
  assume d: "distinct (map fst m)" "distinct (map fst m')" and s: "set m = set m'"
  have "map_of m x = Some v \<longleftrightarrow> map_of m' x = Some v" for v
    using d s by (simp add: map_of_eq_Some_iff)
  then show "map_of m x = map_of m' x" by (metis option.exhaust)
qed

lemma map_get_distinct_perm:
  "distinct (map fst m) \<Longrightarrow> distinct (map fst m') \<Longrightarrow> set m = set m' \<Longrightarrow> map_get d m = map_get d m'"
  by (rule ext) (simp add: map_get_def map_of_distinct_perm [of m m'])

lemma sort_key_Nil_iff [simp]: "sort_key f xs = [] \<longleftrightarrow> xs = []"
  by (metis length_0_conv length_sort)

lemma sorted_list_unique_key:
  fixes xs ys :: "'a list" and k :: "'a \<Rightarrow> 'b :: linorder"
  assumes "set xs = set ys" "distinct (map k xs)" "distinct (map k ys)"
  shows "sort_key k xs = sort_key k ys"
proof -
  have inj: "inj_on k (set xs)" using assms(2) by (simp add: distinct_map)
  have d: "distinct xs" "distinct ys" using assms by (auto simp: distinct_map)
  have m: "mset xs = mset ys" using assms(1) d by (simp add: set_eq_iff_mset_eq_distinct)
  show ?thesis
  proof (rule map_sorted_distinct_set_unique [where f = k])
    show "inj_on k (set (sort_key k xs) \<union> set (sort_key k ys))"
      using inj assms(1) by simp
    show "distinct (map k (sort_key k xs))" "distinct (map k (sort_key k ys))"
      using assms by (simp_all add: distinct_map)
    show "set (sort_key k xs) = set (sort_key k ys)" using assms(1) by simp
  qed simp_all
qed

lemma has_prefix_append [simp]: "has_prefix p (p @ s)"
  by (simp add: has_prefix_def)

lemma has_prefix_iff: "has_prefix p s \<longleftrightarrow> (\<exists>t. s = p @ t)"
  by (metis append_take_drop_id has_prefix_append has_prefix_def)

lemma split_on_not_Nil [simp]: "split_on c s \<noteq> []"
  by (induction s) (auto split: list.splits)

lemma split_on_no_sep: "x \<in> set (split_on c s) \<Longrightarrow> c \<notin> set x"
  by (induction s arbitrary: x) (auto split: if_splits list.splits)

lemma mset_buckets:
  "distinct ks \<Longrightarrow> k ` set xs \<subseteq> set ks \<Longrightarrow> (\<Sum>x\<leftarrow>ks. mset (filter (\<lambda>c. k c = x) xs)) = mset xs"
proof (induction ks arbitrary: xs)
  case (Cons a ks)
  have "k ` set (filter (\<lambda>c. k c \<noteq> a) xs) \<subseteq> set ks" using Cons.prems(2) by auto
  then have ih: "(\<Sum>x\<leftarrow>ks. mset (filter (\<lambda>c. k c = x) (filter (\<lambda>c. k c \<noteq> a) xs))) = mset (filter (\<lambda>c. k c \<noteq> a) xs)"
    by (rule Cons.IH [rotated]) (use Cons.prems(1) in simp)
  have "filter (\<lambda>c. k c = x) (filter (\<lambda>c. k c \<noteq> a) xs) = filter (\<lambda>c. k c = x) xs" if "x \<in> set ks" for x
    using that Cons.prems(1) by (auto intro: filter_cong)
  then have "map (\<lambda>x. mset (filter (\<lambda>c. k c = x) (filter (\<lambda>c. k c \<noteq> a) xs))) ks = map (\<lambda>x. mset (filter (\<lambda>c. k c = x) xs)) ks"
    unfolding map_eq_conv by metis
  with ih have "(\<Sum>x\<leftarrow>ks. mset (filter (\<lambda>c. k c = x) xs)) = mset (filter (\<lambda>c. k c \<noteq> a) xs)" by (simp only:)
  then show ?case
    using multiset_partition [of "mset xs" "\<lambda>c. k c = a"] by (simp add: mset_filter)
qed simp

end
