(* ===== verification/Domain_Enums.thy ===== *)
theory Domain_Enums
  imports Prelude
begin

text \<open>
  The closed vocabularies of \<^verbatim>\<open>internal/domain\<close> and \<^verbatim>\<open>internal/ontology\<close>: each Go string
  type with its constants is a datatype with one constructor per constant and an \<open>Other\<close>
  constructor for any other string value the Go type admits (the empty string included).
  \<open>..._code\<close> gives the wire string, \<open>..._of_code\<close> reads one; the \<^verbatim>\<open>Valid\<close> methods, the
  evidence ranks, the known scope kinds and host IDs and the host tiers follow the source.
\<close>

section \<open>Evidence levels\<close>

datatype EvidenceLevel =
    EvDiscovered | EvParsed | EvResolved | EvHostReported | EvBehaviorProbed | EvExternallyProven
  | EvOther string

fun EvidenceLevel_code :: "EvidenceLevel \<Rightarrow> string" where
  "EvidenceLevel_code EvDiscovered = ''E0''"
| "EvidenceLevel_code EvParsed = ''E1''"
| "EvidenceLevel_code EvResolved = ''E2''"
| "EvidenceLevel_code EvHostReported = ''E3''"
| "EvidenceLevel_code EvBehaviorProbed = ''E4''"
| "EvidenceLevel_code EvExternallyProven = ''E5''"
| "EvidenceLevel_code (EvOther s) = s"

fun EvidenceLevel_Name :: "EvidenceLevel \<Rightarrow> string" where
  "EvidenceLevel_Name EvDiscovered = ''DISCOVERED''"
| "EvidenceLevel_Name EvParsed = ''PARSED''"
| "EvidenceLevel_Name EvResolved = ''RESOLVED''"
| "EvidenceLevel_Name EvHostReported = ''HOST_REPORTED''"
| "EvidenceLevel_Name EvBehaviorProbed = ''BEHAVIOR_PROBED''"
| "EvidenceLevel_Name EvExternallyProven = ''EXTERNALLY_PROVEN''"
| "EvidenceLevel_Name (EvOther s) = ''''"

fun EvidenceLevel_Valid :: "EvidenceLevel \<Rightarrow> bool" where
  "EvidenceLevel_Valid (EvOther s) = False"
| "EvidenceLevel_Valid e = True"

fun EvidenceLevel_Rank :: "EvidenceLevel \<Rightarrow> int" where
  "EvidenceLevel_Rank EvDiscovered = 0"
| "EvidenceLevel_Rank EvParsed = 1"
| "EvidenceLevel_Rank EvResolved = 2"
| "EvidenceLevel_Rank EvHostReported = 3"
| "EvidenceLevel_Rank EvBehaviorProbed = 4"
| "EvidenceLevel_Rank EvExternallyProven = 5"
| "EvidenceLevel_Rank (EvOther s) = - 1"

definition ValidateEvidenceLevel :: "EvidenceLevel \<Rightarrow> err option" where
  "ValidateEvidenceLevel e =
     require (EvidenceLevel_Valid e) (Errorf ''invalid evidence level %q'' [AStr (EvidenceLevel_code e)])"

section \<open>Capability levels\<close>

datatype CapabilityLevel =
    CapExact | CapCompatible | CapPartial | CapOpaque | CapUnknown | CapUnsupported | CapOther string

fun CapabilityLevel_code :: "CapabilityLevel \<Rightarrow> string" where
  "CapabilityLevel_code CapExact = ''EXACT''"
| "CapabilityLevel_code CapCompatible = ''COMPATIBLE''"
| "CapabilityLevel_code CapPartial = ''PARTIAL''"
| "CapabilityLevel_code CapOpaque = ''OPAQUE''"
| "CapabilityLevel_code CapUnknown = ''UNKNOWN''"
| "CapabilityLevel_code CapUnsupported = ''UNSUPPORTED''"
| "CapabilityLevel_code (CapOther s) = s"

fun CapabilityLevel_Valid :: "CapabilityLevel \<Rightarrow> bool" where
  "CapabilityLevel_Valid (CapOther s) = False"
| "CapabilityLevel_Valid c = True"

definition ValidateCapabilityLevel :: "CapabilityLevel \<Rightarrow> err option" where
  "ValidateCapabilityLevel c =
     require (CapabilityLevel_Valid c) (Errorf ''invalid capability level %q'' [AStr (CapabilityLevel_code c)])"

section \<open>Intents\<close>

datatype Intent = IntentRequired | IntentDefault | IntentAvailable | IntentDenied | IntentOther string

fun Intent_code :: "Intent \<Rightarrow> string" where
  "Intent_code IntentRequired = ''REQUIRED''"
| "Intent_code IntentDefault = ''DEFAULT''"
| "Intent_code IntentAvailable = ''AVAILABLE''"
| "Intent_code IntentDenied = ''DENIED''"
| "Intent_code (IntentOther s) = s"

fun Intent_Valid :: "Intent \<Rightarrow> bool" where
  "Intent_Valid (IntentOther s) = False"
| "Intent_Valid i = True"

definition ValidateIntent :: "Intent \<Rightarrow> err option" where
  "ValidateIntent i = require (Intent_Valid i) (Errorf ''invalid intent %q'' [AStr (Intent_code i)])"

section \<open>Source dispositions\<close>

datatype SourceDisposition =
    DispDiscovered | DispImported | DispActive | DispAvailable | DispExcluded | DispDenied
  | DispShadowed | DispOrphaned | DispOpaque | DispUnknown | DispOther string

fun SourceDisposition_code :: "SourceDisposition \<Rightarrow> string" where
  "SourceDisposition_code DispDiscovered = ''DISCOVERED''"
| "SourceDisposition_code DispImported = ''IMPORTED''"
| "SourceDisposition_code DispActive = ''ACTIVE''"
| "SourceDisposition_code DispAvailable = ''AVAILABLE''"
| "SourceDisposition_code DispExcluded = ''EXCLUDED''"
| "SourceDisposition_code DispDenied = ''DENIED''"
| "SourceDisposition_code DispShadowed = ''SHADOWED''"
| "SourceDisposition_code DispOrphaned = ''ORPHANED''"
| "SourceDisposition_code DispOpaque = ''OPAQUE''"
| "SourceDisposition_code DispUnknown = ''UNKNOWN''"
| "SourceDisposition_code (DispOther s) = s"

fun SourceDisposition_Valid :: "SourceDisposition \<Rightarrow> bool" where
  "SourceDisposition_Valid (DispOther s) = False"
| "SourceDisposition_Valid d = True"

definition ValidateSourceDisposition :: "SourceDisposition \<Rightarrow> err option" where
  "ValidateSourceDisposition d =
     require (SourceDisposition_Valid d)
       (Errorf ''invalid source disposition %q'' [AStr (SourceDisposition_code d)])"

section \<open>Guarantee levels\<close>

datatype GuaranteeLevel =
  GuaranteeHard | GuaranteeReconciled | GuaranteeAdvisory | GuaranteeObserved | GuaranteeOther string

fun GuaranteeLevel_code :: "GuaranteeLevel \<Rightarrow> string" where
  "GuaranteeLevel_code GuaranteeHard = ''HARD''"
| "GuaranteeLevel_code GuaranteeReconciled = ''RECONCILED''"
| "GuaranteeLevel_code GuaranteeAdvisory = ''ADVISORY''"
| "GuaranteeLevel_code GuaranteeObserved = ''OBSERVED''"
| "GuaranteeLevel_code (GuaranteeOther s) = s"

fun GuaranteeLevel_Valid :: "GuaranteeLevel \<Rightarrow> bool" where
  "GuaranteeLevel_Valid (GuaranteeOther s) = False"
| "GuaranteeLevel_Valid g = True"

definition ValidateGuaranteeLevel :: "GuaranteeLevel \<Rightarrow> err option" where
  "ValidateGuaranteeLevel g =
     require (GuaranteeLevel_Valid g) (Errorf ''invalid guarantee level %q'' [AStr (GuaranteeLevel_code g)])"

section \<open>Drift categories\<close>

datatype DriftCategory =
    DriftConfigDrift | DriftEffectiveDrift | DriftSourceDrift | DriftCapabilityGap
  | DriftKnowledgeDrift | DriftContextDrift | DriftException | DriftUnknown | DriftOther string

fun DriftCategory_code :: "DriftCategory \<Rightarrow> string" where
  "DriftCategory_code DriftConfigDrift = ''CONFIG_DRIFT''"
| "DriftCategory_code DriftEffectiveDrift = ''EFFECTIVE_DRIFT''"
| "DriftCategory_code DriftSourceDrift = ''SOURCE_DRIFT''"
| "DriftCategory_code DriftCapabilityGap = ''CAPABILITY_GAP''"
| "DriftCategory_code DriftKnowledgeDrift = ''KNOWLEDGE_DRIFT''"
| "DriftCategory_code DriftContextDrift = ''CONTEXT_DRIFT''"
| "DriftCategory_code DriftException = ''EXCEPTION''"
| "DriftCategory_code DriftUnknown = ''UNKNOWN''"
| "DriftCategory_code (DriftOther s) = s"

fun DriftCategory_Valid :: "DriftCategory \<Rightarrow> bool" where
  "DriftCategory_Valid (DriftOther s) = False"
| "DriftCategory_Valid c = True"

definition ValidateDriftCategory :: "DriftCategory \<Rightarrow> err option" where
  "ValidateDriftCategory c =
     require (DriftCategory_Valid c) (Errorf ''invalid drift category %q'' [AStr (DriftCategory_code c)])"

section \<open>Knowledge status and ownership\<close>

datatype KnowledgeStatus =
    KnowledgeFresh | KnowledgeDue | KnowledgeStale | KnowledgeConflicted | KnowledgeSuperseded
  | KnowledgeRetired | KnowledgeStatusOther string

fun KnowledgeStatus_code :: "KnowledgeStatus \<Rightarrow> string" where
  "KnowledgeStatus_code KnowledgeFresh = ''FRESH''"
| "KnowledgeStatus_code KnowledgeDue = ''DUE''"
| "KnowledgeStatus_code KnowledgeStale = ''STALE''"
| "KnowledgeStatus_code KnowledgeConflicted = ''CONFLICTED''"
| "KnowledgeStatus_code KnowledgeSuperseded = ''SUPERSEDED''"
| "KnowledgeStatus_code KnowledgeRetired = ''RETIRED''"
| "KnowledgeStatus_code (KnowledgeStatusOther s) = s"

fun KnowledgeStatus_Valid :: "KnowledgeStatus \<Rightarrow> bool" where
  "KnowledgeStatus_Valid (KnowledgeStatusOther s) = False"
| "KnowledgeStatus_Valid k = True"

definition ValidateKnowledgeStatus :: "KnowledgeStatus \<Rightarrow> err option" where
  "ValidateKnowledgeStatus s =
     require (KnowledgeStatus_Valid s) (Errorf ''invalid knowledge status %q'' [AStr (KnowledgeStatus_code s)])"

datatype Ownership =
    OwnershipManaged | OwnershipPatched | OwnershipObserved | OwnershipPassthrough | OwnershipExternal
  | OwnershipOther string

fun Ownership_code :: "Ownership \<Rightarrow> string" where
  "Ownership_code OwnershipManaged = ''managed''"
| "Ownership_code OwnershipPatched = ''patched''"
| "Ownership_code OwnershipObserved = ''observed''"
| "Ownership_code OwnershipPassthrough = ''passthrough''"
| "Ownership_code OwnershipExternal = ''external''"
| "Ownership_code (OwnershipOther s) = s"

fun Ownership_Valid :: "Ownership \<Rightarrow> bool" where
  "Ownership_Valid (OwnershipOther s) = False"
| "Ownership_Valid x = True"

definition ValidateOwnership :: "Ownership \<Rightarrow> err option" where
  "ValidateOwnership x = require (Ownership_Valid x) (Errorf ''invalid ownership %q'' [AStr (Ownership_code x)])"

section \<open>Scopes, hosts and tiers\<close>

definition KnownScopeKinds :: "string list" where
  "KnownScopeKinds = [''builtin'', ''managed'', ''user'', ''profile'', ''workspace'', ''worktree'',
     ''directory'', ''local'', ''session'']"

definition ValidateScopeKind :: "string \<Rightarrow> err option" where
  "ValidateScopeKind kind = require (kind \<in> set KnownScopeKinds) (Errorf ''unknown scope kind %q'' [AStr kind])"

definition KnownHostIDs :: "string list" where
  "KnownHostIDs = [''claude-code'', ''codex'', ''cursor'', ''github-copilot'', ''antigravity-cli'', ''pi'',
     ''openclaw'', ''hermes-agent'']"

definition ValidateHostID :: "string \<Rightarrow> err option" where
  "ValidateHostID hid = require (hid \<in> set KnownHostIDs) (Errorf ''unknown host id %q'' [AStr hid])"

fun ValidateHostIDs_loop :: "string list \<Rightarrow> string list \<Rightarrow> err option" where
  "ValidateHostIDs_loop seen [] = None"
| "ValidateHostIDs_loop seen (hid # ids) =
     (case ValidateHostID hid of
        Some e \<Rightarrow> Some e
      | None \<Rightarrow>
          if hid \<in> set seen then Some (Errorf ''duplicate host id %q in hosts selector'' [AStr hid])
          else ValidateHostIDs_loop (hid # seen) ids)"

definition ValidateHostIDs :: "string list \<Rightarrow> err option" where
  "ValidateHostIDs ids = ValidateHostIDs_loop [] ids"

datatype HostTier = TierManaged | TierBridge | TierObserved | TierOther string

fun HostTier_code :: "HostTier \<Rightarrow> string" where
  "HostTier_code TierManaged = ''MANAGED''"
| "HostTier_code TierBridge = ''BRIDGE''"
| "HostTier_code TierObserved = ''OBSERVED''"
| "HostTier_code (TierOther s) = s"

record HostCapability =
  hc_Tier :: HostTier
  hc_CanVirtualizeHome :: bool
  hc_SupportsHooks :: bool
  hc_NativeMCPProtocol :: string

definition DefaultHostCapability :: "string \<Rightarrow> HostCapability" where
  "DefaultHostCapability host =
     (if host = ''codex'' then
        \<lparr>hc_Tier = TierManaged, hc_CanVirtualizeHome = True, hc_SupportsHooks = False,
         hc_NativeMCPProtocol = ''stdio''\<rparr>
      else if host = ''claude-code'' then
        \<lparr>hc_Tier = TierBridge, hc_CanVirtualizeHome = False, hc_SupportsHooks = True,
         hc_NativeMCPProtocol = ''http''\<rparr>
      else
        \<lparr>hc_Tier = TierObserved, hc_CanVirtualizeHome = False, hc_SupportsHooks = False,
         hc_NativeMCPProtocol = ''none''\<rparr>)"

fun HostTier_Valid :: "HostTier \<Rightarrow> bool" where
  "HostTier_Valid (TierOther s) = False"
| "HostTier_Valid t = True"

definition ValidateHostTier :: "HostTier \<Rightarrow> err option" where
  "ValidateHostTier t = require (HostTier_Valid t) (Errorf ''domain: invalid host tier %q'' [AStr (HostTier_code t)])"

section \<open>Mutable state classes and runtime scopes\<close>

datatype MutableStateClass =
    MutableStateGenerationLocal | MutableStateWorktreeShared | MutableStateWorkspaceShared
  | MutableStateIdentityShared | MutableStateHostGlobalExternal | MutableStateProhibitedImport
  | MutableStateOther string

fun MutableStateClass_code :: "MutableStateClass \<Rightarrow> string" where
  "MutableStateClass_code MutableStateGenerationLocal = ''generation-local''"
| "MutableStateClass_code MutableStateWorktreeShared = ''worktree-shared''"
| "MutableStateClass_code MutableStateWorkspaceShared = ''workspace-shared''"
| "MutableStateClass_code MutableStateIdentityShared = ''identity-shared''"
| "MutableStateClass_code MutableStateHostGlobalExternal = ''host-global external''"
| "MutableStateClass_code MutableStateProhibitedImport = ''prohibited import''"
| "MutableStateClass_code (MutableStateOther s) = s"

fun MutableStateClass_Valid :: "MutableStateClass \<Rightarrow> bool" where
  "MutableStateClass_Valid (MutableStateOther s) = False"
| "MutableStateClass_Valid m = True"

definition ValidateMutableStateClass :: "MutableStateClass \<Rightarrow> err option" where
  "ValidateMutableStateClass m =
     require (MutableStateClass_Valid m)
       (Errorf ''invalid mutable state class %q'' [AStr (MutableStateClass_code m)])"

definition SharesAcrossGenerations :: "MutableStateClass \<Rightarrow> bool" where
  "SharesAcrossGenerations m \<longleftrightarrow>
     m = MutableStateWorktreeShared \<or> m = MutableStateWorkspaceShared \<or> m = MutableStateIdentityShared"

datatype RuntimeScope = RuntimeScopeWorktree | RuntimeScopeWorkspace | RuntimeScopeUser | RuntimeScopeOther string

fun RuntimeScope_code :: "RuntimeScope \<Rightarrow> string" where
  "RuntimeScope_code RuntimeScopeWorktree = ''worktree''"
| "RuntimeScope_code RuntimeScopeWorkspace = ''workspace''"
| "RuntimeScope_code RuntimeScopeUser = ''user''"
| "RuntimeScope_code (RuntimeScopeOther s) = s"

fun RuntimeScope_Valid :: "RuntimeScope \<Rightarrow> bool" where
  "RuntimeScope_Valid (RuntimeScopeOther s) = False"
| "RuntimeScope_Valid r = True"

definition ValidateRuntimeScope :: "RuntimeScope \<Rightarrow> err option" where
  "ValidateRuntimeScope r =
     require (RuntimeScope_Valid r) (Errorf ''invalid runtime scope %q'' [AStr (RuntimeScope_code r)])"

definition RuntimeScope_IsScopeKind :: "RuntimeScope \<Rightarrow> bool" where
  "RuntimeScope_IsScopeKind r \<longleftrightarrow> RuntimeScope_code r \<in> set KnownScopeKinds"

fun RuntimeScope_SharingClass :: "RuntimeScope \<Rightarrow> MutableStateClass \<times> bool" where
  "RuntimeScope_SharingClass RuntimeScopeWorktree = (MutableStateWorktreeShared, True)"
| "RuntimeScope_SharingClass RuntimeScopeWorkspace = (MutableStateWorkspaceShared, True)"
| "RuntimeScope_SharingClass RuntimeScopeUser = (MutableStateIdentityShared, True)"
| "RuntimeScope_SharingClass (RuntimeScopeOther s) = (MutableStateOther '''', False)"

section \<open>Merge operators\<close>

datatype MergeOperator =
    OpReplace | OpDeepMerge | OpConcatOrdered | OpUnionByID | OpFirstMatch | OpNamespace | OpDenyWins
  | OpManagedGuardrail | OpUnspecified | OpOther string

fun MergeOperator_code :: "MergeOperator \<Rightarrow> string" where
  "MergeOperator_code OpReplace = ''REPLACE''"
| "MergeOperator_code OpDeepMerge = ''DEEP_MERGE''"
| "MergeOperator_code OpConcatOrdered = ''CONCAT_ORDERED''"
| "MergeOperator_code OpUnionByID = ''UNION_BY_ID''"
| "MergeOperator_code OpFirstMatch = ''FIRST_MATCH''"
| "MergeOperator_code OpNamespace = ''NAMESPACE''"
| "MergeOperator_code OpDenyWins = ''DENY_WINS''"
| "MergeOperator_code OpManagedGuardrail = ''MANAGED_GUARDRAIL''"
| "MergeOperator_code OpUnspecified = ''UNSPECIFIED''"
| "MergeOperator_code (OpOther s) = s"

fun MergeOperator_Valid :: "MergeOperator \<Rightarrow> bool" where
  "MergeOperator_Valid (OpOther s) = False"
| "MergeOperator_Valid p = True"

definition MergeOperators :: "MergeOperator list" where
  "MergeOperators = [OpReplace, OpDeepMerge, OpConcatOrdered, OpUnionByID, OpFirstMatch, OpNamespace,
     OpDenyWins, OpManagedGuardrail, OpUnspecified]"

text \<open>The conversion \<^verbatim>\<open>ontology.MergeOperator(s)\<close> of a raw string.\<close>

definition MergeOperator_of :: "string \<Rightarrow> MergeOperator" where
  "MergeOperator_of s =
     (case find (\<lambda>p. MergeOperator_code p = s) MergeOperators of Some p \<Rightarrow> p | None \<Rightarrow> OpOther s)"

definition ValidateMergeOperator :: "MergeOperator \<Rightarrow> err option" where
  "ValidateMergeOperator p =
     require (MergeOperator_Valid p) (Errorf ''invalid merge operator %q'' [AStr (MergeOperator_code p)])"

section \<open>Lemmas\<close>

lemma EvidenceLevel_Rank_Valid: "EvidenceLevel_Valid e \<longleftrightarrow> 0 \<le> EvidenceLevel_Rank e"
  by (cases e) auto

lemma EvidenceLevel_Rank_lower [simp]: "- 1 \<le> EvidenceLevel_Rank e"
  by (cases e) auto

lemma EvidenceLevel_Rank_bounds: "- 1 \<le> EvidenceLevel_Rank e \<and> EvidenceLevel_Rank e \<le> 5"
  by (cases e) auto

lemma EvidenceLevel_Rank_inj: "EvidenceLevel_Valid e \<Longrightarrow> EvidenceLevel_Rank e = EvidenceLevel_Rank f \<Longrightarrow> e = f"
  by (cases e; cases f) auto

lemma ValidateHostIDs_loop_None_iff:
  "ValidateHostIDs_loop seen ids = None \<longleftrightarrow>
     set ids \<subseteq> set KnownHostIDs \<and> distinct ids \<and> set ids \<inter> set seen = {}"
  by (induction ids arbitrary: seen) (auto simp: ValidateHostID_def require_def split: option.splits if_splits)

lemma ValidateHostIDs_None_iff [go_check]:
  "ValidateHostIDs ids = None \<longleftrightarrow> set ids \<subseteq> set KnownHostIDs \<and> distinct ids"
  by (auto simp: ValidateHostIDs_def ValidateHostIDs_loop_None_iff)

lemma ValidateHostID_None_iff [go_check]: "ValidateHostID hid = None \<longleftrightarrow> hid \<in> set KnownHostIDs"
  by (simp add: ValidateHostID_def require_def)

lemma Empty_not_host [simp]: "[] \<notin> set KnownHostIDs"
  by (simp add: KnownHostIDs_def)

lemma MergeOperator_of_code: "MergeOperator_Valid p \<Longrightarrow> MergeOperator_of (MergeOperator_code p) = p"
  by (cases p) (simp_all add: MergeOperator_of_def MergeOperators_def)

lemma MergeOperator_code_of: "MergeOperator_code (MergeOperator_of s) = s"
  by (auto simp: MergeOperator_of_def find_Some_iff split: option.splits)

lemma validate_enum_None_iff [go_check]:
  "ValidateEvidenceLevel e = None \<longleftrightarrow> EvidenceLevel_Valid e"
  "ValidateCapabilityLevel c = None \<longleftrightarrow> CapabilityLevel_Valid c"
  "ValidateIntent i = None \<longleftrightarrow> Intent_Valid i"
  "ValidateSourceDisposition d = None \<longleftrightarrow> SourceDisposition_Valid d"
  "ValidateGuaranteeLevel g = None \<longleftrightarrow> GuaranteeLevel_Valid g"
  "ValidateDriftCategory k = None \<longleftrightarrow> DriftCategory_Valid k"
  "ValidateKnowledgeStatus s = None \<longleftrightarrow> KnowledgeStatus_Valid s"
  "ValidateOwnership x = None \<longleftrightarrow> Ownership_Valid x"
  "ValidateHostTier t = None \<longleftrightarrow> HostTier_Valid t"
  "ValidateMutableStateClass m = None \<longleftrightarrow> MutableStateClass_Valid m"
  "ValidateRuntimeScope r = None \<longleftrightarrow> RuntimeScope_Valid r"
  "ValidateMergeOperator p = None \<longleftrightarrow> MergeOperator_Valid p"
  "ValidateScopeKind kind = None \<longleftrightarrow> kind \<in> set KnownScopeKinds"
  by (simp_all add: ValidateEvidenceLevel_def ValidateCapabilityLevel_def ValidateIntent_def
      ValidateSourceDisposition_def ValidateGuaranteeLevel_def ValidateDriftCategory_def
      ValidateKnowledgeStatus_def ValidateOwnership_def ValidateHostTier_def ValidateMutableStateClass_def
      ValidateRuntimeScope_def ValidateMergeOperator_def ValidateScopeKind_def require_None_iff)

lemma RuntimeScope_sharing:
  "RuntimeScope_Valid r \<Longrightarrow> RuntimeScope_IsScopeKind r \<and> snd (RuntimeScope_SharingClass r) \<and>
     SharesAcrossGenerations (fst (RuntimeScope_SharingClass r))"
  by (cases r) (simp_all add: RuntimeScope_IsScopeKind_def KnownScopeKinds_def SharesAcrossGenerations_def)

lemma DefaultHostCapability_Valid: "HostTier_Valid (hc_Tier (DefaultHostCapability host))"
  by (simp add: DefaultHostCapability_def)

end
