(* ===== verification/Json.thy ===== *)
theory Json
  imports Prelude
begin

text \<open>
  Generic JSON values (the \<^verbatim>\<open>any\<close> that \<^verbatim>\<open>encoding/json\<close> decodes into) and the canonical digest of
  \<^verbatim>\<open>internal/domain/digest.go\<close>. An object lists its members in one iteration order of the Go map, a
  number is its rendered text. The hash (SHA-256 in hex over the marshalled tree) is the parameter
  \<open>dg\<close>: every theorem about digests holds for any function in its place, and those that need
  distinct contents to have distinct digests say so.
\<close>

datatype json =
    JNull | JBool bool | JNum string | JStr string | JArr "json list" | JObj "(string \<times> json) list"

section \<open>Canonicalisation\<close>

text \<open>\<^verbatim>\<open>json.Marshal\<close> writes every object with its keys sorted; array order is kept.\<close>

primrec canon :: "json \<Rightarrow> json" where
  "canon JNull = JNull"
| "canon (JBool b) = JBool b"
| "canon (JNum n) = JNum n"
| "canon (JStr s) = JStr s"
| "canon (JArr xs) = JArr (map canon xs)"
| "canon (JObj kvs) = JObj (sort_key fst (map (map_prod id canon) kvs))"

definition CanonicalDigest :: "(json \<Rightarrow> string) \<Rightarrow> json \<Rightarrow> string" where
  "CanonicalDigest dg v = ''sha256:'' @ dg (canon v)"

definition lower_hex :: "string" where
  "lower_hex = ''0123456789abcdef''"

definition IsCanonicalDigest :: "string \<Rightarrow> bool" where
  "IsCanonicalDigest s \<longleftrightarrow>
     take 7 s = ''sha256:'' \<and> length (drop 7 s) = 64 \<and> (\<forall>c \<in> set (drop 7 s). c \<in> set lower_hex)"

text \<open>An object has each key once, everywhere in the tree.\<close>

primrec json_wf :: "json \<Rightarrow> bool" where
  "json_wf JNull = True"
| "json_wf (JBool b) = True"
| "json_wf (JNum n) = True"
| "json_wf (JStr s) = True"
| "json_wf (JArr xs) = list_all id (map json_wf xs)"
| "json_wf (JObj kvs) = (distinct (map fst kvs) \<and> list_all (\<lambda>p. id (snd p)) (map (map_prod id json_wf) kvs))"

section \<open>Lemmas\<close>

lemma json_wf_Obj_iff: "json_wf (JObj kvs) \<longleftrightarrow> distinct (map fst kvs) \<and> (\<forall>(k, v) \<in> set kvs. json_wf v)"
  by (auto simp: list_all_iff)

lemma json_wf_Arr_iff: "json_wf (JArr xs) \<longleftrightarrow> (\<forall>v \<in> set xs. json_wf v)"
  by (auto simp: list_all_iff)

lemma map_fst_map_prod [simp]: "map fst (map (map_prod id f) kvs) = map fst kvs"
  by simp

lemma canon_Obj_perm:
  assumes "distinct (map fst kvs)" "distinct (map fst kvs')" "set kvs = set kvs'"
  shows "canon (JObj kvs) = canon (JObj kvs')"
proof -
  have "sort_key fst (map (map_prod id canon) kvs) = sort_key fst (map (map_prod id canon) kvs')"
    by (rule sorted_list_unique_key) (use assms in auto)
  then show ?thesis by simp
qed

lemma map_of_canon: "map_of (map (map_prod id canon) kvs) k = map_option canon (map_of kvs k)"
  by (induction kvs) auto

lemma canon_Obj_cong:
  assumes "distinct (map fst kvs)" "distinct (map fst kvs')"
    and "\<And>k. map_option canon (map_of kvs k) = map_option canon (map_of kvs' k)"
  shows "canon (JObj kvs) = canon (JObj kvs')"
proof -
  let ?a = "map (map_prod id canon) kvs" and ?b = "map (map_prod id canon) kvs'"
  have d: "distinct (map fst ?a)" "distinct (map fst ?b)" using assms(1,2) by simp_all
  have "map_of ?a = map_of ?b" by (rule ext) (simp only: map_of_canon assms(3))
  then have "set ?a = set ?b" using d by (metis map_of_inject_set)
  then have "sort_key fst ?a = sort_key fst ?b" by (rule sorted_list_unique_key) (use d in simp_all)
  then show ?thesis by simp
qed

lemma IsCanonicalDigest_append:
  "IsCanonicalDigest (''sha256:'' @ h) \<longleftrightarrow> length h = 64 \<and> (\<forall>c \<in> set h. c \<in> set lower_hex)"
  by (simp add: IsCanonicalDigest_def)

lemma Empty_not_digest [simp]: "\<not> IsCanonicalDigest []"
  by (simp add: IsCanonicalDigest_def)

end
