(* ===== verification/Domain_Docs.thy ===== *)
theory Domain_Docs
  imports Domain_Enums Json
begin

text \<open>
  The desired-state and knowledge documents of \<^verbatim>\<open>internal/domain\<close>: Profile, Binding, Activation,
  Exception, Observation, HostKnowledge and Evidence, with their validators. A document record holds
  the fields of the Go struct and of its \<^verbatim>\<open>Metadata\<close> and \<^verbatim>\<open>Spec\<close> parts side by side; a field prefix
  names the document. A validator returns the first failing check as an \<open>err option\<close>; where the Go
  loop ranges over a map the model ranges over the map's entries in their given order, which decides
  only which error is reported first.
\<close>

section \<open>Shared checks\<close>

definition SupportedAPIVersion :: string where
  "SupportedAPIVersion = ''omca.dev/v1alpha1''"

definition ValidateAPIVersion :: "string \<Rightarrow> string \<Rightarrow> err option" where
  "ValidateAPIVersion kind apiVersion =
     require (apiVersion = SupportedAPIVersion)
       (Errorf ''%s: unsupported apiVersion %q, this build only accepts %q''
          [AStr kind, AStr apiVersion, AStr SupportedAPIVersion])"

definition ValidateKind :: "string \<Rightarrow> string \<Rightarrow> err option" where
  "ValidateKind want got = require (got = want) (Errorf ''expected kind %q, got %q'' [AStr want, AStr got])"

section \<open>Profile\<close>

record AssetRef =
  ar_ID :: string
  ar_Intent :: Intent
  ar_Hosts :: "string list"

record PermissionRef =
  pm_Intent :: Intent
  pm_Value :: string

record Profile =
  pf_APIVersion :: string
  pf_Kind :: string
  pf_ID :: string
  pf_Skills :: "AssetRef list"
  pf_MCPServers :: "AssetRef list"
  pf_Instructions :: "AssetRef list"
  pf_Permissions :: "PermissionRef gomap"

definition validateAssetRef :: "string \<Rightarrow> AssetRef \<Rightarrow> err option" where
  "validateAssetRef grp ref = first_err
     [require (ar_ID ref \<noteq> '''') (Errorf ''Profile: %s: asset id is required'' [AStr grp]),
      wrap_err ''Profile: %s %q: %w'' [AStr grp, AStr (ar_ID ref)] (ValidateIntent (ar_Intent ref)),
      wrap_err ''Profile: %s %q: %w'' [AStr grp, AStr (ar_ID ref)] (ValidateHostIDs (ar_Hosts ref))]"

definition ValidateProfile :: "Profile \<Rightarrow> err option" where
  "ValidateProfile p = first_err
     ([ValidateAPIVersion ''Profile'' (pf_APIVersion p),
       ValidateKind ''Profile'' (pf_Kind p),
       require (pf_ID p \<noteq> '''') (Errorf ''Profile: metadata.id is required'' [])]
      @ map (validateAssetRef ''skills'') (pf_Skills p)
      @ map (validateAssetRef ''mcpServers'') (pf_MCPServers p)
      @ map (validateAssetRef ''instructions'') (pf_Instructions p)
      @ map (\<lambda>(name, perm). wrap_err ''Profile: permission %q: %w'' [AStr name]
                (ValidateIntent (pm_Intent perm))) (pf_Permissions p))"

section \<open>Binding\<close>

record BindingMatch =
  bm_Repository :: string
  bm_RepositoryGlob :: string
  bm_Paths :: "string list"

record Binding =
  bd_APIVersion :: string
  bd_Kind :: string
  bd_ID :: string
  bd_Match :: BindingMatch
  bd_Profiles :: "string list"

definition ValidateBinding :: "Binding \<Rightarrow> err option" where
  "ValidateBinding b = first_err
     [ValidateAPIVersion ''Binding'' (bd_APIVersion b),
      ValidateKind ''Binding'' (bd_Kind b),
      require (bd_ID b \<noteq> '''') (Errorf ''Binding: metadata.id is required'' []),
      require (\<not> (bm_Repository (bd_Match b) = '''' \<and> bm_RepositoryGlob (bd_Match b) = ''''))
        (Errorf ''Binding: spec.match must set exactly one of repository or repositoryGlob, neither is set'' []),
      require (\<not> (bm_Repository (bd_Match b) \<noteq> '''' \<and> bm_RepositoryGlob (bd_Match b) \<noteq> ''''))
        (Errorf ''Binding: spec.match must set exactly one of repository or repositoryGlob, both are set'' []),
      require (bd_Profiles b \<noteq> []) (Errorf ''Binding: spec.profiles must not be empty'' [])]"

section \<open>Activation\<close>

record ActivationSelection =
  as_Skills :: "string list"
  as_MCPServers :: "string list"

record HostActivation =
  ha_Enable :: ActivationSelection
  ha_Disable :: ActivationSelection

record Activation =
  ac_APIVersion :: string
  ac_Kind :: string
  ac_Worktree :: string
  ac_Enable :: ActivationSelection
  ac_Disable :: ActivationSelection
  ac_Hosts :: "HostActivation gomap"

definition ValidateActivation :: "Activation \<Rightarrow> err option" where
  "ValidateActivation a = first_err
     ([ValidateAPIVersion ''Activation'' (ac_APIVersion a),
       ValidateKind ''Activation'' (ac_Kind a),
       require (ac_Worktree a \<noteq> '''') (Errorf ''Activation: metadata.worktree is required'' [])]
      @ map (\<lambda>(host, _). wrap_err ''Activation: spec.hosts: %w'' [] (ValidateHostID host)) (ac_Hosts a))"

text \<open>\<^verbatim>\<open>deniedScope\<close>: the hosts one asset is denied for; \<^verbatim>\<open>deniedAssets\<close> folds every DENIED reference.\<close>

record deniedScope =
  ds_hostNeutral :: bool
  ds_hosts :: "string list"

definition deniedScope_appliesTo :: "deniedScope \<Rightarrow> string \<Rightarrow> bool" where
  "deniedScope_appliesTo d host = (if ds_hostNeutral d then True else host \<in> set (ds_hosts d))"

definition deniedAssets_record ::
  "(string \<rightharpoonup> deniedScope) \<Rightarrow> AssetRef \<Rightarrow> (string \<rightharpoonup> deniedScope)" where
  "deniedAssets_record denied ref =
     (if ar_Intent ref \<noteq> IntentDenied then denied
      else
        let scope = (case denied (ar_ID ref) of
                       Some d \<Rightarrow> d | None \<Rightarrow> \<lparr>ds_hostNeutral = False, ds_hosts = []\<rparr>)
        in denied(ar_ID ref \<mapsto>
             (if ar_Hosts ref = [] then scope\<lparr>ds_hostNeutral := True\<rparr>
              else scope\<lparr>ds_hosts := ds_hosts scope @ ar_Hosts ref\<rparr>)))"

definition profile_refs :: "Profile \<Rightarrow> AssetRef list" where
  "profile_refs p = pf_Skills p @ pf_MCPServers p @ pf_Instructions p"

definition deniedAssets :: "Profile list \<Rightarrow> (string \<rightharpoonup> deniedScope)" where
  "deniedAssets profiles = foldl deniedAssets_record Map.empty (concat (map profile_refs profiles))"

definition checkSelection ::
  "(string \<rightharpoonup> deniedScope) \<Rightarrow> string \<Rightarrow> ActivationSelection \<Rightarrow> err option" where
  "checkSelection denied host sel =
     (let blocked = (\<lambda>aid. case denied aid of Some d \<Rightarrow> deniedScope_appliesTo d host | None \<Rightarrow> False)
      in first_err
        (map (\<lambda>aid. require (\<not> blocked aid)
            (Errorf ''Activation: cannot enable skill %q: denied by profile policy'' [AStr aid])) (as_Skills sel)
         @ map (\<lambda>aid. require (\<not> blocked aid)
            (Errorf ''Activation: cannot enable mcpServer %q: denied by profile policy'' [AStr aid]))
            (as_MCPServers sel)))"

definition ValidateActivationAgainstProfiles :: "Activation \<Rightarrow> Profile list \<Rightarrow> err option" where
  "ValidateActivationAgainstProfiles a profiles =
     (let denied = deniedAssets profiles
      in first_err
        (checkSelection denied '''' (ac_Enable a)
         # map (\<lambda>(host, h). checkSelection denied host (ha_Enable h)) (ac_Hosts a)))"

section \<open>Exception\<close>

record Exception =
  ex_APIVersion :: string
  ex_Kind :: string
  ex_ID :: string
  ex_AssetID :: string
  ex_Scope :: string
  ex_Justification :: string
  ex_ExpiresAt :: gotime

definition Exception_Valid :: "Exception \<Rightarrow> bool" where
  "Exception_Valid e \<longleftrightarrow> ex_AssetID e \<noteq> '''' \<and> ex_Scope e \<noteq> ''''"

definition ValidateException :: "Exception \<Rightarrow> err option" where
  "ValidateException e = first_err
     [ValidateAPIVersion ''Exception'' (ex_APIVersion e),
      ValidateKind ''Exception'' (ex_Kind e),
      require (ex_ID e \<noteq> '''') (Errorf ''Exception: metadata.id is required'' []),
      require (ex_AssetID e \<noteq> '''') (Errorf ''Exception: assetId is required'' []),
      require (ex_Scope e \<noteq> '''') (Errorf ''Exception: scope is required'' []),
      require (ex_Justification e \<noteq> '''') (Errorf ''Exception: justification is required'' []),
      require (ex_ExpiresAt e \<noteq> 0) (Errorf ''Exception: expiresAt is required'' [])]"

section \<open>Observation\<close>

record ObservationHost =
  oh_ID :: string
  oh_Version :: string

record ObservationSource =
  os_Kind :: string
  os_Path :: string
  os_Digest :: string

record ObservationScope =
  osc_Kind :: string
  osc_Root :: string
  osc_Selector :: string
  osc_Shared :: bool
  osc_TrustRequired :: bool

record Observation =
  ob_APIVersion :: string
  ob_Kind :: string
  ob_ID :: string
  ob_Host :: ObservationHost
  ob_Surface :: string
  ob_Concept :: string
  ob_Source :: ObservationSource
  ob_Scope :: ObservationScope
  ob_Disposition :: SourceDisposition
  ob_EvidenceLevel :: EvidenceLevel
  ob_RawDigest :: string
  ob_ParsedDigest :: string
  ob_OpaqueVendorFields :: "json gomap"

definition ValidateObservation :: "Observation \<Rightarrow> err option" where
  "ValidateObservation x = first_err
     [ValidateAPIVersion ''Observation'' (ob_APIVersion x),
      ValidateKind ''Observation'' (ob_Kind x),
      require (ob_ID x \<noteq> '''') (Errorf ''Observation: metadata.id is required'' []),
      require (oh_ID (ob_Host x) \<noteq> '''') (Errorf ''Observation: spec.host.id is required'' []),
      wrap_err ''Observation: spec.host.id: %w'' [] (ValidateHostID (oh_ID (ob_Host x))),
      require (ob_Concept x \<noteq> '''') (Errorf ''Observation: spec.concept is required'' []),
      require (os_Kind (ob_Source x) \<noteq> '''') (Errorf ''Observation: spec.source.kind is required'' []),
      require (osc_Kind (ob_Scope x) \<noteq> '''') (Errorf ''Observation: spec.scope.kind is required'' []),
      wrap_err ''Observation: spec.scope.kind: %w'' [] (ValidateScopeKind (osc_Kind (ob_Scope x))),
      wrap_err ''Observation: spec.disposition: %w'' [] (ValidateSourceDisposition (ob_Disposition x)),
      wrap_err ''Observation: spec.evidenceLevel: %w'' [] (ValidateEvidenceLevel (ob_EvidenceLevel x))]"

section \<open>HostKnowledge\<close>

record KnowledgeEvidenceRef =
  ke_ID :: string
  ke_Kind :: string
  ke_URL :: string
  ke_Path :: string
  ke_Digest :: string

record CapabilityOps =
  co_Discover :: CapabilityLevel
  co_Parse :: CapabilityLevel
  co_Normalize :: CapabilityLevel
  co_Resolve :: CapabilityLevel
  co_Compile :: CapabilityLevel
  co_Verify :: CapabilityLevel
  co_ReconcileMode :: string
  co_VerificationMethods :: "string list"

definition CapabilityOps_zero :: CapabilityOps where
  "CapabilityOps_zero =
     \<lparr>co_Discover = CapOther '''', co_Parse = CapOther '''', co_Normalize = CapOther '''',
      co_Resolve = CapOther '''', co_Compile = CapOther '''', co_Verify = CapOther '''',
      co_ReconcileMode = '''', co_VerificationMethods = []\<rparr>"

record PrecedenceProgram =
  pp_ID :: string
  pp_Identity :: string
  pp_Operator :: string
  pp_Fixture :: string

definition PrecedenceProgram_zero :: PrecedenceProgram where
  "PrecedenceProgram_zero = \<lparr>pp_ID = '''', pp_Identity = '''', pp_Operator = '''', pp_Fixture = ''''\<rparr>"

record HostKnowledge =
  hk_APIVersion :: string
  hk_Kind :: string
  hk_ID :: string
  hk_Host :: string
  hk_Surface :: string
  hk_VersionRange :: string
  hk_Platforms :: "string list"
  hk_ObservedAt :: string
  hk_RecheckAfter :: string
  hk_Status :: KnowledgeStatus
  hk_Evidence :: "KnowledgeEvidenceRef list"
  hk_Capabilities :: "CapabilityOps gomap"
  hk_PrecedencePrograms :: "PrecedenceProgram list"
  hk_KnownUnknowns :: "string list"

definition CapabilityOps_levels :: "CapabilityOps \<Rightarrow> CapabilityLevel gomap" where
  "CapabilityOps_levels ops =
     [(''discover'', co_Discover ops), (''parse'', co_Parse ops), (''normalize'', co_Normalize ops),
      (''resolve'', co_Resolve ops), (''compile'', co_Compile ops), (''verify'', co_Verify ops)]"

definition validateCapabilityOps :: "string \<Rightarrow> CapabilityOps \<Rightarrow> err option" where
  "validateCapabilityOps concept ops = first_err
     (map (\<lambda>(opn, level).
         if level = CapOther '''' then None
         else wrap_err ''HostKnowledge: capabilities.%s.%s: %w'' [AStr concept, AStr opn]
                (ValidateCapabilityLevel level))
       (CapabilityOps_levels ops))"

definition ValidateHostKnowledge :: "HostKnowledge \<Rightarrow> err option" where
  "ValidateHostKnowledge hk = first_err
     ([ValidateAPIVersion ''HostKnowledge'' (hk_APIVersion hk),
       ValidateKind ''HostKnowledge'' (hk_Kind hk),
       require (hk_ID hk \<noteq> '''') (Errorf ''HostKnowledge: metadata.id is required'' []),
       require (hk_Host hk \<noteq> '''') (Errorf ''HostKnowledge: metadata.host is required'' []),
       wrap_err ''HostKnowledge: metadata.host: %w'' [] (ValidateHostID (hk_Host hk)),
       require (hk_Surface hk \<noteq> '''') (Errorf ''HostKnowledge: metadata.surface is required'' []),
       require (hk_VersionRange hk \<noteq> '''') (Errorf ''HostKnowledge: metadata.versionRange is required'' []),
       wrap_err ''HostKnowledge: metadata.status: %w'' [] (ValidateKnowledgeStatus (hk_Status hk)),
       require (hk_Evidence hk \<noteq> []) (Errorf ''HostKnowledge: evidence must not be empty'' [])]
      @ map (\<lambda>ev. require (ke_ID ev \<noteq> '''') (Errorf ''HostKnowledge: evidence entry missing id'' []))
          (hk_Evidence hk)
      @ map (\<lambda>(concept, ops). validateCapabilityOps concept ops) (hk_Capabilities hk))"

section \<open>Evidence\<close>

record EvidenceSubject =
  sj_Concept :: string
  sj_LogicalID :: string
  sj_Field :: string

record EvidenceSource =
  es_Kind :: string
  es_URL :: string
  es_Path :: string
  es_Digest :: string

record KnowledgeRef =
  kr_ID :: string
  kr_Digest :: string

record Evidence =
  ev_APIVersion :: string
  ev_Kind :: string
  ev_ID :: string
  ev_Subject :: EvidenceSubject
  ev_Level :: EvidenceLevel
  ev_Guarantee :: GuaranteeLevel
  ev_Method :: message
  ev_ObservedAt :: string
  ev_Source :: EvidenceSource
  ev_KnowledgeRef :: KnowledgeRef

definition ValidateEvidence :: "Evidence \<Rightarrow> err option" where
  "ValidateEvidence e = first_err
     [ValidateAPIVersion ''Evidence'' (ev_APIVersion e),
      ValidateKind ''Evidence'' (ev_Kind e),
      require (ev_ID e \<noteq> '''') (Errorf ''Evidence: metadata.id is required'' []),
      require (sj_Concept (ev_Subject e) \<noteq> '''') (Errorf ''Evidence: spec.subject.concept is required'' []),
      require (sj_LogicalID (ev_Subject e) \<noteq> '''') (Errorf ''Evidence: spec.subject.logicalId is required'' []),
      wrap_err ''Evidence: spec.level: %w'' [] (ValidateEvidenceLevel (ev_Level e)),
      (if ev_Guarantee e \<noteq> GuaranteeOther ''''
       then wrap_err ''Evidence: spec.guarantee: %w'' [] (ValidateGuaranteeLevel (ev_Guarantee e)) else None),
      require (ev_ObservedAt e \<noteq> '''') (Errorf ''Evidence: spec.observedAt is required'' [])]"

definition sameSubject :: "EvidenceSubject \<Rightarrow> EvidenceSubject \<Rightarrow> bool" where
  "sameSubject a b \<longleftrightarrow> sj_Concept a = sj_Concept b \<and> sj_LogicalID a = sj_LogicalID b \<and> sj_Field a = sj_Field b"

text \<open>The loop of \<^verbatim>\<open>StrongestEvidence\<close>; \<open>None\<close> is \<^verbatim>\<open>found == false\<close> with the zero record.\<close>

fun StrongestEvidence_loop :: "EvidenceSubject \<Rightarrow> Evidence option \<Rightarrow> int \<Rightarrow> Evidence list \<Rightarrow> Evidence option" where
  "StrongestEvidence_loop subject best bestIdx [] = best"
| "StrongestEvidence_loop subject best bestIdx (r # rs) =
     (if \<not> sameSubject (ev_Subject r) subject then StrongestEvidence_loop subject best bestIdx rs
      else if \<not> EvidenceLevel_Valid (ev_Level r) then StrongestEvidence_loop subject best bestIdx rs
      else if best = None \<or> EvidenceLevel_Rank (ev_Level r) > bestIdx
        then StrongestEvidence_loop subject (Some r) (EvidenceLevel_Rank (ev_Level r)) rs
      else StrongestEvidence_loop subject best bestIdx rs)"

definition StrongestEvidence :: "EvidenceSubject \<Rightarrow> Evidence list \<Rightarrow> Evidence option" where
  "StrongestEvidence subject records = StrongestEvidence_loop subject None (- 1) records"

section \<open>Lemmas: what an accepted document satisfies\<close>

lemma ValidateAPIVersion_None_iff [go_check]: "ValidateAPIVersion k v = None \<longleftrightarrow> v = SupportedAPIVersion"
  by (simp add: ValidateAPIVersion_def require_None_iff)

lemma ValidateKind_None_iff [go_check]: "ValidateKind w g = None \<longleftrightarrow> g = w"
  by (simp add: ValidateKind_def require_None_iff)

lemma validateAssetRef_None_iff [go_check]:
  "validateAssetRef grp ref = None \<longleftrightarrow>
     ar_ID ref \<noteq> [] \<and> Intent_Valid (ar_Intent ref) \<and>
     set (ar_Hosts ref) \<subseteq> set KnownHostIDs \<and> distinct (ar_Hosts ref)"
  by (simp add: validateAssetRef_def go_check)

lemma ValidateProfile_None_iff [go_check]:
  "ValidateProfile p = None \<longleftrightarrow>
     pf_APIVersion p = SupportedAPIVersion \<and> pf_Kind p = ''Profile'' \<and> pf_ID p \<noteq> [] \<and>
     (\<forall>ref \<in> set (profile_refs p). ar_ID ref \<noteq> [] \<and> Intent_Valid (ar_Intent ref) \<and>
        set (ar_Hosts ref) \<subseteq> set KnownHostIDs \<and> distinct (ar_Hosts ref)) \<and>
     (\<forall>(name, perm) \<in> set (pf_Permissions p). Intent_Valid (pm_Intent perm))"
  by (auto simp: ValidateProfile_def profile_refs_def go_check)

lemma ValidateBinding_None_iff [go_check]:
  "ValidateBinding b = None \<longleftrightarrow>
     bd_APIVersion b = SupportedAPIVersion \<and> bd_Kind b = ''Binding'' \<and> bd_ID b \<noteq> [] \<and>
     (bm_Repository (bd_Match b) = [] \<longleftrightarrow> bm_RepositoryGlob (bd_Match b) \<noteq> []) \<and> bd_Profiles b \<noteq> []"
  by (auto simp: ValidateBinding_def go_check)

lemma ValidateException_None_iff [go_check]:
  "ValidateException e = None \<longleftrightarrow>
     ex_APIVersion e = SupportedAPIVersion \<and> ex_Kind e = ''Exception'' \<and> ex_ID e \<noteq> [] \<and>
     Exception_Valid e \<and> ex_Justification e \<noteq> [] \<and> ex_ExpiresAt e \<noteq> 0"
  by (auto simp: ValidateException_def Exception_Valid_def go_check)

lemma ValidateEvidence_None_iff [go_check]:
  "ValidateEvidence e = None \<longleftrightarrow>
     ev_APIVersion e = SupportedAPIVersion \<and> ev_Kind e = ''Evidence'' \<and> ev_ID e \<noteq> [] \<and>
     sj_Concept (ev_Subject e) \<noteq> [] \<and> sj_LogicalID (ev_Subject e) \<noteq> [] \<and>
     EvidenceLevel_Valid (ev_Level e) \<and>
     (ev_Guarantee e \<noteq> GuaranteeOther [] \<longrightarrow> GuaranteeLevel_Valid (ev_Guarantee e)) \<and>
     ev_ObservedAt e \<noteq> []"
  by (auto simp: ValidateEvidence_def go_check)

section \<open>Lemmas: denied assets\<close>

definition denies_host :: "AssetRef list \<Rightarrow> string \<Rightarrow> string \<Rightarrow> bool" where
  "denies_host refs aid host \<longleftrightarrow>
     (\<exists>ref \<in> set refs. ar_ID ref = aid \<and> ar_Intent ref = IntentDenied \<and>
        (ar_Hosts ref = [] \<or> host \<in> set (ar_Hosts ref)))"

definition scope_applies :: "(string \<rightharpoonup> deniedScope) \<Rightarrow> string \<Rightarrow> string \<Rightarrow> bool" where
  "scope_applies denied aid host =
     (case denied aid of Some d \<Rightarrow> deniedScope_appliesTo d host | None \<Rightarrow> False)"

lemma scope_applies_record:
  "scope_applies (deniedAssets_record denied ref) aid host \<longleftrightarrow>
     scope_applies denied aid host \<or> denies_host [ref] aid host"
  by (auto simp: scope_applies_def deniedAssets_record_def denies_host_def deniedScope_appliesTo_def Let_def
      split: option.splits)

lemma scope_applies_foldl:
  "scope_applies (foldl deniedAssets_record denied refs) aid host \<longleftrightarrow>
     scope_applies denied aid host \<or> denies_host refs aid host"
  by (induction refs arbitrary: denied) (auto simp: scope_applies_record denies_host_def)

lemma deniedAssets_applies:
  "scope_applies (deniedAssets profiles) aid host \<longleftrightarrow>
     denies_host (concat (map profile_refs profiles)) aid host"
  by (simp add: deniedAssets_def scope_applies_foldl) (simp add: scope_applies_def)

lemma checkSelection_None_iff:
  "checkSelection denied host sel = None \<longleftrightarrow>
     (\<forall>aid \<in> set (as_Skills sel) \<union> set (as_MCPServers sel). \<not> scope_applies denied aid host)"
  by (auto simp: checkSelection_def scope_applies_def Let_def go_check split: option.splits)

section \<open>Lemmas: strongest evidence\<close>

definition evidence_for :: "EvidenceSubject \<Rightarrow> Evidence list \<Rightarrow> Evidence set" where
  "evidence_for subject records =
     {r \<in> set records. sameSubject (ev_Subject r) subject \<and> EvidenceLevel_Valid (ev_Level r)}"

lemma evidence_for_Cons:
  "evidence_for subject (r # rs) =
     (if sameSubject (ev_Subject r) subject \<and> EvidenceLevel_Valid (ev_Level r)
      then insert r (evidence_for subject rs) else evidence_for subject rs)"
  by (auto simp: evidence_for_def)

text \<open>The loop's result is the first record of the highest rank among the best so far and the rest.\<close>

lemma StrongestEvidence_loop_best:
  "idx = EvidenceLevel_Rank (ev_Level b) \<Longrightarrow>
   \<exists>r. StrongestEvidence_loop subject (Some b) idx rs = Some r \<and> (r = b \<or> r \<in> evidence_for subject rs) \<and>
     EvidenceLevel_Rank (ev_Level b) \<le> EvidenceLevel_Rank (ev_Level r) \<and>
     (\<forall>x \<in> evidence_for subject rs. EvidenceLevel_Rank (ev_Level x) \<le> EvidenceLevel_Rank (ev_Level r))"
proof (induction rs arbitrary: b idx)
  case Nil
  then show ?case by (simp add: evidence_for_def)
next
  case (Cons x rs)
  show ?case
  proof (cases "sameSubject (ev_Subject x) subject \<and> EvidenceLevel_Valid (ev_Level x) \<and>
      EvidenceLevel_Rank (ev_Level x) > idx")
    case True
    with Cons.IH [of "EvidenceLevel_Rank (ev_Level x)" x] Cons.prems show ?thesis
      by (auto simp: evidence_for_Cons)
  next
    case False
    with Cons.IH [OF Cons.prems] Cons.prems show ?thesis
      by (auto simp: evidence_for_Cons)
  qed
qed

lemma StrongestEvidence_Some:
  assumes "StrongestEvidence subject rs = Some r"
  shows "r \<in> evidence_for subject rs \<and>
     (\<forall>x \<in> evidence_for subject rs. EvidenceLevel_Rank (ev_Level x) \<le> EvidenceLevel_Rank (ev_Level r))"
  using assms unfolding StrongestEvidence_def
proof (induction rs)
  case Nil
  then show ?case by simp
next
  case (Cons x rs)
  show ?case
  proof (cases "sameSubject (ev_Subject x) subject \<and> EvidenceLevel_Valid (ev_Level x)")
    case True
    with Cons.prems StrongestEvidence_loop_best [of "EvidenceLevel_Rank (ev_Level x)" x subject rs] show ?thesis
      by (auto simp: evidence_for_Cons)
  next
    case False
    with Cons show ?thesis by (auto simp: evidence_for_Cons split: if_splits)
  qed
qed

lemma StrongestEvidence_loop_None:
  "StrongestEvidence_loop subject best idx rs = None \<longleftrightarrow> best = None \<and> evidence_for subject rs = {}"
  by (induction subject best idx rs rule: StrongestEvidence_loop.induct) (auto simp: evidence_for_def)

end
