(* ===== verification/Exception_Contract.thy ===== *)
theory Exception_Contract
  imports Domain_Docs
begin

text \<open>
  The interface between the engines that consult exceptions (\<^verbatim>\<open>internal/resolve\<close> and
  \<^verbatim>\<open>internal/drift\<close>) and their lookup functions: a search of the exception list for the first entry
  that is structurally valid, names the asset, is scoped to one of the given policies and has not
  expired. Both lookups are interpretations of the locale; the consequences (an expired set grants
  nothing, unrelated exceptions do not matter, two lookups with the same contract agree) are proved
  once here.
\<close>

section \<open>The abstract condition\<close>

definition exception_applies :: "string \<Rightarrow> string list \<Rightarrow> gotime \<Rightarrow> Exception \<Rightarrow> bool" where
  "exception_applies aid scopes now e \<longleftrightarrow>
     Exception_Valid e \<and> ex_AssetID e = aid \<and> ex_Scope e \<in> set scopes \<and> now < ex_ExpiresAt e"

section \<open>The contract of a lookup\<close>

locale exception_lookup =
  fixes lookup_ex :: "Exception list \<Rightarrow> string \<Rightarrow> string list \<Rightarrow> gotime \<Rightarrow> Exception option"
  assumes lookup_sound:
      "lookup_ex exs aid scopes now = Some e \<Longrightarrow> e \<in> set exs \<and> exception_applies aid scopes now e"
    and lookup_complete:
      "lookup_ex exs aid scopes now = None \<Longrightarrow> e \<in> set exs \<Longrightarrow> \<not> exception_applies aid scopes now e"
    and lookup_first:
      "\<not> exception_applies aid scopes now e \<Longrightarrow> lookup_ex (e # exs) aid scopes now = lookup_ex exs aid scopes now"
      "exception_applies aid scopes now e \<Longrightarrow> lookup_ex (e # exs) aid scopes now = Some e"
begin

lemma lookup_None_iff:
  "lookup_ex exs aid scopes now = None \<longleftrightarrow> (\<forall>e \<in> set exs. \<not> exception_applies aid scopes now e)"
  using lookup_sound lookup_complete by (metis not_None_eq)

lemma lookup_find: "lookup_ex exs aid scopes now = find (exception_applies aid scopes now) exs"
proof (induction exs)
  case Nil
  show ?case by (simp add: lookup_None_iff)
next
  case (Cons e exs)
  then show ?case by (cases "exception_applies aid scopes now e") (simp_all add: lookup_first)
qed

lemma lookup_expired: "(\<And>e. e \<in> set exs \<Longrightarrow> ex_ExpiresAt e \<le> now) \<Longrightarrow> lookup_ex exs aid scopes now = None"
  by (simp add: lookup_None_iff exception_applies_def) (meson leD)

lemma lookup_no_scopes [simp]: "lookup_ex exs aid [] now = None"
  by (simp add: lookup_None_iff exception_applies_def)

lemma lookup_mono_now:
  "lookup_ex exs aid scopes now = None \<Longrightarrow> now \<le> now' \<Longrightarrow> lookup_ex exs aid scopes now' = None"
  by (auto simp: lookup_None_iff exception_applies_def)

lemma lookup_scopes_cong:
  "set scopes = set scopes' \<Longrightarrow> lookup_ex exs aid scopes now = lookup_ex exs aid scopes' now"
  by (simp add: lookup_find exception_applies_def [abs_def])

lemma lookup_filter:
  "(\<And>e. e \<in> set exs \<Longrightarrow> \<not> P e \<Longrightarrow> \<not> exception_applies aid scopes now e) \<Longrightarrow>
   lookup_ex (filter P exs) aid scopes now = lookup_ex exs aid scopes now"
proof (induction exs)
  case Nil
  then show ?case by simp
next
  case (Cons e exs)
  then have ih: "lookup_ex (filter P exs) aid scopes now = lookup_ex exs aid scopes now" by simp
  show ?case
  proof (cases "exception_applies aid scopes now e")
    case True
    with Cons.prems have "P e" by auto
    with True show ?thesis by (simp add: lookup_first)
  next
    case False
    with ih show ?thesis by (simp add: lookup_first)
  qed
qed

end

end
