(* ===== verification/Resolve.thy ===== *)
theory Resolve
  imports Exception_Contract
begin

text \<open>
  The intent resolution engine, \<^verbatim>\<open>internal/resolve/resolve.go\<close> and \<^verbatim>\<open>types.go\<close>: from the selected
  Profiles, the worktree's Activation, the Exceptions and a clock value to one decided asset or one
  conflict per asset of a host. The Go map of candidates by asset key is the list of its
  \<open>(key, entry)\<close> pairs in insertion order; a set of profile IDs is a list.
\<close>

section \<open>Data\<close>

datatype AssetKind = KindSkill | KindMCPServer | KindInstruction | KindOther string

fun AssetKind_code :: "AssetKind \<Rightarrow> string" where
  "AssetKind_code KindSkill = ''skill''"
| "AssetKind_code KindMCPServer = ''mcpServer''"
| "AssetKind_code KindInstruction = ''instruction''"
| "AssetKind_code (KindOther s) = s"

type_synonym assetKey = "AssetKind \<times> string"

record profileEntry =
  pe_profileIdx :: nat
  pe_profileID :: string
  pe_intent :: Intent
  pe_hostNeutral :: bool
  pe_hosts :: "string list"

record reducedProfile =
  rp_idx :: nat
  rp_profileID :: string
  rp_intent :: Intent

record ResolvedAsset =
  ra_Kind :: AssetKind
  ra_ID :: string
  ra_Active :: bool
  ra_Intent :: Intent
  ra_Reason :: message

record IntentConflict =
  cf_Kind :: AssetKind
  cf_AssetID :: string
  cf_Host :: string
  cf_CandidateIntents :: "Intent list"

record ResolvedState =
  rs_Host :: string
  rs_Assets :: "ResolvedAsset list"
  rs_Conflicts :: "IntentConflict list"

section \<open>Collecting candidates and the universe\<close>

definition profileEntry_appliesTo :: "profileEntry \<Rightarrow> string \<Rightarrow> bool" where
  "profileEntry_appliesTo e host = (if pe_hostNeutral e then True else host \<in> set (pe_hosts e))"

definition profileEntry_of :: "nat \<Rightarrow> string \<Rightarrow> AssetRef \<Rightarrow> profileEntry" where
  "profileEntry_of idx profileID ref =
     \<lparr>pe_profileIdx = idx, pe_profileID = profileID, pe_intent = ar_Intent ref,
      pe_hostNeutral = (ar_Hosts ref = []), pe_hosts = ar_Hosts ref\<rparr>"

definition add_refs :: "AssetKind \<Rightarrow> AssetRef list \<Rightarrow> nat \<Rightarrow> string \<Rightarrow> (assetKey \<times> profileEntry) list" where
  "add_refs kind refs idx profileID =
     map (\<lambda>ref. ((kind, ar_ID ref), profileEntry_of idx profileID ref)) refs"

definition collectProfileCandidates :: "Profile list \<Rightarrow> (assetKey \<times> profileEntry) list" where
  "collectProfileCandidates profiles =
     concat (map (\<lambda>(idx, p).
         add_refs KindSkill (pf_Skills p) idx (pf_ID p) @
         add_refs KindMCPServer (pf_MCPServers p) idx (pf_ID p) @
         add_refs KindInstruction (pf_Instructions p) idx (pf_ID p))
       (enumerate 0 profiles))"

definition candidates_at :: "(assetKey \<times> profileEntry) list \<Rightarrow> assetKey \<Rightarrow> profileEntry list" where
  "candidates_at candidates key = map snd (filter (\<lambda>c. fst c = key) candidates)"

definition addSelection :: "ActivationSelection \<Rightarrow> assetKey list" where
  "addSelection sel = map (Pair KindSkill) (as_Skills sel) @ map (Pair KindMCPServer) (as_MCPServers sel)"

definition assetKey_code :: "assetKey \<Rightarrow> string \<times> string" where
  "assetKey_code key = (AssetKind_code (fst key), snd key)"

definition collectUniverse :: "(assetKey \<times> profileEntry) list \<Rightarrow> Activation \<Rightarrow> string \<Rightarrow> assetKey list" where
  "collectUniverse candidates activation host =
     sort_key assetKey_code (remdups
       (map fst candidates
        @ addSelection (ac_Enable activation) @ addSelection (ac_Disable activation)
        @ (case map_of (ac_Hosts activation) host of
             Some h \<Rightarrow> addSelection (ha_Enable h) @ addSelection (ha_Disable h)
           | None \<Rightarrow> [])))"

section \<open>Deciding one asset\<close>

text \<open>\<^verbatim>\<open>reduceGroup\<close>: \<open>None\<close> is the internally ambiguous profile.\<close>

definition reduceGroup :: "profileEntry list \<Rightarrow> Intent option" where
  "reduceGroup entries =
     (let distinct_intents = remdups (map pe_intent entries);
          hasDenied = IntentDenied \<in> set distinct_intents;
          hasRequired = IntentRequired \<in> set distinct_intents
      in case distinct_intents of
           [i] \<Rightarrow> Some i
         | _ \<Rightarrow> if hasDenied \<and> hasRequired then None
                else if hasDenied then Some IntentDenied
                else if hasRequired then Some IntentRequired
                else None)"

definition sortedDistinctIntents :: "profileEntry list \<Rightarrow> Intent list" where
  "sortedDistinctIntents entries = sort_key Intent_code (dedup_on id (map pe_intent entries))"

fun reduceProfiles :: "(nat \<Rightarrow> profileEntry list) \<Rightarrow> nat list \<Rightarrow> profileEntry list + reducedProfile list" where
  "reduceProfiles byIdx [] = Inr []"
| "reduceProfiles byIdx (idx # order) =
     (case reduceGroup (byIdx idx) of
        None \<Rightarrow> Inl (byIdx idx)
      | Some intent \<Rightarrow>
          (case reduceProfiles byIdx order of
             Inl grp \<Rightarrow> Inl grp
           | Inr rest \<Rightarrow>
               Inr (\<lparr>rp_idx = idx,
                     rp_profileID = (case byIdx idx of e # _ \<Rightarrow> pe_profileID e | [] \<Rightarrow> ''''),
                     rp_intent = intent\<rparr> # rest)))"

fun findException :: "Exception list \<Rightarrow> string \<Rightarrow> string list \<Rightarrow> gotime \<Rightarrow> Exception option" where
  "findException [] assetID scopes now = None"
| "findException (ex # exceptions) assetID scopes now =
     (if scopes = [] then None
      else if \<not> Exception_Valid ex then findException exceptions assetID scopes now
      else if ex_AssetID ex \<noteq> assetID then findException exceptions assetID scopes now
      else if ex_Scope ex \<notin> set scopes then findException exceptions assetID scopes now
      else if \<not> now < ex_ExpiresAt ex then findException exceptions assetID scopes now
      else Some ex)"

definition inSelection :: "AssetKind \<Rightarrow> string \<Rightarrow> ActivationSelection \<Rightarrow> bool" where
  "inSelection kind aid sel =
     (case kind of
        KindSkill \<Rightarrow> aid \<in> set (as_Skills sel)
      | KindMCPServer \<Rightarrow> aid \<in> set (as_MCPServers sel)
      | _ \<Rightarrow> False)"

definition applyEnable ::
  "string \<Rightarrow> string \<Rightarrow> bool \<Rightarrow> Intent \<Rightarrow> message \<Rightarrow> string list \<Rightarrow> Exception list \<Rightarrow> gotime \<Rightarrow> bool \<times> message" where
  "applyEnable layerName aid active intent reason deniedIDs exceptions now =
     (if intent = IntentDenied then
        (case findException exceptions aid deniedIDs now of
           Some ex \<Rightarrow> (True, Msg ''%s enable overrides DENIED via exception scope %q (%s)''
                        [AStr layerName, AStr (ex_Scope ex), AStr (ex_Justification ex)])
         | None \<Rightarrow> (active, reason))
      else if \<not> active then (True, Msg (layerName @ '' enable'') [])
      else (active, reason))"

definition applyDisable ::
  "string \<Rightarrow> string \<Rightarrow> bool \<Rightarrow> Intent \<Rightarrow> message \<Rightarrow> string list \<Rightarrow> Exception list \<Rightarrow> gotime \<Rightarrow> bool \<times> message" where
  "applyDisable layerName aid active intent reason requiredIDs exceptions now =
     (if intent = IntentRequired then
        (case findException exceptions aid requiredIDs now of
           Some ex \<Rightarrow> (False, Msg ''%s disable overrides REQUIRED via exception scope %q (%s)''
                        [AStr layerName, AStr (ex_Scope ex), AStr (ex_Justification ex)])
         | None \<Rightarrow> (active, reason))
      else if active then (False, Msg (layerName @ '' disable'') [])
      else (active, reason))"

definition applyLayer ::
  "AssetKind \<Rightarrow> string \<Rightarrow> string \<Rightarrow> ActivationSelection \<Rightarrow> ActivationSelection \<Rightarrow> bool \<Rightarrow> Intent \<Rightarrow> message \<Rightarrow>
   string list \<Rightarrow> string list \<Rightarrow> Exception list \<Rightarrow> gotime \<Rightarrow> bool \<times> message" where
  "applyLayer kind aid layerName enableSel disableSel active intent reason deniedIDs requiredIDs exceptions now =
     (let (active1, reason1) =
            (if inSelection kind aid enableSel
             then applyEnable layerName aid active intent reason deniedIDs exceptions now else (active, reason))
      in if inSelection kind aid disableSel
         then applyDisable layerName aid active1 intent reason1 requiredIDs exceptions now
         else (active1, reason1))"

text \<open>
  The baseline switch of \<^verbatim>\<open>resolveOne\<close>: the intent and activity the profiles alone give, or \<open>None\<close> for
  the DENIED-against-REQUIRED conflict.
\<close>

definition baseline ::
  "string \<Rightarrow> reducedProfile list \<Rightarrow> string list \<Rightarrow> string list \<Rightarrow> Exception list \<Rightarrow> gotime \<Rightarrow>
   (Intent \<times> bool \<times> message) option" where
  "baseline aid reduced deniedIDs requiredIDs exceptions now =
     (let hasDenied = (\<exists>r \<in> set reduced. rp_intent r = IntentDenied);
          hasRequired = (\<exists>r \<in> set reduced. rp_intent r = IntentRequired)
      in if hasDenied \<and> hasRequired then
           (case findException exceptions aid deniedIDs now of
              Some ex \<Rightarrow> Some (IntentRequired, True, Msg ''REQUIRED wins: DENIED excepted by scope %q (%s)''
                            [AStr (ex_Scope ex), AStr (ex_Justification ex)])
            | None \<Rightarrow>
                (case findException exceptions aid requiredIDs now of
                   Some ex \<Rightarrow> Some (IntentDenied, False, Msg ''DENIED wins: REQUIRED excepted by scope %q (%s)''
                                 [AStr (ex_Scope ex), AStr (ex_Justification ex)])
                 | None \<Rightarrow> None))
         else if hasDenied then Some (IntentDenied, False, Msg ''DENIED by profile policy'' [])
         else if hasRequired then Some (IntentRequired, True, Msg ''REQUIRED by profile policy'' [])
         else if reduced \<noteq> [] then
           (let i = rp_intent (last reduced)
            in Some (i, i = IntentDefault, Msg ''%s by profile policy'' [AStr (Intent_code i)]))
         else Some (IntentOther '''', False, Msg ''no applicable profile entry'' []))"

definition applicable_entries :: "profileEntry list \<Rightarrow> string \<Rightarrow> profileEntry list" where
  "applicable_entries entries host = filter (\<lambda>e. profileEntry_appliesTo e host) entries"

definition profile_order :: "profileEntry list \<Rightarrow> nat list" where
  "profile_order applicable = sort (dedup_on id (map pe_profileIdx applicable))"

definition entries_of_profile :: "profileEntry list \<Rightarrow> nat \<Rightarrow> profileEntry list" where
  "entries_of_profile applicable idx = filter (\<lambda>e. pe_profileIdx e = idx) applicable"

definition profileIDs_with :: "Intent \<Rightarrow> reducedProfile list \<Rightarrow> string list" where
  "profileIDs_with i reduced = map rp_profileID (filter (\<lambda>r. rp_intent r = i) reduced)"

definition resolveOne ::
  "assetKey \<Rightarrow> profileEntry list \<Rightarrow> Activation \<Rightarrow> Exception list \<Rightarrow> string \<Rightarrow> gotime \<Rightarrow>
   IntentConflict + ResolvedAsset" where
  "resolveOne key entries activation exceptions host now =
     (let applicable = applicable_entries entries host
      in case reduceProfiles (entries_of_profile applicable) (profile_order applicable) of
           Inl grp \<Rightarrow> Inl \<lparr>cf_Kind = fst key, cf_AssetID = snd key, cf_Host = host,
                          cf_CandidateIntents = sortedDistinctIntents grp\<rparr>
         | Inr reduced \<Rightarrow>
             (let deniedIDs = profileIDs_with IntentDenied reduced;
                  requiredIDs = profileIDs_with IntentRequired reduced
              in case baseline (snd key) reduced deniedIDs requiredIDs exceptions now of
                   None \<Rightarrow> Inl \<lparr>cf_Kind = fst key, cf_AssetID = snd key, cf_Host = host,
                               cf_CandidateIntents = [IntentDenied, IntentRequired]\<rparr>
                 | Some (baseIntent, baseActive, reason) \<Rightarrow>
                     (let (active1, reason1) =
                            (if reduced \<noteq> []
                             then applyLayer (fst key) (snd key) ''host-neutral activation''
                                    (ac_Enable activation) (ac_Disable activation) baseActive baseIntent reason
                                    deniedIDs requiredIDs exceptions now
                             else (baseActive, reason));
                          (active2, reason2) =
                            (case map_of (ac_Hosts activation) host of
                               Some h \<Rightarrow> applyLayer (fst key) (snd key) ''host-scoped activation''
                                    (ha_Enable h) (ha_Disable h) active1 baseIntent reason1
                                    deniedIDs requiredIDs exceptions now
                             | None \<Rightarrow> (active1, reason1))
                      in Inr \<lparr>ra_Kind = fst key, ra_ID = snd key, ra_Active = active2,
                              ra_Intent = baseIntent, ra_Reason = reason2\<rparr>)))"

fun resolve_universe ::
  "(assetKey \<Rightarrow> IntentConflict + ResolvedAsset) \<Rightarrow> ResolvedState \<Rightarrow> assetKey list \<Rightarrow> ResolvedState" where
  "resolve_universe f state [] = state"
| "resolve_universe f state (key # keys) =
     (case f key of
        Inl conflict \<Rightarrow> resolve_universe f (state\<lparr>rs_Conflicts := rs_Conflicts state @ [conflict]\<rparr>) keys
      | Inr asset \<Rightarrow> resolve_universe f (state\<lparr>rs_Assets := rs_Assets state @ [asset]\<rparr>) keys)"

definition Resolve ::
  "Profile list \<Rightarrow> Activation \<Rightarrow> Exception list \<Rightarrow> string \<Rightarrow> gotime \<Rightarrow> err + ResolvedState" where
  "Resolve profiles activation exceptions host now =
     (case ValidateHostID host of
        Some e \<Rightarrow> Inl (Wrapf ''resolve: %w'' [] e)
      | None \<Rightarrow>
          (let candidates = collectProfileCandidates profiles;
               universe = collectUniverse candidates activation host
           in Inr (resolve_universe
                 (\<lambda>key. resolveOne key (candidates_at candidates key) activation exceptions host now)
                 \<lparr>rs_Host = host, rs_Assets = [], rs_Conflicts = []\<rparr> universe)))"

section \<open>Queries\<close>

definition ResolvedState_Find :: "ResolvedState \<Rightarrow> AssetKind \<Rightarrow> string \<Rightarrow> ResolvedAsset option" where
  "ResolvedState_Find rs kind aid = find (\<lambda>a. ra_Kind a = kind \<and> ra_ID a = aid) (rs_Assets rs)"

definition ResolvedState_IsActive :: "ResolvedState \<Rightarrow> AssetKind \<Rightarrow> string \<Rightarrow> bool" where
  "ResolvedState_IsActive rs kind aid =
     (case ResolvedState_Find rs kind aid of Some a \<Rightarrow> ra_Active a | None \<Rightarrow> False)"

definition ResolvedState_HasConflict :: "ResolvedState \<Rightarrow> AssetKind \<Rightarrow> string \<Rightarrow> bool" where
  "ResolvedState_HasConflict rs kind aid \<longleftrightarrow>
     (\<exists>c \<in> set (rs_Conflicts rs). cf_Kind c = kind \<and> cf_AssetID c = aid)"

section \<open>The lookup of exceptions meets its contract\<close>

interpretation resolve_ex: exception_lookup findException
proof
  show "findException exs aid scopes now = Some e \<Longrightarrow> e \<in> set exs \<and> exception_applies aid scopes now e"
    for exs aid scopes now e
    by (induction exs) (auto simp: exception_applies_def split: if_splits)
  show "findException exs aid scopes now = None \<Longrightarrow> e \<in> set exs \<Longrightarrow> \<not> exception_applies aid scopes now e"
    for exs aid scopes now e
    by (induction exs) (auto simp: exception_applies_def split: if_splits)
  show "\<not> exception_applies aid scopes now e \<Longrightarrow>
        findException (e # exs) aid scopes now = findException exs aid scopes now" for exs aid scopes now e
    by (cases exs) (auto simp: exception_applies_def)
  show "exception_applies aid scopes now e \<Longrightarrow> findException (e # exs) aid scopes now = Some e"
    for exs aid scopes now e
    by (auto simp: exception_applies_def)
qed

section \<open>Reducing the entries of one profile\<close>

lemma remdups_singleton_iff: "remdups xs = [i] \<longleftrightarrow> set xs = {i}"
proof
  assume "remdups xs = [i]" then show "set xs = {i}" by (metis empty_set list.simps(15) set_remdups)
next
  assume s: "set xs = {i}"
  then have "card (set xs) = 1" by simp
  then have "length (remdups xs) = 1" by (simp add: length_remdups_card_conv)
  then obtain j where "remdups xs = [j]" by (cases "remdups xs") auto
  with s show "remdups xs = [i]" by (metis empty_set list.simps(15) set_remdups singleton_insert_inj_eq)
qed

lemma reduceGroup_cases:
  "reduceGroup es = Some i \<longleftrightarrow>
     set (map pe_intent es) = {i} \<or>
     (i = IntentDenied \<and> IntentDenied \<in> set (map pe_intent es) \<and> IntentRequired \<notin> set (map pe_intent es)) \<or>
     (i = IntentRequired \<and> IntentRequired \<in> set (map pe_intent es) \<and> IntentDenied \<notin> set (map pe_intent es))"
proof (cases "\<exists>j. set (map pe_intent es) = {j}")
  case True
  then obtain j where j: "set (map pe_intent es) = {j}" by blast
  then have "remdups (map pe_intent es) = [j]" by (simp only: remdups_singleton_iff)
  with j show ?thesis by (auto simp: reduceGroup_def)
next
  case False
  then have n: "remdups (map pe_intent es) \<noteq> [j]" for j by (simp only: remdups_singleton_iff) blast
  have r: "reduceGroup es =
    (if IntentDenied \<in> pe_intent ` set es \<and> IntentRequired \<in> pe_intent ` set es then None
     else if IntentDenied \<in> pe_intent ` set es then Some IntentDenied
     else if IntentRequired \<in> pe_intent ` set es then Some IntentRequired else None)"
    using n by (auto simp: reduceGroup_def Let_def split: list.split)
  show ?thesis using False unfolding r by auto
qed

lemma reduceGroup_Denied:
  "reduceGroup es = Some i \<Longrightarrow> e \<in> set es \<Longrightarrow> pe_intent e = IntentDenied \<Longrightarrow> i = IntentDenied"
  unfolding reduceGroup_cases by (force simp: set_eq_iff)

lemma reduceGroup_Required:
  "reduceGroup es = Some i \<Longrightarrow> e \<in> set es \<Longrightarrow> pe_intent e = IntentRequired \<Longrightarrow> i = IntentRequired"
  unfolding reduceGroup_cases by (force simp: set_eq_iff)

lemma reduceGroup_in: "reduceGroup es = Some i \<Longrightarrow> \<exists>e \<in> set es. pe_intent e = i"
  unfolding reduceGroup_cases by (metis imageE insertI1 list.set_map)

lemma reduceGroup_uniform: "(\<And>e. e \<in> set es \<Longrightarrow> pe_intent e = i) \<Longrightarrow> es \<noteq> [] \<Longrightarrow> reduceGroup es = Some i"
proof -
  assume a: "\<And>e. e \<in> set es \<Longrightarrow> pe_intent e = i" "es \<noteq> []"
  then have "pe_intent ` set es = {i}" by (cases es) auto
  then show ?thesis by (simp add: reduceGroup_cases)
qed

lemma reduceGroup_None_iff:
  "reduceGroup es = None \<longleftrightarrow>
     (IntentDenied \<in> pe_intent ` set es \<and> IntentRequired \<in> pe_intent ` set es) \<or>
     (IntentDenied \<notin> pe_intent ` set es \<and> IntentRequired \<notin> pe_intent ` set es \<and>
      (\<forall>i. pe_intent ` set es \<noteq> {i}))"
proof -
  have ne: "A \<noteq> {i}" if "IntentDenied \<in> A" "IntentRequired \<in> A" for i A
    using that by (cases i) auto
  have "reduceGroup es = None \<longleftrightarrow> (\<forall>i. reduceGroup es \<noteq> Some i)" by simp
  also have "\<dots> \<longleftrightarrow> (\<forall>i. \<not> (A = {i} \<or> (i = IntentDenied \<and> IntentDenied \<in> A \<and> IntentRequired \<notin> A) \<or>
     (i = IntentRequired \<and> IntentRequired \<in> A \<and> IntentDenied \<notin> A)))" if "A = pe_intent ` set es" for A
    by (simp only: reduceGroup_cases list.set_map that)
  finally have "reduceGroup es = None \<longleftrightarrow> (\<forall>i. \<not> (A = {i} \<or> (i = IntentDenied \<and> IntentDenied \<in> A \<and> IntentRequired \<notin> A) \<or>
     (i = IntentRequired \<and> IntentRequired \<in> A \<and> IntentDenied \<notin> A)))" if "A = pe_intent ` set es" for A
    using that .
  moreover have "(\<forall>i. \<not> (A = {i} \<or> (i = IntentDenied \<and> IntentDenied \<in> A \<and> IntentRequired \<notin> A) \<or>
     (i = IntentRequired \<and> IntentRequired \<in> A \<and> IntentDenied \<notin> A))) \<longleftrightarrow>
     (IntentDenied \<in> A \<and> IntentRequired \<in> A) \<or>
     (IntentDenied \<notin> A \<and> IntentRequired \<notin> A \<and> (\<forall>i. A \<noteq> {i}))" for A
    using ne [of A] by ((cases "IntentDenied \<in> A"; cases "IntentRequired \<in> A"), simp_all) blast+
  ultimately show ?thesis by simp
qed

lemma reduceProfiles_Inr:
  assumes "reduceProfiles byIdx order = Inr reduced"
  shows "map rp_idx reduced = order"
    and "r \<in> set reduced \<Longrightarrow> reduceGroup (byIdx (rp_idx r)) = Some (rp_intent r)"
    and "r \<in> set reduced \<Longrightarrow>
         rp_profileID r = (case byIdx (rp_idx r) of e # _ \<Rightarrow> pe_profileID e | [] \<Rightarrow> '''')"
  using assms
  by (induction order arbitrary: reduced) (auto split: option.splits sum.splits)

lemma reduceProfiles_Inl:
  "reduceProfiles byIdx order = Inl grp \<Longrightarrow>
     \<exists>idx \<in> set order. grp = byIdx idx \<and> reduceGroup grp = None"
  by (induction order) (auto split: option.splits sum.splits)

lemma reduceProfiles_total:
  "(\<And>idx. idx \<in> set order \<Longrightarrow> reduceGroup (byIdx idx) \<noteq> None) \<Longrightarrow>
   \<exists>reduced. reduceProfiles byIdx order = Inr reduced"
  by (metis reduceProfiles_Inl sum.exhaust)

lemma set_profile_order [simp]: "set (profile_order es) = pe_profileIdx ` set es"
  using dedup_on_keys [of id "map pe_profileIdx es"] by (simp add: profile_order_def)

lemma sorted_profile_order [simp]: "sorted (profile_order es)"
  by (simp add: profile_order_def)

lemma set_entries_of_profile [simp]:
  "set (entries_of_profile es idx) = {e \<in> set es. pe_profileIdx e = idx}"
  by (simp add: entries_of_profile_def)

lemma set_applicable_entries [simp]:
  "set (applicable_entries es host) = {e \<in> set es. profileEntry_appliesTo e host}"
  by (simp add: applicable_entries_def)

lemma set_profileIDs_with [simp]:
  "set (profileIDs_with i rs) = {rp_profileID r | r. r \<in> set rs \<and> rp_intent r = i}"
  by (auto simp: profileIDs_with_def)

lemma reduced_covers:
  assumes "reduceProfiles (entries_of_profile es) (profile_order es) = Inr reduced" "e \<in> set es"
  obtains r where "r \<in> set reduced" "rp_idx r = pe_profileIdx e"
    "reduceGroup (entries_of_profile es (pe_profileIdx e)) = Some (rp_intent r)"
proof -
  have "pe_profileIdx e \<in> set (map rp_idx reduced)"
    using assms(2) by (simp add: reduceProfiles_Inr(1) [OF assms(1)])
  then obtain r where "r \<in> set reduced" "rp_idx r = pe_profileIdx e" by auto
  then show thesis using reduceProfiles_Inr(2) [OF assms(1)] that by metis
qed

lemma reduced_origin:
  assumes "reduceProfiles (entries_of_profile es) (profile_order es) = Inr reduced" "r \<in> set reduced"
  shows "\<exists>e \<in> set es. pe_profileIdx e = rp_idx r \<and> pe_intent e = rp_intent r"
  using reduceGroup_in [OF reduceProfiles_Inr(2) [OF assms]] by auto

section \<open>Activation layers\<close>

lemma applyLayer_denied:
  "findException exs aid deniedIDs now = None \<Longrightarrow>
   fst (applyLayer k aid n en dis False IntentDenied reason deniedIDs requiredIDs exs now) = False"
  by (simp add: applyLayer_def applyEnable_def applyDisable_def)

lemma applyLayer_required:
  "findException exs aid requiredIDs now = None \<Longrightarrow>
   fst (applyLayer k aid n en dis True IntentRequired reason deniedIDs requiredIDs exs now) = True"
  by (simp add: applyLayer_def applyEnable_def applyDisable_def)

lemma applyLayer_soft:
  "intent \<noteq> IntentDenied \<Longrightarrow> intent \<noteq> IntentRequired \<Longrightarrow>
   fst (applyLayer k aid n en dis active intent reason deniedIDs requiredIDs exs now) =
     (if inSelection k aid dis then False else if inSelection k aid en then True else active)"
  by (simp add: applyLayer_def applyEnable_def applyDisable_def split: option.splits)

lemma applyLayer_unselected:
  "\<not> inSelection k aid en \<Longrightarrow> \<not> inSelection k aid dis \<Longrightarrow>
   applyLayer k aid n en dis active intent reason deniedIDs requiredIDs exs now = (active, reason)"
  by (simp add: applyLayer_def)

lemma applyLayer_not_enabled:
  "\<not> inSelection k aid en \<Longrightarrow>
   fst (applyLayer k aid n en dis False intent reason deniedIDs requiredIDs exs now) = False"
  by (auto simp: applyLayer_def applyDisable_def split: option.splits)

section \<open>The whole run\<close>

lemma resolve_universe_eq:
  "resolve_universe f st keys =
     st\<lparr>rs_Assets := rs_Assets st @ concat (map (\<lambda>k. case f k of Inr a \<Rightarrow> [a] | Inl c \<Rightarrow> []) keys),
        rs_Conflicts := rs_Conflicts st @ concat (map (\<lambda>k. case f k of Inl c \<Rightarrow> [c] | Inr a \<Rightarrow> []) keys)\<rparr>"
  by (induction f st keys rule: resolve_universe.induct) (auto split: sum.splits)

text \<open>The decision \<open>Resolve\<close> makes for one key.\<close>

definition decide ::
  "Profile list \<Rightarrow> Activation \<Rightarrow> Exception list \<Rightarrow> string \<Rightarrow> gotime \<Rightarrow> assetKey \<Rightarrow> IntentConflict + ResolvedAsset" where
  "decide profiles activation exceptions host now key =
     resolveOne key (candidates_at (collectProfileCandidates profiles) key) activation exceptions host now"

definition universe_of :: "Profile list \<Rightarrow> Activation \<Rightarrow> string \<Rightarrow> assetKey list" where
  "universe_of profiles activation host = collectUniverse (collectProfileCandidates profiles) activation host"

lemma Resolve_Inr:
  "Resolve profiles activation exceptions host now = Inr st \<longleftrightarrow>
     ValidateHostID host = None \<and>
     st = \<lparr>rs_Host = host,
           rs_Assets = concat (map (\<lambda>k. case decide profiles activation exceptions host now k of Inr a \<Rightarrow> [a] | Inl c \<Rightarrow> [])
                                 (universe_of profiles activation host)),
           rs_Conflicts = concat (map (\<lambda>k. case decide profiles activation exceptions host now k of Inl c \<Rightarrow> [c] | Inr a \<Rightarrow> [])
                                 (universe_of profiles activation host))\<rparr>"
  by (auto simp: Resolve_def decide_def universe_of_def resolve_universe_eq Let_def split: option.splits)

lemma baseline_cases:
  "baseline aid reduced d r exs now = Some (i, active, reason) \<Longrightarrow>
     (IntentDenied \<in> rp_intent ` set reduced \<longrightarrow> findException exs aid d now = None \<longrightarrow>
        i = IntentDenied \<and> \<not> active) \<and>
     (IntentRequired \<in> rp_intent ` set reduced \<longrightarrow> findException exs aid r now = None \<longrightarrow>
        IntentDenied \<notin> rp_intent ` set reduced \<longrightarrow> i = IntentRequired \<and> active) \<and>
     (IntentRequired \<notin> rp_intent ` set reduced \<longrightarrow> IntentDenied \<notin> rp_intent ` set reduced \<longrightarrow>
        reduced \<noteq> [] \<longrightarrow> i = rp_intent (last reduced) \<and> active = (i = IntentDefault)) \<and>
     (reduced = [] \<longrightarrow> i = IntentOther [] \<and> \<not> active)"
  by (auto simp: baseline_def Let_def image_iff split: if_splits option.splits)

lemma resolveOne_key:
  "resolveOne key es act exs host now = Inr a \<Longrightarrow> (ra_Kind a, ra_ID a) = key"
  "resolveOne key es act exs host now = Inl c \<Longrightarrow> (cf_Kind c, cf_AssetID c) = key \<and> cf_Host c = host"
  by (cases key; auto simp: resolveOne_def Let_def split: sum.splits option.splits prod.splits)+

lemma decide_key:
  "decide ps act exs host now key = Inr a \<Longrightarrow> ra_Kind a = fst key \<and> ra_ID a = snd key"
  "decide ps act exs host now key = Inl c \<Longrightarrow> cf_Kind c = fst key \<and> cf_AssetID c = snd key \<and> cf_Host c = host"
  unfolding decide_def by (drule resolveOne_key, metis fst_conv snd_conv)+

lemma Resolve_assets:
  "Resolve ps act exs host now = Inr st \<Longrightarrow>
     a \<in> set (rs_Assets st) \<longleftrightarrow> (\<exists>k \<in> set (universe_of ps act host). decide ps act exs host now k = Inr a)"
  "Resolve ps act exs host now = Inr st \<Longrightarrow>
     c \<in> set (rs_Conflicts st) \<longleftrightarrow> (\<exists>k \<in> set (universe_of ps act host). decide ps act exs host now k = Inl c)"
  by (force simp: Resolve_Inr split: sum.splits)+

lemma IsActive_iff:
  assumes "Resolve ps act exs host now = Inr st"
  shows "ResolvedState_IsActive st kind aid \<longleftrightarrow>
     (kind, aid) \<in> set (universe_of ps act host) \<and>
     (\<exists>a. decide ps act exs host now (kind, aid) = Inr a \<and> ra_Active a)" (is "?L = ?R")
proof (cases "ResolvedState_Find st kind aid")
  case None
  then have no: "a \<in> set (rs_Assets st) \<Longrightarrow> ra_Kind a = kind \<Longrightarrow> ra_ID a \<noteq> aid" for a
    by (auto simp: ResolvedState_Find_def find_None_iff)
  then have "\<not> ?R" using Resolve_assets(1) [OF assms] decide_key(1) by fastforce
  with None show ?thesis by (simp add: ResolvedState_IsActive_def)
next
  case (Some a)
  then have a: "a \<in> set (rs_Assets st)" "ra_Kind a = kind" "ra_ID a = aid"
    by (auto simp: ResolvedState_Find_def find_Some_iff)
  then obtain k where k: "k \<in> set (universe_of ps act host)" "decide ps act exs host now k = Inr a"
    using Resolve_assets(1) [OF assms] by blast
  with decide_key(1) [OF k(2)] a have "k = (kind, aid)" by (simp add: prod_eq_iff)
  with k Some show ?thesis by (simp add: ResolvedState_IsActive_def)
qed

lemma HasConflict_iff:
  assumes "Resolve ps act exs host now = Inr st"
  shows "ResolvedState_HasConflict st kind aid \<longleftrightarrow>
     (kind, aid) \<in> set (universe_of ps act host) \<and> (\<exists>c. decide ps act exs host now (kind, aid) = Inl c)"
  unfolding ResolvedState_HasConflict_def
  using Resolve_assets(2) [OF assms] decide_key(2) by (metis fst_conv snd_conv prod.collapse)

lemma universe_sorted: "sorted (map assetKey_code (universe_of ps act host))"
  by (simp add: universe_of_def collectUniverse_def)

lemma universe_distinct: "distinct (universe_of ps act host)"
  by (simp add: universe_of_def collectUniverse_def)

section \<open>What a profile says of an asset\<close>

text \<open>
  The specification reads the profiles directly: the asset references of one group, and whether one
  of them gives the intent at the host.
\<close>

fun refs_of :: "AssetKind \<Rightarrow> Profile \<Rightarrow> AssetRef list" where
  "refs_of KindSkill p = pf_Skills p"
| "refs_of KindMCPServer p = pf_MCPServers p"
| "refs_of KindInstruction p = pf_Instructions p"
| "refs_of (KindOther s) p = []"

definition says :: "Profile \<Rightarrow> AssetKind \<Rightarrow> string \<Rightarrow> string \<Rightarrow> Intent \<Rightarrow> bool" where
  "says p kind aid host i \<longleftrightarrow>
     (\<exists>ref \<in> set (refs_of kind p). ar_ID ref = aid \<and> ar_Intent ref = i \<and> (ar_Hosts ref = [] \<or> host \<in> set (ar_Hosts ref)))"

definition mentions :: "Profile \<Rightarrow> AssetKind \<Rightarrow> string \<Rightarrow> string \<Rightarrow> bool" where
  "mentions p kind aid host \<longleftrightarrow> (\<exists>i. says p kind aid host i)"

definition applicable_of :: "Profile list \<Rightarrow> AssetKind \<Rightarrow> string \<Rightarrow> string \<Rightarrow> profileEntry list" where
  "applicable_of ps kind aid host = applicable_entries (candidates_at (collectProfileCandidates ps) (kind, aid)) host"

lemma profileEntry_of_simps [simp]:
  "pe_profileIdx (profileEntry_of idx pid ref) = idx"
  "pe_profileID (profileEntry_of idx pid ref) = pid"
  "pe_intent (profileEntry_of idx pid ref) = ar_Intent ref"
  by (simp_all add: profileEntry_of_def)

lemma profileEntry_appliesTo_of:
  "profileEntry_appliesTo (profileEntry_of idx pid ref) host \<longleftrightarrow> ar_Hosts ref = [] \<or> host \<in> set (ar_Hosts ref)"
  by (simp add: profileEntry_of_def profileEntry_appliesTo_def)

lemma collectProfileCandidates_iff:
  "((kind, aid), e) \<in> set (collectProfileCandidates ps) \<longleftrightarrow>
     (\<exists>idx ref. idx < length ps \<and> ref \<in> set (refs_of kind (ps ! idx)) \<and> ar_ID ref = aid \<and>
        e = profileEntry_of idx (pf_ID (ps ! idx)) ref)"
  by (cases kind)
    ((auto simp: collectProfileCandidates_def add_refs_def in_set_enumerate_eq
        intro!: bexI [where x = "(idx, ps ! idx)" for idx]), blast+)

lemma applicable_of_iff:
  "e \<in> set (applicable_of ps kind aid host) \<longleftrightarrow>
     (\<exists>idx ref. idx < length ps \<and> ref \<in> set (refs_of kind (ps ! idx)) \<and> ar_ID ref = aid \<and>
        (ar_Hosts ref = [] \<or> host \<in> set (ar_Hosts ref)) \<and>
        e = profileEntry_of idx (pf_ID (ps ! idx)) ref)"
proof -
  have "e \<in> set (applicable_of ps kind aid host) \<longleftrightarrow>
      ((kind, aid), e) \<in> set (collectProfileCandidates ps) \<and> profileEntry_appliesTo e host"
    by (force simp: applicable_of_def candidates_at_def)
  also have "\<dots> \<longleftrightarrow> (\<exists>idx ref. idx < length ps \<and> ref \<in> set (refs_of kind (ps ! idx)) \<and> ar_ID ref = aid \<and>
        (ar_Hosts ref = [] \<or> host \<in> set (ar_Hosts ref)) \<and> e = profileEntry_of idx (pf_ID (ps ! idx)) ref)"
    unfolding collectProfileCandidates_iff by (metis profileEntry_appliesTo_of)
  finally show ?thesis .
qed

lemma applicable_of_says:
  "(\<exists>e \<in> set (applicable_of ps kind aid host). pe_intent e = i \<and> pe_profileIdx e = idx) \<longleftrightarrow>
     idx < length ps \<and> says (ps ! idx) kind aid host i"
proof
  assume "\<exists>e \<in> set (applicable_of ps kind aid host). pe_intent e = i \<and> pe_profileIdx e = idx"
  then obtain e where "e \<in> set (applicable_of ps kind aid host)" "pe_intent e = i" "pe_profileIdx e = idx" by blast
  then show "idx < length ps \<and> says (ps ! idx) kind aid host i"
    unfolding applicable_of_iff says_def by fastforce
next
  assume "idx < length ps \<and> says (ps ! idx) kind aid host i"
  then obtain ref where "idx < length ps" "ref \<in> set (refs_of kind (ps ! idx))" "ar_ID ref = aid"
      "ar_Intent ref = i" "ar_Hosts ref = [] \<or> host \<in> set (ar_Hosts ref)"
    unfolding says_def by blast
  then have "profileEntry_of idx (pf_ID (ps ! idx)) ref \<in> set (applicable_of ps kind aid host)"
    unfolding applicable_of_iff by blast
  with \<open>ar_Intent ref = i\<close>
  show "\<exists>e \<in> set (applicable_of ps kind aid host). pe_intent e = i \<and> pe_profileIdx e = idx"
    by (metis profileEntry_of_simps(1,3))
qed

lemma applicable_of_profileID:
  "e \<in> set (applicable_of ps kind aid host) \<Longrightarrow> pe_profileID e = pf_ID (ps ! pe_profileIdx e)"
  by (auto simp: applicable_of_iff)

lemma mentioned_in_universe:
  assumes "p \<in> set ps" "mentions p kind aid host"
  shows "(kind, aid) \<in> set (universe_of ps act host')"
proof -
  from assms obtain idx where "idx < length ps" "ps ! idx = p" by (metis in_set_conv_nth)
  with assms obtain e where "((kind, aid), e) \<in> set (collectProfileCandidates ps)"
    unfolding mentions_def says_def collectProfileCandidates_iff by blast
  then have "(kind, aid) \<in> fst ` set (collectProfileCandidates ps)" by force
  then show ?thesis by (simp add: universe_of_def collectUniverse_def)
qed

text \<open>The reduced profiles of an asset, read off the input profiles.\<close>

lemma reduced_of:
  assumes "reduceProfiles (entries_of_profile (applicable_of ps kind aid host))
             (profile_order (applicable_of ps kind aid host)) = Inr reduced"
  shows reduced_of_idx: "map rp_idx reduced = profile_order (applicable_of ps kind aid host)"
    and reduced_of_says: "r \<in> set reduced \<Longrightarrow> rp_idx r < length ps \<and> says (ps ! rp_idx r) kind aid host (rp_intent r)"
    and reduced_of_ID: "r \<in> set reduced \<Longrightarrow> rp_profileID r = pf_ID (ps ! rp_idx r)"
    and reduced_of_Denied: "idx < length ps \<Longrightarrow> says (ps ! idx) kind aid host IntentDenied \<Longrightarrow>
           \<exists>r \<in> set reduced. rp_idx r = idx \<and> rp_intent r = IntentDenied"
    and reduced_of_Required: "idx < length ps \<Longrightarrow> says (ps ! idx) kind aid host IntentRequired \<Longrightarrow>
           \<exists>r \<in> set reduced. rp_idx r = idx \<and> rp_intent r = IntentRequired"
proof -
  let ?es = "applicable_of ps kind aid host"
  show "map rp_idx reduced = profile_order ?es" using reduceProfiles_Inr(1) [OF assms] .
  show s: "rp_idx r < length ps \<and> says (ps ! rp_idx r) kind aid host (rp_intent r)" if "r \<in> set reduced" for r
    using reduced_origin [OF assms that] applicable_of_says by metis
  show "rp_profileID r = pf_ID (ps ! rp_idx r)" if r: "r \<in> set reduced" for r
  proof -
    from s [OF r] have "\<exists>e \<in> set ?es. pe_profileIdx e = rp_idx r" using applicable_of_says by metis
    then have "entries_of_profile ?es (rp_idx r) \<noteq> []" by (force simp: entries_of_profile_def filter_empty_conv)
    then obtain e xs where e: "entries_of_profile ?es (rp_idx r) = e # xs" by (cases "entries_of_profile ?es (rp_idx r)") auto
    then have "e \<in> set (entries_of_profile ?es (rp_idx r))" by simp
    then have "e \<in> set ?es" "pe_profileIdx e = rp_idx r" by simp_all
    with reduceProfiles_Inr(3) [OF assms r] e applicable_of_profileID show ?thesis by fastforce
  qed
  have red: "\<exists>r \<in> set reduced. rp_idx r = idx \<and> rp_intent r = i"
    if "idx < length ps" "says (ps ! idx) kind aid host i"
      and "\<And>es j e. reduceGroup es = Some j \<Longrightarrow> e \<in> set es \<Longrightarrow> pe_intent e = i \<Longrightarrow> j = i" for idx i
  proof -
    from that(1,2) obtain e where e: "e \<in> set ?es" "pe_intent e = i" "pe_profileIdx e = idx"
      using applicable_of_says by metis
    from reduced_covers [OF assms e(1)] obtain r where r: "r \<in> set reduced" "rp_idx r = idx"
      "reduceGroup (entries_of_profile ?es idx) = Some (rp_intent r)" using e(3) by metis
    moreover have "e \<in> set (entries_of_profile ?es idx)" using e by simp
    ultimately show ?thesis using that(3) e(2) by blast
  qed
  show "idx < length ps \<Longrightarrow> says (ps ! idx) kind aid host IntentDenied \<Longrightarrow>
     \<exists>r \<in> set reduced. rp_idx r = idx \<and> rp_intent r = IntentDenied" for idx
    by (rule red) (auto dest: reduceGroup_Denied)
  show "idx < length ps \<Longrightarrow> says (ps ! idx) kind aid host IntentRequired \<Longrightarrow>
     \<exists>r \<in> set reduced. rp_idx r = idx \<and> rp_intent r = IntentRequired" for idx
    by (rule red) (auto dest: reduceGroup_Required)
qed

text \<open>The two ways a decision for an asset is made, over the entries that apply to it.\<close>

definition layers ::
  "assetKey \<Rightarrow> Activation \<Rightarrow> string \<Rightarrow> bool \<Rightarrow> bool \<Rightarrow> Intent \<Rightarrow> message \<Rightarrow> string list \<Rightarrow> string list \<Rightarrow>
   Exception list \<Rightarrow> gotime \<Rightarrow> bool \<times> message" where
  "layers key act host present active intent reason d r exs now =
     (let (active1, reason1) =
            (if present
             then applyLayer (fst key) (snd key) ''host-neutral activation'' (ac_Enable act) (ac_Disable act)
                    active intent reason d r exs now
             else (active, reason))
      in (case map_of (ac_Hosts act) host of
            Some h \<Rightarrow> applyLayer (fst key) (snd key) ''host-scoped activation'' (ha_Enable h) (ha_Disable h)
                        active1 intent reason1 d r exs now
          | None \<Rightarrow> (active1, reason1)))"

lemma decide_Inr:
  assumes "decide ps act exs host now (kind, aid) = Inr a"
  obtains reduced active reason where
    "reduceProfiles (entries_of_profile (applicable_of ps kind aid host))
       (profile_order (applicable_of ps kind aid host)) = Inr reduced"
    "baseline aid reduced (profileIDs_with IntentDenied reduced) (profileIDs_with IntentRequired reduced) exs now =
       Some (ra_Intent a, active, reason)"
    "layers (kind, aid) act host (reduced \<noteq> []) active (ra_Intent a) reason
       (profileIDs_with IntentDenied reduced) (profileIDs_with IntentRequired reduced) exs now = (ra_Active a, ra_Reason a)"
  using assms
  by (auto simp: decide_def resolveOne_def Let_def layers_def applicable_of_def
      split: sum.splits option.splits prod.splits if_splits)

lemma decide_Inl:
  "decide ps act exs host now (kind, aid) = Inl c \<longleftrightarrow>
     (case reduceProfiles (entries_of_profile (applicable_of ps kind aid host))
             (profile_order (applicable_of ps kind aid host)) of
        Inl grp \<Rightarrow> c = \<lparr>cf_Kind = kind, cf_AssetID = aid, cf_Host = host, cf_CandidateIntents = sortedDistinctIntents grp\<rparr>
      | Inr reduced \<Rightarrow>
          baseline aid reduced (profileIDs_with IntentDenied reduced) (profileIDs_with IntentRequired reduced) exs now = None \<and>
          c = \<lparr>cf_Kind = kind, cf_AssetID = aid, cf_Host = host, cf_CandidateIntents = [IntentDenied, IntentRequired]\<rparr>)"
  by (auto simp: decide_def resolveOne_def Let_def applicable_of_def split: sum.splits option.splits prod.splits)

lemma layers_denied:
  "findException exs aid d now = None \<Longrightarrow>
   fst (layers (kind, aid) act host present False IntentDenied reason d r exs now) = False"
  unfolding layers_def
  by (auto simp: Let_def split: option.splits prod.splits) (metis applyLayer_denied fst_conv)+

lemma layers_required:
  "findException exs aid r now = None \<Longrightarrow>
   fst (layers (kind, aid) act host present True IntentRequired reason d r exs now) = True"
  unfolding layers_def
  by (auto simp: Let_def split: option.splits prod.splits) (metis applyLayer_required fst_conv)+

text \<open>One profile gives contradictory intents for the asset at the host.\<close>

definition ambiguous :: "Profile \<Rightarrow> AssetKind \<Rightarrow> string \<Rightarrow> string \<Rightarrow> bool" where
  "ambiguous p kind aid host \<longleftrightarrow>
     (says p kind aid host IntentDenied \<and> says p kind aid host IntentRequired) \<or>
     (\<not> says p kind aid host IntentDenied \<and> \<not> says p kind aid host IntentRequired \<and>
      (\<exists>i j. i \<noteq> j \<and> says p kind aid host i \<and> says p kind aid host j))"

text \<open>A live exception to one of the profiles that give the asset the intent.\<close>

definition excepted :: "Profile list \<Rightarrow> Exception list \<Rightarrow> gotime \<Rightarrow> AssetKind \<Rightarrow> string \<Rightarrow> string \<Rightarrow> Intent \<Rightarrow> bool" where
  "excepted ps exs now kind aid host i \<longleftrightarrow>
     (\<exists>e \<in> set exs. Exception_Valid e \<and> ex_AssetID e = aid \<and> now < ex_ExpiresAt e \<and>
        (\<exists>q \<in> set ps. pf_ID q = ex_Scope e \<and> says q kind aid host i))"

lemma intents_of_profile:
  assumes "idx < length ps"
  shows "pe_intent ` set (entries_of_profile (applicable_of ps kind aid host) idx) = {i. says (ps ! idx) kind aid host i}"
proof (rule set_eqI)
  fix i
  have "i \<in> pe_intent ` set (entries_of_profile (applicable_of ps kind aid host) idx) \<longleftrightarrow>
      (\<exists>e \<in> set (applicable_of ps kind aid host). pe_intent e = i \<and> pe_profileIdx e = idx)"
    by (auto simp: image_iff)
  then show "i \<in> pe_intent ` set (entries_of_profile (applicable_of ps kind aid host) idx) \<longleftrightarrow>
      i \<in> {i. says (ps ! idx) kind aid host i}"
    using assms by (simp add: applicable_of_says)
qed

lemma reduceGroup_ambiguous:
  assumes "idx < length ps" "mentions (ps ! idx) kind aid host"
  shows "reduceGroup (entries_of_profile (applicable_of ps kind aid host) idx) = None \<longleftrightarrow> ambiguous (ps ! idx) kind aid host"
proof -
  have "(\<forall>i. {i. says (ps ! idx) kind aid host i} \<noteq> {i}) \<longleftrightarrow>
      (\<exists>i j. i \<noteq> j \<and> says (ps ! idx) kind aid host i \<and> says (ps ! idx) kind aid host j)"
  proof
    assume n: "\<forall>i. {i. says (ps ! idx) kind aid host i} \<noteq> {i}"
    from assms(2) obtain i where i: "says (ps ! idx) kind aid host i" by (auto simp: mentions_def)
    with n have "\<exists>j. j \<noteq> i \<and> says (ps ! idx) kind aid host j" by blast
    with i show "\<exists>i j. i \<noteq> j \<and> says (ps ! idx) kind aid host i \<and> says (ps ! idx) kind aid host j" by blast
  next
    assume "\<exists>i j. i \<noteq> j \<and> says (ps ! idx) kind aid host i \<and> says (ps ! idx) kind aid host j"
    then show "\<forall>i. {i. says (ps ! idx) kind aid host i} \<noteq> {i}" by (metis mem_Collect_eq singletonD)
  qed
  then show ?thesis
    unfolding reduceGroup_None_iff ambiguous_def intents_of_profile [OF assms(1)] by simp
qed

lemma order_mentions:
  "idx \<in> set (profile_order (applicable_of ps kind aid host)) \<longleftrightarrow> idx < length ps \<and> mentions (ps ! idx) kind aid host"
proof -
  have "idx \<in> set (profile_order (applicable_of ps kind aid host)) \<longleftrightarrow>
      (\<exists>i. \<exists>e \<in> set (applicable_of ps kind aid host). pe_intent e = i \<and> pe_profileIdx e = idx)"
    by (auto simp: image_iff)
  then show ?thesis by (simp add: applicable_of_says mentions_def)
qed

lemma reduceProfiles_Inr_iff:
  "(\<exists>reduced. reduceProfiles (entries_of_profile (applicable_of ps kind aid host))
      (profile_order (applicable_of ps kind aid host)) = Inr reduced) \<longleftrightarrow> (\<forall>p \<in> set ps. \<not> ambiguous p kind aid host)"
  (is "?L \<longleftrightarrow> ?R")
proof
  assume ?L
  then obtain reduced where red: "reduceProfiles (entries_of_profile (applicable_of ps kind aid host))
      (profile_order (applicable_of ps kind aid host)) = Inr reduced" ..
  show ?R
  proof
    fix p assume "p \<in> set ps"
    then obtain idx where idx: "idx < length ps" "ps ! idx = p" by (metis in_set_conv_nth)
    show "\<not> ambiguous p kind aid host"
    proof
      assume amb: "ambiguous p kind aid host"
      then have m: "mentions (ps ! idx) kind aid host" by (auto simp: ambiguous_def mentions_def idx)
      then have "idx \<in> set (map rp_idx reduced)"
        using idx order_mentions reduced_of_idx [OF red] by metis
      then obtain r where "r \<in> set reduced" "rp_idx r = idx" by auto
      with reduceProfiles_Inr(2) [OF red this(1)] reduceGroup_ambiguous [OF idx(1) m] amb idx show False by simp
    qed
  qed
next
  assume ?R
  show ?L
    by (rule reduceProfiles_total) (metis \<open>?R\<close> nth_mem order_mentions reduceGroup_ambiguous)
qed

lemma reduced_says:
  assumes "reduceProfiles (entries_of_profile (applicable_of ps kind aid host))
             (profile_order (applicable_of ps kind aid host)) = Inr reduced"
  shows reduced_says_Denied: "IntentDenied \<in> rp_intent ` set reduced \<longleftrightarrow> (\<exists>p \<in> set ps. says p kind aid host IntentDenied)"
    and reduced_says_Required: "IntentRequired \<in> rp_intent ` set reduced \<longleftrightarrow> (\<exists>p \<in> set ps. says p kind aid host IntentRequired)"
    and reduced_Nil_iff: "reduced = [] \<longleftrightarrow> (\<forall>p \<in> set ps. \<not> mentions p kind aid host)"
proof -
  have sound: "\<exists>p \<in> set ps. says p kind aid host i" if i: "i \<in> rp_intent ` set reduced" for i
  proof -
    from i obtain r where "r \<in> set reduced" "i = rp_intent r" by blast
    with reduced_of_says [OF assms this(1)] show ?thesis by (metis nth_mem)
  qed
  have "IntentDenied \<in> rp_intent ` set reduced" if d: "p \<in> set ps" "says p kind aid host IntentDenied" for p
  proof -
    from d(1) obtain idx where "idx < length ps" "ps ! idx = p" by (metis in_set_conv_nth)
    with d(2) show ?thesis using reduced_of_Denied [OF assms] by force
  qed
  with sound show "IntentDenied \<in> rp_intent ` set reduced \<longleftrightarrow> (\<exists>p \<in> set ps. says p kind aid host IntentDenied)"
    by blast
  have "IntentRequired \<in> rp_intent ` set reduced" if d: "p \<in> set ps" "says p kind aid host IntentRequired" for p
  proof -
    from d(1) obtain idx where "idx < length ps" "ps ! idx = p" by (metis in_set_conv_nth)
    with d(2) show ?thesis using reduced_of_Required [OF assms] by force
  qed
  with sound show "IntentRequired \<in> rp_intent ` set reduced \<longleftrightarrow> (\<exists>p \<in> set ps. says p kind aid host IntentRequired)"
    by blast
  have "reduced = [] \<longleftrightarrow> set (profile_order (applicable_of ps kind aid host)) = {}"
    by (simp add: reduced_of_idx [OF assms, symmetric] del: set_profile_order)
  also have "\<dots> \<longleftrightarrow> (\<forall>idx. \<not> (idx < length ps \<and> mentions (ps ! idx) kind aid host))"
    by (simp only: order_mentions [symmetric] all_not_in_conv)
  finally show "reduced = [] \<longleftrightarrow> (\<forall>p \<in> set ps. \<not> mentions p kind aid host)"
    unfolding all_set_conv_all_nth by blast
qed

lemma exception_of_reduced:
  assumes "reduceProfiles (entries_of_profile (applicable_of ps kind aid host))
             (profile_order (applicable_of ps kind aid host)) = Inr reduced"
    and "i = IntentDenied \<or> i = IntentRequired"
  shows "findException exs aid (profileIDs_with i reduced) now = None \<longleftrightarrow> \<not> excepted ps exs now kind aid host i"
proof -
  have "pid \<in> set (profileIDs_with i reduced) \<longleftrightarrow> (\<exists>q \<in> set ps. pf_ID q = pid \<and> says q kind aid host i)" for pid
  proof
    assume "pid \<in> set (profileIDs_with i reduced)"
    then obtain r where "r \<in> set reduced" "rp_intent r = i" "rp_profileID r = pid" by auto
    with reduced_of_says [OF assms(1)] reduced_of_ID [OF assms(1)]
    show "\<exists>q \<in> set ps. pf_ID q = pid \<and> says q kind aid host i" by (metis nth_mem)
  next
    assume "\<exists>q \<in> set ps. pf_ID q = pid \<and> says q kind aid host i"
    then obtain idx where idx: "idx < length ps" "pf_ID (ps ! idx) = pid" "says (ps ! idx) kind aid host i"
      by (metis in_set_conv_nth)
    then obtain r where "r \<in> set reduced" "rp_idx r = idx" "rp_intent r = i"
      using reduced_of_Denied [OF assms(1)] reduced_of_Required [OF assms(1)] assms(2) by metis
    moreover from this(1,2) idx(2) have "rp_profileID r = pid" using reduced_of_ID [OF assms(1)] by metis
    ultimately show "pid \<in> set (profileIDs_with i reduced)" by force
  qed
  then show ?thesis
    unfolding resolve_ex.lookup_None_iff exception_applies_def excepted_def by blast
qed

lemma baseline_None_iff:
  "baseline aid reduced d r exs now = None \<longleftrightarrow>
     IntentDenied \<in> rp_intent ` set reduced \<and> IntentRequired \<in> rp_intent ` set reduced \<and>
     findException exs aid d now = None \<and> findException exs aid r now = None"
  by ((auto simp: baseline_def Let_def image_iff split: option.splits), metis+)

lemma decide_Inl_iff:
  "(\<exists>c. decide ps act exs host now (kind, aid) = Inl c) \<longleftrightarrow>
     (\<exists>p \<in> set ps. ambiguous p kind aid host) \<or>
     ((\<exists>p \<in> set ps. says p kind aid host IntentDenied) \<and> (\<exists>p \<in> set ps. says p kind aid host IntentRequired) \<and>
      \<not> excepted ps exs now kind aid host IntentDenied \<and> \<not> excepted ps exs now kind aid host IntentRequired)"
proof (cases "\<forall>p \<in> set ps. \<not> ambiguous p kind aid host")
  case True
  then obtain reduced where red: "reduceProfiles (entries_of_profile (applicable_of ps kind aid host))
      (profile_order (applicable_of ps kind aid host)) = Inr reduced"
    using reduceProfiles_Inr_iff by metis
  have "(\<exists>c. decide ps act exs host now (kind, aid) = Inl c) \<longleftrightarrow>
      baseline aid reduced (profileIDs_with IntentDenied reduced) (profileIDs_with IntentRequired reduced) exs now = None"
    by (simp add: decide_Inl red)
  also have "\<dots> \<longleftrightarrow>
      (\<exists>p \<in> set ps. says p kind aid host IntentDenied) \<and> (\<exists>p \<in> set ps. says p kind aid host IntentRequired) \<and>
      \<not> excepted ps exs now kind aid host IntentDenied \<and> \<not> excepted ps exs now kind aid host IntentRequired"
    by (simp only: baseline_None_iff reduced_says_Denied [OF red] reduced_says_Required [OF red]
        exception_of_reduced [OF red] simp_thms)
  finally show ?thesis using True by blast
next
  case False
  then have "\<nexists>reduced. reduceProfiles (entries_of_profile (applicable_of ps kind aid host))
      (profile_order (applicable_of ps kind aid host)) = Inr reduced"
    using reduceProfiles_Inr_iff by metis
  then obtain grp where "reduceProfiles (entries_of_profile (applicable_of ps kind aid host))
      (profile_order (applicable_of ps kind aid host)) = Inl grp" by (metis sum.exhaust)
  then have "\<exists>c. decide ps act exs host now (kind, aid) = Inl c" by (simp add: decide_Inl)
  with False show ?thesis by blast
qed

lemma decide_denied:
  assumes "decide ps act exs host now (kind, aid) = Inr a" "p \<in> set ps" "says p kind aid host IntentDenied"
    and "\<not> excepted ps exs now kind aid host IntentDenied"
  shows "ra_Intent a = IntentDenied \<and> \<not> ra_Active a"
proof -
  from assms(1) obtain reduced active reason where d:
    "reduceProfiles (entries_of_profile (applicable_of ps kind aid host))
       (profile_order (applicable_of ps kind aid host)) = Inr reduced"
    "baseline aid reduced (profileIDs_with IntentDenied reduced) (profileIDs_with IntentRequired reduced) exs now =
       Some (ra_Intent a, active, reason)"
    "layers (kind, aid) act host (reduced \<noteq> []) active (ra_Intent a) reason
       (profileIDs_with IntentDenied reduced) (profileIDs_with IntentRequired reduced) exs now = (ra_Active a, ra_Reason a)"
    by (rule decide_Inr)
  have ex: "findException exs aid (profileIDs_with IntentDenied reduced) now = None"
    using exception_of_reduced [OF d(1)] assms(4) by blast
  have "IntentDenied \<in> rp_intent ` set reduced" using reduced_says_Denied [OF d(1)] assms(2,3) by blast
  with baseline_cases [OF d(2)] ex have i: "ra_Intent a = IntentDenied" "\<not> active" by auto
  with d(3) layers_denied [OF ex] have "\<not> ra_Active a" by (metis fst_conv)
  with i show ?thesis by simp
qed

lemma decide_required:
  assumes "decide ps act exs host now (kind, aid) = Inr a" "p \<in> set ps" "says p kind aid host IntentRequired"
    and "\<And>q. q \<in> set ps \<Longrightarrow> \<not> says q kind aid host IntentDenied"
    and "\<not> excepted ps exs now kind aid host IntentRequired"
  shows "ra_Intent a = IntentRequired \<and> ra_Active a"
proof -
  from assms(1) obtain reduced active reason where d:
    "reduceProfiles (entries_of_profile (applicable_of ps kind aid host))
       (profile_order (applicable_of ps kind aid host)) = Inr reduced"
    "baseline aid reduced (profileIDs_with IntentDenied reduced) (profileIDs_with IntentRequired reduced) exs now =
       Some (ra_Intent a, active, reason)"
    "layers (kind, aid) act host (reduced \<noteq> []) active (ra_Intent a) reason
       (profileIDs_with IntentDenied reduced) (profileIDs_with IntentRequired reduced) exs now = (ra_Active a, ra_Reason a)"
    by (rule decide_Inr)
  have ex: "findException exs aid (profileIDs_with IntentRequired reduced) now = None"
    using exception_of_reduced [OF d(1)] assms(5) by blast
  have "IntentRequired \<in> rp_intent ` set reduced" "IntentDenied \<notin> rp_intent ` set reduced"
    using reduced_says_Required [OF d(1)] reduced_says_Denied [OF d(1)] assms(2,3,4) by blast+
  with baseline_cases [OF d(2)] ex have i: "ra_Intent a = IntentRequired" "active" by auto
  with d(3) layers_required [OF ex] have "ra_Active a" by (metis fst_conv)
  with i show ?thesis by simp
qed

lemma layers_soft:
  "intent \<noteq> IntentDenied \<Longrightarrow> intent \<noteq> IntentRequired \<Longrightarrow>
   fst (layers (kind, aid) act host True active intent reason d r exs now) =
     (let neutral = (if inSelection kind aid (ac_Disable act) then False
                     else if inSelection kind aid (ac_Enable act) then True else active)
      in case map_of (ac_Hosts act) host of
           Some h \<Rightarrow> if inSelection kind aid (ha_Disable h) then False
                     else if inSelection kind aid (ha_Enable h) then True else neutral
         | None \<Rightarrow> neutral)"
  unfolding layers_def by (simp add: applyLayer_soft Let_def case_prod_beta split: option.split)

lemma last_reduced:
  assumes red: "reduceProfiles (entries_of_profile (applicable_of ps kind aid host))
                  (profile_order (applicable_of ps kind aid host)) = Inr reduced"
    and idx: "idx < length ps" "says (ps ! idx) kind aid host i"
    and last: "\<And>j. idx < j \<Longrightarrow> j < length ps \<Longrightarrow> \<not> mentions (ps ! j) kind aid host"
    and hard: "\<And>q. q \<in> set ps \<Longrightarrow> \<not> says q kind aid host IntentDenied \<and> \<not> says q kind aid host IntentRequired"
  shows "reduced \<noteq> [] \<and> rp_intent (last reduced) = i"
proof -
  have ne: "reduced \<noteq> []" using reduced_Nil_iff [OF red] idx by (metis mentions_def nth_mem)
  let ?r = "last reduced"
  have r: "?r \<in> set reduced" using ne by simp
  have s: "sorted (map rp_idx reduced)" by (simp add: reduced_of_idx [OF red])
  have "idx \<in> set (map rp_idx reduced)"
    using idx order_mentions reduced_of_idx [OF red] by (metis mentions_def)
  moreover have "x \<le> last (map rp_idx reduced)" if "x \<in> set (map rp_idx reduced)" for x
    using s that ne by (metis sorted_wrt.simps(1) append_butlast_last_id list.map_disc_iff
        in_set_conv_decomp last_in_set order_refl sorted_append Un_iff set_append list.set_intros(1) empty_iff
        insert_iff list.set(1) list.set(2))
  ultimately have le: "idx \<le> rp_idx ?r" by (metis last_map ne)
  have rs: "rp_idx ?r < length ps" "says (ps ! rp_idx ?r) kind aid host (rp_intent ?r)"
    using reduced_of_says [OF red r] by auto
  with last have eq: "rp_idx ?r = idx" using le by (metis le_neq_implies_less mentions_def)
  have "\<not> ambiguous (ps ! idx) kind aid host"
    using reduceProfiles_Inr_iff red idx by (metis nth_mem)
  then have "rp_intent ?r = i"
    using hard [of "ps ! idx"] idx rs(2) unfolding ambiguous_def eq by (metis nth_mem)
  with ne show ?thesis by simp
qed

lemma mentions_code [code]:
  "mentions p kind aid host \<longleftrightarrow>
     (\<exists>ref \<in> set (refs_of kind p). ar_ID ref = aid \<and> (ar_Hosts ref = [] \<or> host \<in> set (ar_Hosts ref)))"
  by (auto simp: mentions_def says_def)

lemma ambiguous_code [code]:
  "ambiguous p kind aid host \<longleftrightarrow>
     (says p kind aid host IntentDenied \<and> says p kind aid host IntentRequired) \<or>
     (\<not> says p kind aid host IntentDenied \<and> \<not> says p kind aid host IntentRequired \<and>
      (\<exists>r \<in> set (refs_of kind p). \<exists>r' \<in> set (refs_of kind p). ar_Intent r \<noteq> ar_Intent r' \<and>
         ar_ID r = aid \<and> (ar_Hosts r = [] \<or> host \<in> set (ar_Hosts r)) \<and>
         ar_ID r' = aid \<and> (ar_Hosts r' = [] \<or> host \<in> set (ar_Hosts r'))))"
  unfolding ambiguous_def says_def by blast

text \<open>Sample documents for the witnesses.\<close>

definition sample_profile :: "string \<Rightarrow> AssetRef list \<Rightarrow> Profile" where
  "sample_profile pid skills =
     \<lparr>pf_APIVersion = SupportedAPIVersion, pf_Kind = ''Profile'', pf_ID = pid, pf_Skills = skills,
      pf_MCPServers = [], pf_Instructions = [], pf_Permissions = []\<rparr>"

definition sample_ref :: "string \<Rightarrow> Intent \<Rightarrow> string list \<Rightarrow> AssetRef" where
  "sample_ref aid i hosts = \<lparr>ar_ID = aid, ar_Intent = i, ar_Hosts = hosts\<rparr>"

definition sample_activation :: "string list \<Rightarrow> string list \<Rightarrow> (string list \<times> string list) gomap \<Rightarrow> Activation" where
  "sample_activation en dis hosts =
     \<lparr>ac_APIVersion = SupportedAPIVersion, ac_Kind = ''Activation'', ac_Worktree = ''/w'',
      ac_Enable = \<lparr>as_Skills = en, as_MCPServers = []\<rparr>, ac_Disable = \<lparr>as_Skills = dis, as_MCPServers = []\<rparr>,
      ac_Hosts = map (\<lambda>(h, e, d). (h, \<lparr>ha_Enable = \<lparr>as_Skills = e, as_MCPServers = []\<rparr>,
                                        ha_Disable = \<lparr>as_Skills = d, as_MCPServers = []\<rparr>\<rparr>)) hosts\<rparr>"

definition sample_exception :: "string \<Rightarrow> string \<Rightarrow> gotime \<Rightarrow> Exception" where
  "sample_exception aid scope expires =
     \<lparr>ex_APIVersion = SupportedAPIVersion, ex_Kind = ''Exception'', ex_ID = ''x'', ex_AssetID = aid,
      ex_Scope = scope, ex_Justification = ''j'', ex_ExpiresAt = expires\<rparr>"

definition sample_run :: "Profile list \<Rightarrow> Activation \<Rightarrow> Exception list \<Rightarrow> ResolvedState" where
  "sample_run ps act exs = projr (Resolve ps act exs ''codex'' 100)"

section \<open>Properties\<close>

text \<open>C1: a policy that denies an asset cannot be overridden from below. When a selected profile denies
an asset at a host and no live exception is scoped to a profile that denies it, the resolved state never
has it active, whatever the activation enables and whatever other profiles require.\<close>

theorem resolve_denied_inactive:
  assumes "Resolve ps act exs host now = Inr st"
    and "p \<in> set ps" "says p kind aid host IntentDenied"
    and "\<not> excepted ps exs now kind aid host IntentDenied"
  shows "\<not> ResolvedState_IsActive st kind aid"
  using decide_denied [OF _ assms(2,3,4)] IsActive_iff [OF assms(1)] by blast

lemma resolve_denied_inactive_witness:
  "\<not> ResolvedState_IsActive
       (sample_run [sample_profile ''org'' [sample_ref ''web'' IntentDenied []],
                    sample_profile ''team'' [sample_ref ''web'' IntentDefault [''codex'']]]
          (sample_activation [''web''] [] [(''codex'', [''web''], [])])
          [sample_exception ''web'' ''org'' 100, sample_exception ''web'' ''team'' 200])
       KindSkill ''web''"
  by (rule resolve_denied_inactive
        [where ps = "[sample_profile ''org'' [sample_ref ''web'' IntentDenied []],
                      sample_profile ''team'' [sample_ref ''web'' IntentDefault [''codex'']]]"
           and act = "sample_activation [''web''] [] [(''codex'', [''web''], [])]"
           and exs = "[sample_exception ''web'' ''org'' 100, sample_exception ''web'' ''team'' 200]"
           and host = "''codex''" and now = 100
           and p = "sample_profile ''org'' [sample_ref ''web'' IntentDenied []]"]) code_simp+

text \<open>A required asset stays on. When a selected profile requires an asset at a host, none denies it
there and no live exception is scoped to a profile that requires it, the asset is active, or it is
reported as a conflict because some profile contradicts itself about it.\<close>

theorem resolve_required_active:
  assumes "Resolve ps act exs host now = Inr st"
    and "p \<in> set ps" "says p kind aid host IntentRequired"
    and "\<forall>q \<in> set ps. \<not> says q kind aid host IntentDenied"
    and "\<not> excepted ps exs now kind aid host IntentRequired"
  shows "ResolvedState_IsActive st kind aid \<or>
         ResolvedState_HasConflict st kind aid \<and> (\<exists>q \<in> set ps. ambiguous q kind aid host)"
proof -
  have u: "(kind, aid) \<in> set (universe_of ps act host)"
    using mentioned_in_universe assms(2,3) mentions_def by metis
  show ?thesis
  proof (cases "decide ps act exs host now (kind, aid)")
    case (Inl c)
    then have "\<exists>q \<in> set ps. ambiguous q kind aid host" using decide_Inl_iff assms(4) by blast
    with Inl u show ?thesis using HasConflict_iff [OF assms(1)] by blast
  next
    case (Inr a)
    with decide_required [OF this assms(2,3) _ assms(5)] assms(4) u show ?thesis using IsActive_iff [OF assms(1)] by blast
  qed
qed

lemma resolve_required_active_witness:
  "ResolvedState_IsActive (sample_run [sample_profile ''org'' [sample_ref ''lint'' IntentRequired []]]
      (sample_activation [] [''lint''] [])
      [sample_exception ''lint'' ''team'' 200]) KindSkill ''lint'' \<or> ResolvedState_HasConflict (sample_run [sample_profile ''org'' [sample_ref ''lint'' IntentRequired []]]
      (sample_activation [] [''lint''] [])
      [sample_exception ''lint'' ''team'' 200]) KindSkill ''lint'' \<and> (\<exists>q \<in> set [sample_profile ''org'' [sample_ref ''lint'' IntentRequired []]]. ambiguous q KindSkill ''lint'' ''codex'')"
  by (rule resolve_required_active
        [where ps = "[sample_profile ''org'' [sample_ref ''lint'' IntentRequired []]]"
           and act = "sample_activation [] [''lint''] []"
           and exs = "[sample_exception ''lint'' ''team'' 200]" and host = "''codex''" and now = 100 and kind = KindSkill and aid = "''lint''" and st = "sample_run [sample_profile ''org'' [sample_ref ''lint'' IntentRequired []]] (sample_activation [] [''lint''] []) [sample_exception ''lint'' ''team'' 200]" and p = "sample_profile ''org'' [sample_ref ''lint'' IntentRequired []]"])
    code_simp+

text \<open>C16: exactly which assets end as conflicts: those of the universe about which one profile
contradicts itself, or which one profile denies and another requires with no live exception to either
side.\<close>

theorem resolve_conflict_iff:
  assumes "Resolve ps act exs host now = Inr st"
    and "p \<in> set ps" "mentions p kind aid host"
  shows "ResolvedState_HasConflict st kind aid \<longleftrightarrow>
     (\<exists>p \<in> set ps. ambiguous p kind aid host) \<or>
     ((\<exists>p \<in> set ps. says p kind aid host IntentDenied) \<and> (\<exists>p \<in> set ps. says p kind aid host IntentRequired) \<and>
      \<not> excepted ps exs now kind aid host IntentDenied \<and> \<not> excepted ps exs now kind aid host IntentRequired)"
  using HasConflict_iff [OF assms(1)] decide_Inl_iff mentioned_in_universe [OF assms(2,3)] by simp

lemma resolve_conflict_iff_witness:
  "ResolvedState_HasConflict (sample_run [sample_profile ''org'' [sample_ref ''web'' IntentDenied []], sample_profile ''team'' [sample_ref ''web'' IntentRequired [''codex'']]]
      (sample_activation [] [] [])
      [sample_exception ''web'' ''team'' 100]) KindSkill ''web'' \<longleftrightarrow>
     (\<exists>p \<in> set [sample_profile ''org'' [sample_ref ''web'' IntentDenied []], sample_profile ''team'' [sample_ref ''web'' IntentRequired [''codex'']]]. ambiguous p KindSkill ''web'' ''codex'') \<or>
     ((\<exists>p \<in> set [sample_profile ''org'' [sample_ref ''web'' IntentDenied []], sample_profile ''team'' [sample_ref ''web'' IntentRequired [''codex'']]]. says p KindSkill ''web'' ''codex'' IntentDenied) \<and> (\<exists>p \<in> set [sample_profile ''org'' [sample_ref ''web'' IntentDenied []], sample_profile ''team'' [sample_ref ''web'' IntentRequired [''codex'']]]. says p KindSkill ''web'' ''codex'' IntentRequired) \<and>
      \<not> excepted [sample_profile ''org'' [sample_ref ''web'' IntentDenied []], sample_profile ''team'' [sample_ref ''web'' IntentRequired [''codex'']]] [sample_exception ''web'' ''team'' 100] 100 KindSkill ''web'' ''codex'' IntentDenied \<and>
      \<not> excepted [sample_profile ''org'' [sample_ref ''web'' IntentDenied []], sample_profile ''team'' [sample_ref ''web'' IntentRequired [''codex'']]] [sample_exception ''web'' ''team'' 100] 100 KindSkill ''web'' ''codex'' IntentRequired)"
  by (rule resolve_conflict_iff
        [where ps = "[sample_profile ''org'' [sample_ref ''web'' IntentDenied []], sample_profile ''team'' [sample_ref ''web'' IntentRequired [''codex'']]]"
           and act = "sample_activation [] [] []"
           and exs = "[sample_exception ''web'' ''team'' 100]" and host = "''codex''" and now = 100 and kind = KindSkill and aid = "''web''" and st = "sample_run [sample_profile ''org'' [sample_ref ''web'' IntentDenied []], sample_profile ''team'' [sample_ref ''web'' IntentRequired [''codex'']]] (sample_activation [] [] []) [sample_exception ''web'' ''team'' 100]" and p = "sample_profile ''org'' [sample_ref ''web'' IntentDenied []]"])
    code_simp+

lemma decided_keys:
  assumes "Resolve ps act exs host now = Inr st"
  shows "map (\<lambda>a. (ra_Kind a, ra_ID a)) (rs_Assets st) =
           filter (\<lambda>k. \<exists>a. decide ps act exs host now k = Inr a) (universe_of ps act host)"
    and "map (\<lambda>c. (cf_Kind c, cf_AssetID c)) (rs_Conflicts st) =
           filter (\<lambda>k. \<exists>c. decide ps act exs host now k = Inl c) (universe_of ps act host)"
proof -
  let ?f = "decide ps act exs host now"
  have "map (\<lambda>a. (ra_Kind a, ra_ID a)) (concat (map (\<lambda>k. case ?f k of Inr a \<Rightarrow> [a] | Inl c \<Rightarrow> []) ks)) =
      filter (\<lambda>k. \<exists>a. ?f k = Inr a) ks" for ks
    by (induction ks) (auto split: sum.splits dest: decide_key(1))
  moreover have "map (\<lambda>c. (cf_Kind c, cf_AssetID c)) (concat (map (\<lambda>k. case ?f k of Inl c \<Rightarrow> [c] | Inr a \<Rightarrow> []) ks)) =
      filter (\<lambda>k. \<exists>c. ?f k = Inl c) ks" for ks
    by (induction ks) (auto split: sum.splits dest: decide_key(2))
  ultimately show "map (\<lambda>a. (ra_Kind a, ra_ID a)) (rs_Assets st) = filter (\<lambda>k. \<exists>a. ?f k = Inr a) (universe_of ps act host)"
    and "map (\<lambda>c. (cf_Kind c, cf_AssetID c)) (rs_Conflicts st) = filter (\<lambda>k. \<exists>c. ?f k = Inl c) (universe_of ps act host)"
    using assms by (simp_all add: Resolve_Inr)
qed

text \<open>The result is total and deterministic in its order. Every asset of the universe is decided
exactly once, as an asset or as a conflict, and both lists are sorted by kind and identifier with no
repetition.\<close>

theorem resolve_partition:
  assumes "Resolve ps act exs host now = Inr st"
  shows "(let decided = map (\<lambda>a. (ra_Kind a, ra_ID a)) (rs_Assets st);
              undecided = map (\<lambda>c. (cf_Kind c, cf_AssetID c)) (rs_Conflicts st)
          in set decided \<union> set undecided = set (collectUniverse (collectProfileCandidates ps) act host) \<and>
             set decided \<inter> set undecided = {} \<and> distinct decided \<and> distinct undecided \<and>
             sorted (map assetKey_code decided) \<and> sorted (map assetKey_code undecided))"
proof -
  let ?f = "decide ps act exs host now" and ?u = "universe_of ps act host"
  have "set (filter (\<lambda>k. \<exists>a. ?f k = Inr a) ?u) \<union> set (filter (\<lambda>k. \<exists>c. ?f k = Inl c) ?u) = set ?u"
    by (auto, metis sum.exhaust)
  moreover have "set (filter (\<lambda>k. \<exists>a. ?f k = Inr a) ?u) \<inter> set (filter (\<lambda>k. \<exists>c. ?f k = Inl c) ?u) = {}"
    by auto
  ultimately show ?thesis
    unfolding Let_def decided_keys [OF assms] universe_of_def [symmetric]
    by (simp add: universe_distinct universe_sorted sorted_filter)
qed

lemma resolve_partition_witness:
  "(let st = sample_run [sample_profile ''org'' [sample_ref ''web'' IntentDenied []], sample_profile ''team'' [sample_ref ''web'' IntentRequired [''codex'']]] (sample_activation [''a''] [] []) [];
        decided = map (\<lambda>a. (ra_Kind a, ra_ID a)) (rs_Assets st);
        undecided = map (\<lambda>c. (cf_Kind c, cf_AssetID c)) (rs_Conflicts st)
    in set decided \<union> set undecided = set (collectUniverse (collectProfileCandidates [sample_profile ''org'' [sample_ref ''web'' IntentDenied []], sample_profile ''team'' [sample_ref ''web'' IntentRequired [''codex'']]]) (sample_activation [''a''] [] []) ''codex'') \<and>
       set decided \<inter> set undecided = {} \<and> distinct decided \<and> distinct undecided \<and>
       sorted (map assetKey_code decided) \<and> sorted (map assetKey_code undecided))"
  unfolding Let_def
  by (rule resolve_partition [unfolded Let_def, where now = 100 and exs = "[]"]) code_simp

text \<open>Soft intents. Where no profile denies or requires the asset at the host, the last profile that
mentions it decides (only DEFAULT turns it on), then the host-neutral and then the host-scoped selection
of the activation override it, a disable winning over an enable of the same layer.\<close>

theorem resolve_soft_layers:
  assumes "Resolve ps act exs host now = Inr st"
    and "\<forall>q \<in> set ps. \<not> says q kind aid host IntentDenied \<and> \<not> says q kind aid host IntentRequired \<and> \<not> ambiguous q kind aid host"
    and "idx < length ps" "says (ps ! idx) kind aid host i"
    and "\<forall>p \<in> set (drop (Suc idx) ps). \<not> mentions p kind aid host"
  shows "ResolvedState_IsActive st kind aid =
     (let neutral = (if inSelection kind aid (ac_Disable act) then False
                     else if inSelection kind aid (ac_Enable act) then True else i = IntentDefault)
      in case map_of (ac_Hosts act) host of
           Some h \<Rightarrow> if inSelection kind aid (ha_Disable h) then False
                     else if inSelection kind aid (ha_Enable h) then True else neutral
         | None \<Rightarrow> neutral)"
proof -
  have u: "(kind, aid) \<in> set (universe_of ps act host)"
    using mentioned_in_universe nth_mem assms(3,4) mentions_def by metis
  have "\<not> (\<exists>c. decide ps act exs host now (kind, aid) = Inl c)" using decide_Inl_iff assms(2) by blast
  then obtain a where a: "decide ps act exs host now (kind, aid) = Inr a" by (metis sum.exhaust)
  from a obtain reduced active reason where d:
    "reduceProfiles (entries_of_profile (applicable_of ps kind aid host))
       (profile_order (applicable_of ps kind aid host)) = Inr reduced"
    "baseline aid reduced (profileIDs_with IntentDenied reduced) (profileIDs_with IntentRequired reduced) exs now =
       Some (ra_Intent a, active, reason)"
    "layers (kind, aid) act host (reduced \<noteq> []) active (ra_Intent a) reason
       (profileIDs_with IntentDenied reduced) (profileIDs_with IntentRequired reduced) exs now = (ra_Active a, ra_Reason a)"
    by (rule decide_Inr)
  have after: "\<not> mentions (ps ! j) kind aid host" if "idx < j" "j < length ps" for j
  proof -
    have "ps ! j = drop (Suc idx) ps ! (j - Suc idx)" "j - Suc idx < length (drop (Suc idx) ps)" using that by auto
    then show ?thesis using assms(5) nth_mem by metis
  qed
  have l: "reduced \<noteq> []" "rp_intent (last reduced) = i"
    using last_reduced [OF d(1) assms(3,4) after] assms(2) by auto
  have "IntentDenied \<notin> rp_intent ` set reduced" "IntentRequired \<notin> rp_intent ` set reduced"
    using reduced_says_Denied [OF d(1)] reduced_says_Required [OF d(1)] assms(2) by blast+
  with baseline_cases [OF d(2)] l have b: "ra_Intent a = i" "active = (i = IntentDefault)" by auto
  have "i \<noteq> IntentDenied" "i \<noteq> IntentRequired" using bspec [OF assms(2), of "ps ! idx"] assms(3,4) by auto
  note hard = this
  have "ra_Active a = fst (layers (kind, aid) act host True (i = IntentDefault) i reason
      (profileIDs_with IntentDenied reduced) (profileIDs_with IntentRequired reduced) exs now)"
    using d(3) l(1) b by simp
  also have "\<dots> = (let neutral = (if inSelection kind aid (ac_Disable act) then False
                     else if inSelection kind aid (ac_Enable act) then True else i = IntentDefault)
      in case map_of (ac_Hosts act) host of
           Some h \<Rightarrow> if inSelection kind aid (ha_Disable h) then False
                     else if inSelection kind aid (ha_Enable h) then True else neutral
         | None \<Rightarrow> neutral)" by (rule layers_soft [OF hard])
  finally show ?thesis using IsActive_iff [OF assms(1)] u a by simp
qed

lemma resolve_soft_layers_witness:
  "ResolvedState_IsActive (sample_run [sample_profile ''org'' [sample_ref ''web'' IntentDefault []], sample_profile ''team'' [sample_ref ''web'' IntentAvailable [''codex'']]]
      (sample_activation [''web''] [] [(''codex'', [], [''web''])])
      []) KindSkill ''web'' =
     (let neutral = (if inSelection KindSkill ''web'' (ac_Disable (sample_activation [''web''] [] [(''codex'', [], [''web''])])) then False
                     else if inSelection KindSkill ''web'' (ac_Enable (sample_activation [''web''] [] [(''codex'', [], [''web''])])) then True else IntentAvailable = IntentDefault)
      in case map_of (ac_Hosts (sample_activation [''web''] [] [(''codex'', [], [''web''])])) ''codex'' of
           Some h \<Rightarrow> if inSelection KindSkill ''web'' (ha_Disable h) then False
                     else if inSelection KindSkill ''web'' (ha_Enable h) then True else neutral
         | None \<Rightarrow> neutral)"
  by (rule resolve_soft_layers
        [where ps = "[sample_profile ''org'' [sample_ref ''web'' IntentDefault []], sample_profile ''team'' [sample_ref ''web'' IntentAvailable [''codex'']]]"
           and act = "sample_activation [''web''] [] [(''codex'', [], [''web''])]"
           and exs = "[]" and host = "''codex''" and now = 100 and kind = KindSkill and aid = "''web''" and st = "sample_run [sample_profile ''org'' [sample_ref ''web'' IntentDefault []], sample_profile ''team'' [sample_ref ''web'' IntentAvailable [''codex'']]] (sample_activation [''web''] [] [(''codex'', [], [''web''])]) []" and idx = 1 and i = IntentAvailable])
    code_simp+

lemma resolveOne_exceptions_cong:
  "(\<And>aid scopes. findException exs aid scopes now = findException exs' aid scopes now) \<Longrightarrow>
   resolveOne key es act exs host now = resolveOne key es act exs' host now"
  unfolding resolveOne_def baseline_def applyLayer_def applyEnable_def applyDisable_def by presburger

text \<open>An exception that is malformed or no longer live has no effect at all: removing it from the
input leaves the whole result unchanged, the reasons included.\<close>

theorem resolve_live_exceptions:
  "Resolve ps act (filter (\<lambda>e. Exception_Valid e \<and> now < ex_ExpiresAt e) exs) host now = Resolve ps act exs host now"
proof -
  have "findException (filter (\<lambda>e. Exception_Valid e \<and> now < ex_ExpiresAt e) exs) aid scopes now = findException exs aid scopes now"
    for aid scopes
    by (rule resolve_ex.lookup_filter) (auto simp: exception_applies_def)
  then have "resolveOne key es act (filter (\<lambda>e. Exception_Valid e \<and> now < ex_ExpiresAt e) exs) host now =
      resolveOne key es act exs host now" for key es
    by (rule resolveOne_exceptions_cong)
  then show ?thesis unfolding Resolve_def by presburger
qed

text \<open>Presence comes from a profile or from a selection scoped to the host. An asset no profile
mentions at the host is active exactly when the activation's entry for that host enables it and does not
disable it; a host-neutral enable cannot invent it.\<close>

theorem resolve_unmentioned:
  assumes "Resolve ps act exs host now = Inr st"
    and "\<forall>q \<in> set ps. \<not> mentions q kind aid host"
  shows "ResolvedState_IsActive st kind aid \<longleftrightarrow>
     (\<exists>h. map_of (ac_Hosts act) host = Some h \<and> inSelection kind aid (ha_Enable h) \<and> \<not> inSelection kind aid (ha_Disable h))"
proof -
  have says: "\<not> says q kind aid host i" if "q \<in> set ps" for q i using assms(2) that by (auto simp: mentions_def)
  then have "\<not> (\<exists>c. decide ps act exs host now (kind, aid) = Inl c)"
    using decide_Inl_iff unfolding ambiguous_def by blast
  then obtain a where a: "decide ps act exs host now (kind, aid) = Inr a" by (metis sum.exhaust)
  from a obtain reduced active reason where d:
    "reduceProfiles (entries_of_profile (applicable_of ps kind aid host))
       (profile_order (applicable_of ps kind aid host)) = Inr reduced"
    "baseline aid reduced (profileIDs_with IntentDenied reduced) (profileIDs_with IntentRequired reduced) exs now =
       Some (ra_Intent a, active, reason)"
    "layers (kind, aid) act host (reduced \<noteq> []) active (ra_Intent a) reason
       (profileIDs_with IntentDenied reduced) (profileIDs_with IntentRequired reduced) exs now = (ra_Active a, ra_Reason a)"
    by (rule decide_Inr)
  have r: "reduced = []" using reduced_Nil_iff [OF d(1)] assms(2) by blast
  with baseline_cases [OF d(2)] have i: "ra_Intent a = IntentOther []" "\<not> active" by auto
  have act: "ra_Active a \<longleftrightarrow>
     (\<exists>h. map_of (ac_Hosts act) host = Some h \<and> inSelection kind aid (ha_Enable h) \<and> \<not> inSelection kind aid (ha_Disable h))"
    using d(3) r i by (auto simp: layers_def applyLayer_def applyEnable_def applyDisable_def split: option.splits if_splits)
  have "(kind, aid) \<in> set (universe_of ps act host)"
    if "map_of (ac_Hosts act) host = Some h" "inSelection kind aid (ha_Enable h)" for h
    using that by (cases kind) (auto simp: universe_of_def collectUniverse_def addSelection_def inSelection_def)
  then show ?thesis using IsActive_iff [OF assms(1)] a act by auto
qed

lemma resolve_unmentioned_witness:
  "ResolvedState_IsActive (sample_run [sample_profile ''org'' [sample_ref ''lint'' IntentRequired []]]
      (sample_activation [''web''] [] [(''codex'', [''web''], [])])
      []) KindSkill ''web'' \<longleftrightarrow>
     (\<exists>h. map_of (ac_Hosts (sample_activation [''web''] [] [(''codex'', [''web''], [])])) ''codex'' = Some h \<and> inSelection KindSkill ''web'' (ha_Enable h) \<and>
          \<not> inSelection KindSkill ''web'' (ha_Disable h))"
  by (rule resolve_unmentioned
        [where ps = "[sample_profile ''org'' [sample_ref ''lint'' IntentRequired []]]"
           and act = "sample_activation [''web''] [] [(''codex'', [''web''], [])]"
           and exs = "[]" and host = "''codex''" and now = 100 and kind = KindSkill and aid = "''web''" and st = "sample_run [sample_profile ''org'' [sample_ref ''lint'' IntentRequired []]] (sample_activation [''web''] [] [(''codex'', [''web''], [])]) []" ])
    code_simp+

end
