(* ===== verification/Effective_Merge.thy ===== *)
theory Effective_Merge
  imports Domain_Docs
begin

text \<open>
  The per-entity precedence resolution of \<^verbatim>\<open>internal/effective\<close>: \<^verbatim>\<open>types.go\<close>, \<^verbatim>\<open>merge.go\<close>, \<^verbatim>\<open>compose.go\<close>
  and \<^verbatim>\<open>precedence.go\<close>. \<open>ResolveGroup\<close> takes the candidates that claim one logical entity and gives
  either an entry with its provenance or an unresolved conflict, by one of the nine merge operators.
  The pair of pointers the code returns (exactly one of them non-nil) is a sum, \<open>Inl\<close> the conflict.
  Scope ranks are the entries of a Go map, scope priorities a slice; the set of denied references is a
  list. The hash of the canonical digest is the parameter \<open>dg\<close>.
\<close>

section \<open>Data\<close>

record Candidate =
  cd_Concept :: string
  cd_LogicalID :: string
  cd_Ref :: string
  cd_Scope :: ObservationScope
  cd_Source :: ObservationSource
  cd_Disposition :: SourceDisposition
  cd_EvidenceLevel :: EvidenceLevel
  cd_Fields :: "json gomap option"
  cd_ContentDigest :: string
  cd_Tools :: "string list"

record LogicalGroup =
  lg_Concept :: string
  lg_LogicalID :: string
  lg_Candidates :: "Candidate list"

record AmbiguousIdentity =
  ai_Concept :: string
  ai_A :: Candidate
  ai_B :: Candidate
  ai_Reason :: message

record Provenance =
  pv_Program :: string
  pv_Operator :: MergeOperator
  pv_SelectedSource :: string
  pv_ActiveSources :: "string list"
  pv_IgnoredSources :: "string list"
  pv_Constraints :: "message list"

definition Provenance_zero :: Provenance where
  "Provenance_zero = \<lparr>pv_Program = '''', pv_Operator = OpOther '''', pv_SelectedSource = '''',
     pv_ActiveSources = [], pv_IgnoredSources = [], pv_Constraints = []\<rparr>"

record EffectiveEntry =
  ee_Concept :: string
  ee_LogicalID :: string
  ee_Composed :: bool
  ee_Provenance :: Provenance
  ee_EvidenceLevel :: EvidenceLevel
  ee_Guarantee :: GuaranteeLevel
  ee_Confirmed :: bool
  ee_Reason :: message

record Conflict =
  cn_Concept :: string
  cn_LogicalID :: string
  cn_Candidates :: "Candidate list"
  cn_Program :: string
  cn_Operator :: string
  cn_EvidenceLevel :: EvidenceLevel
  cn_Reason :: message

record Options =
  op_ScopeRank :: "int gomap"
  op_ScopePriority :: "string list"
  op_DeniedRefs :: "string list"

section \<open>Helpers over candidates\<close>

definition distinctByContent :: "Candidate list \<Rightarrow> Candidate list" where
  "distinctByContent cs = sort_key cd_Ref (dedup_on cd_ContentDigest cs)"

definition candidateRefs :: "Candidate list \<Rightarrow> string list" where
  "candidateRefs cs = sort (map cd_Ref cs)"

fun highestEvidence_loop :: "EvidenceLevel \<Rightarrow> Candidate list \<Rightarrow> EvidenceLevel" where
  "highestEvidence_loop best [] = best"
| "highestEvidence_loop best (c # cs) =
     highestEvidence_loop
       (if EvidenceLevel_Rank best < EvidenceLevel_Rank (cd_EvidenceLevel c) then cd_EvidenceLevel c else best) cs"

definition highestEvidence :: "Candidate list \<Rightarrow> EvidenceLevel" where
  "highestEvidence cs = highestEvidence_loop EvDiscovered cs"

definition host_reported :: "Candidate list \<Rightarrow> bool" where
  "host_reported cs \<longleftrightarrow> EvidenceLevel_Rank EvHostReported \<le> EvidenceLevel_Rank (highestEvidence cs)"

definition capabilityQualified :: "CapabilityOps \<Rightarrow> bool" where
  "capabilityQualified ops \<longleftrightarrow> co_Resolve ops = CapExact \<or> co_Resolve ops = CapCompatible"

definition isDenied :: "Candidate \<Rightarrow> string list \<Rightarrow> bool" where
  "isDenied c deniedRefs \<longleftrightarrow> cd_Ref c \<in> set deniedRefs \<or> cd_Disposition c = DispDenied"

definition LookupProgram :: "HostKnowledge \<Rightarrow> string \<Rightarrow> PrecedenceProgram \<times> bool" where
  "LookupProgram hk concept =
     (case filter (\<lambda>p. has_prefix (concept @ ''.'') (pp_ID p)) (hk_PrecedencePrograms hk) of
        [p] \<Rightarrow> (p, True)
      | _ \<Rightarrow> (PrecedenceProgram_zero, False))"

definition conflictf :: "LogicalGroup \<Rightarrow> PrecedenceProgram \<Rightarrow> MergeOperator \<Rightarrow> message \<Rightarrow> Conflict" where
  "conflictf grp program operator reason =
     \<lparr>cn_Concept = lg_Concept grp, cn_LogicalID = lg_LogicalID grp, cn_Candidates = lg_Candidates grp,
      cn_Program = pp_ID program, cn_Operator = MergeOperator_code operator,
      cn_EvidenceLevel = highestEvidence (lg_Candidates grp), cn_Reason = reason\<rparr>"

text \<open>The entry literal every operator returns for a group.\<close>

definition group_entry ::
  "LogicalGroup \<Rightarrow> Provenance \<Rightarrow> GuaranteeLevel \<Rightarrow> bool \<Rightarrow> message \<Rightarrow> EffectiveEntry" where
  "group_entry grp prov guarantee confirmed reason =
     \<lparr>ee_Concept = lg_Concept grp, ee_LogicalID = lg_LogicalID grp, ee_Composed = False, ee_Provenance = prov,
      ee_EvidenceLevel = highestEvidence (lg_Candidates grp), ee_Guarantee = guarantee,
      ee_Confirmed = confirmed, ee_Reason = reason\<rparr>"

section \<open>The operators\<close>

text \<open>The winner loop of \<^verbatim>\<open>resolveByScopeRank\<close>: \<open>Inl\<close> the scope without a rank.\<close>

fun scopeRank_loop :: "int gomap \<Rightarrow> int \<Rightarrow> Candidate list \<Rightarrow> Candidate list \<Rightarrow> string + int \<times> Candidate list" where
  "scopeRank_loop ranks best winners [] = Inr (best, winners)"
| "scopeRank_loop ranks best winners (c # cs) =
     (case map_of ranks (osc_Kind (cd_Scope c)) of
        None \<Rightarrow> Inl (osc_Kind (cd_Scope c))
      | Some rank \<Rightarrow>
          if best < rank then scopeRank_loop ranks rank [c] cs
          else if rank = best then scopeRank_loop ranks best (winners @ [c]) cs
          else scopeRank_loop ranks best winners cs)"

definition resolveByScopeRank ::
  "LogicalGroup \<Rightarrow> PrecedenceProgram \<Rightarrow> MergeOperator \<Rightarrow> int gomap \<Rightarrow> Conflict + EffectiveEntry" where
  "resolveByScopeRank grp program operator scopeRank =
     (let cands = distinctByContent (lg_Candidates grp); opn = AStr (MergeOperator_code operator)
      in if scopeRank = [] then
           Inl (conflictf grp program operator
             (Msg ''%s requires an explicit scope precedence order; none was supplied'' [opn]))
         else case scopeRank_loop scopeRank (- 1) [] cands of
           Inl scope \<Rightarrow> Inl (conflictf grp program operator
             (Msg ''%s: scope %q has no declared rank in the supplied scope order'' [opn, AStr scope]))
         | Inr (best, winners) \<Rightarrow>
             (case winners of
                [winner] \<Rightarrow>
                  Inr (group_entry grp
                    \<lparr>pv_Program = pp_ID program, pv_Operator = operator, pv_SelectedSource = cd_Ref winner,
                     pv_ActiveSources = [cd_Ref winner],
                     pv_IgnoredSources = sort (map cd_Ref (filter (\<lambda>c. cd_Ref c \<noteq> cd_Ref winner) cands)),
                     pv_Constraints = []\<rparr>
                    GuaranteeObserved (host_reported (lg_Candidates grp))
                    (Msg ''%s: scope %q (rank %d) outranks the other %d candidate(s)''
                       [opn, AStr (osc_Kind (cd_Scope winner)), AInt best, AInt (int (length cands) - 1)]))
              | _ \<Rightarrow> Inl (conflictf grp program operator
                  (Msg ''%s: %d candidates tie for the highest scope rank; refusing to guess between them''
                     [opn, AInt (int (length winners))]))))"

definition resolveUnionByID :: "LogicalGroup \<Rightarrow> PrecedenceProgram \<Rightarrow> int gomap \<Rightarrow> Conflict + EffectiveEntry" where
  "resolveUnionByID grp program scopeRank = resolveByScopeRank grp program OpUnionByID scopeRank"

definition valuesEqual :: "(json \<Rightarrow> string) \<Rightarrow> json \<Rightarrow> json \<Rightarrow> bool" where
  "valuesEqual dg a b \<longleftrightarrow> CanonicalDigest dg a = CanonicalDigest dg b"

text \<open>
  The loop of \<^verbatim>\<open>deepMergeInto\<close> over the entries of \<^verbatim>\<open>src\<close> in iteration order, with its local variables
  \<^verbatim>\<open>path\<close> (which the loop overwrites at a conflict) and \<^verbatim>\<open>ok\<close>. The updated \<^verbatim>\<open>dst\<close> is returned first.
\<close>

lemma size_obj: "size_list (\<lambda>kv. Suc (size (snd kv))) m = size_list (size_prod (\<lambda>x. 0) size) m"
  by (induction m) (auto simp: size_prod_simp)

text \<open>The two type assertions to \<^verbatim>\<open>map[string]any\<close>.\<close>

fun both_maps :: "json \<Rightarrow> json \<Rightarrow> (json gomap \<times> json gomap) option" where
  "both_maps (JObj a) (JObj b) = Some (a, b)"
| "both_maps a b = None"

lemma both_maps_Some_iff [simp]: "both_maps a b = Some (m, n) \<longleftrightarrow> a = JObj m \<and> b = JObj n"
  by (cases "(a, b)" rule: both_maps.cases) auto

function deepMerge_loop ::
  "(json \<Rightarrow> string) \<Rightarrow> json gomap \<Rightarrow> json gomap \<Rightarrow> string \<Rightarrow> bool \<Rightarrow> json gomap \<times> string \<times> bool" where
  "deepMerge_loop dg dst [] path ok = (if \<not> ok then (dst, path, False) else (dst, '''', True))"
| "deepMerge_loop dg dst ((k, v) # src) path ok =
     (let p = (if path \<noteq> '''' then path @ ''.'' @ k else k)
      in case map_of dst k of
           None \<Rightarrow> deepMerge_loop dg (map_put k v dst) src path ok
         | Some existing \<Rightarrow>
             (case both_maps existing v of
                Some (existingMap, vMap) \<Rightarrow>
                  (let (merged, childPath, childOK) = deepMerge_loop dg existingMap vMap p True;
                       dst1 = map_put k (JObj merged) dst
                   in if \<not> childOK then (dst1, childPath, False) else deepMerge_loop dg dst1 src path ok)
              | None \<Rightarrow>
                  if \<not> valuesEqual dg existing v then deepMerge_loop dg (map_put k v dst) src p False
                  else deepMerge_loop dg dst src path ok))"
  by pat_completeness auto

termination
  by (relation "measure (\<lambda>(dg, dst, src, path, ok). size_list (\<lambda>kv. Suc (size (snd kv))) src)")
    (auto simp: size_obj)

definition deepMergeInto ::
  "(json \<Rightarrow> string) \<Rightarrow> json gomap \<Rightarrow> json gomap \<Rightarrow> string \<Rightarrow> json gomap \<times> string \<times> bool" where
  "deepMergeInto dg dst src path = deepMerge_loop dg dst src path True"

fun scopeRankCoversAll :: "int gomap \<Rightarrow> Candidate list \<Rightarrow> bool" where
  "scopeRankCoversAll ranks [] = True"
| "scopeRankCoversAll ranks (c # cs) =
     (case map_of ranks (osc_Kind (cd_Scope c)) of None \<Rightarrow> False | Some _ \<Rightarrow> scopeRankCoversAll ranks cs)"

definition rank_of :: "int gomap \<Rightarrow> Candidate \<Rightarrow> int" where
  "rank_of ranks c = map_get 0 ranks (osc_Kind (cd_Scope c))"

fun deepMerge_candidates ::
  "(json \<Rightarrow> string) \<Rightarrow> bool \<Rightarrow> json gomap \<Rightarrow> Candidate list \<Rightarrow> string + json gomap" where
  "deepMerge_candidates dg complete result [] = Inr result"
| "deepMerge_candidates dg complete result (c # cs) =
     (let (result1, path, ok) =
        deepMergeInto dg result (case cd_Fields c of Some fs \<Rightarrow> fs | None \<Rightarrow> []) ''''
      in if \<not> ok \<and> \<not> complete then Inl path else deepMerge_candidates dg complete result1 cs)"

definition deepMergeAll :: "(json \<Rightarrow> string) \<Rightarrow> Candidate list \<Rightarrow> int gomap \<Rightarrow> string + json gomap" where
  "deepMergeAll dg cands ranks =
     (let complete = scopeRankCoversAll ranks cands;
          ordered = (if complete then sort_key (rank_of ranks) cands else cands)
      in deepMerge_candidates dg complete [] ordered)"

definition resolveDeepMerge ::
  "(json \<Rightarrow> string) \<Rightarrow> LogicalGroup \<Rightarrow> PrecedenceProgram \<Rightarrow> int gomap \<Rightarrow> Conflict + EffectiveEntry" where
  "resolveDeepMerge dg grp program scopeRank =
     (let cands = distinctByContent (lg_Candidates grp)
      in case find (\<lambda>c. cd_Fields c = None) cands of
           Some c \<Rightarrow> Inl (conflictf grp program OpDeepMerge
             (Msg ''DEEP_MERGE: candidate %q has no structured content to merge'' [AStr (cd_Ref c)]))
         | None \<Rightarrow>
             (case deepMergeAll dg cands scopeRank of
                Inl conflictPath \<Rightarrow> Inl (conflictf grp program OpDeepMerge
                  (Msg ''DEEP_MERGE: leaf conflict at %q across %d candidates and no scope order resolves it''
                     [AStr conflictPath, AInt (int (length cands))]))
              | Inr merged \<Rightarrow>
                  Inr (group_entry grp
                    \<lparr>pv_Program = pp_ID program, pv_Operator = OpDeepMerge, pv_SelectedSource = '''',
                     pv_ActiveSources = candidateRefs (lg_Candidates grp), pv_IgnoredSources = [],
                     pv_Constraints = [Msg ''DEEP_MERGE: merged content digest %s''
                                         [AStr (CanonicalDigest dg (JObj merged))]]\<rparr>
                    GuaranteeObserved (host_reported (lg_Candidates grp))
                    (Msg ''DEEP_MERGE: %d candidates merged with no unresolved leaf conflicts''
                       [AInt (int (length cands))]))))"

definition concatOrder :: "Candidate list \<Rightarrow> int gomap \<Rightarrow> string list \<times> bool" where
  "concatOrder cands ranks =
     (if ranks \<noteq> [] \<and> scopeRankCoversAll ranks cands
      then (map cd_Ref (sort_key (\<lambda>c. (rank_of ranks c, cd_Ref c)) cands), True)
      else (candidateRefs cands, False))"

definition resolveConcatWithinGroup ::
  "LogicalGroup \<Rightarrow> PrecedenceProgram \<Rightarrow> int gomap \<Rightarrow> Conflict + EffectiveEntry" where
  "resolveConcatWithinGroup grp program scopeRank =
     (let (ordered, orderConfirmed) = concatOrder (lg_Candidates grp) scopeRank
      in Inr (group_entry grp
           \<lparr>pv_Program = pp_ID program, pv_Operator = OpConcatOrdered, pv_SelectedSource = '''',
            pv_ActiveSources = candidateRefs (lg_Candidates grp), pv_IgnoredSources = [], pv_Constraints = []\<rparr>
           GuaranteeAdvisory (orderConfirmed \<and> host_reported (lg_Candidates grp))
           (if orderConfirmed
            then Msg ''CONCAT_ORDERED: all sources active in confirmed order %v'' [AStrs ordered]
            else Msg ''CONCAT_ORDERED: all sources remain active; exact order unconfirmed (no scope order supplied)'' [])))"

text \<open>\<^verbatim>\<open>rankOf\<close>: the position of a scope in the priority list, \<open>- 1\<close> when it is absent.\<close>

fun rankOf :: "string list \<Rightarrow> string \<Rightarrow> int" where
  "rankOf [] scope = - 1"
| "rankOf (s # priority) scope =
     (if s = scope then 0 else let r = rankOf priority scope in if r = - 1 then - 1 else r + 1)"

fun firstMatch_loop :: "string list \<Rightarrow> int \<Rightarrow> Candidate list \<Rightarrow> Candidate list \<Rightarrow> Candidate list" where
  "firstMatch_loop priority best winners [] = winners"
| "firstMatch_loop priority best winners (c # cs) =
     (let r = rankOf priority (osc_Kind (cd_Scope c))
      in if r < best then firstMatch_loop priority r [c] cs
         else if r = best then firstMatch_loop priority best (winners @ [c]) cs
         else firstMatch_loop priority best winners cs)"

definition resolveFirstMatch ::
  "LogicalGroup \<Rightarrow> PrecedenceProgram \<Rightarrow> string list \<Rightarrow> Conflict + EffectiveEntry" where
  "resolveFirstMatch grp program priority =
     (let cands = distinctByContent (lg_Candidates grp)
      in if priority = [] then
           Inl (conflictf grp program OpFirstMatch
             (Msg ''FIRST_MATCH requires an explicit scope priority order; none was supplied'' []))
         else case find (\<lambda>c. rankOf priority (osc_Kind (cd_Scope c)) = - 1) cands of
           Some c \<Rightarrow> Inl (conflictf grp program OpFirstMatch
             (Msg ''FIRST_MATCH: scope %q is not in the supplied priority order'' [AStr (osc_Kind (cd_Scope c))]))
         | None \<Rightarrow>
             (let winners = firstMatch_loop priority (int (length priority)) [] cands
              in case winners of
                   [winner] \<Rightarrow>
                     Inr (group_entry grp
                       \<lparr>pv_Program = pp_ID program, pv_Operator = OpFirstMatch, pv_SelectedSource = cd_Ref winner,
                        pv_ActiveSources = [cd_Ref winner],
                        pv_IgnoredSources =
                          sort (map cd_Ref (filter (\<lambda>c. cd_Ref c \<noteq> cd_Ref winner) (lg_Candidates grp))),
                        pv_Constraints = []\<rparr>
                       GuaranteeObserved (host_reported (lg_Candidates grp))
                       (Msg ''FIRST_MATCH: scope %q is the first present in priority order''
                          [AStr (osc_Kind (cd_Scope winner))]))
                 | _ \<Rightarrow> Inl (conflictf grp program OpFirstMatch
                     (Msg ''FIRST_MATCH: %d distinct-content candidates tie at the same highest-priority scope''
                        [AInt (int (length winners))]))))"

definition resolveNamespace :: "LogicalGroup \<Rightarrow> PrecedenceProgram \<Rightarrow> Conflict + EffectiveEntry" where
  "resolveNamespace grp program =
     (let refs = candidateRefs (lg_Candidates grp)
      in Inr (group_entry grp
           \<lparr>pv_Program = pp_ID program, pv_Operator = OpNamespace, pv_SelectedSource = '''',
            pv_ActiveSources = refs, pv_IgnoredSources = [], pv_Constraints = []\<rparr>
           GuaranteeObserved (host_reported (lg_Candidates grp))
           (Msg ''NAMESPACE: %d differently-scoped/sourced candidates remain simultaneously active, each addressable by its own namespaced Ref''
              [AInt (int (length refs))])))"

definition resolveDenyWins ::
  "LogicalGroup \<Rightarrow> PrecedenceProgram \<Rightarrow> string list \<Rightarrow> Conflict + EffectiveEntry" where
  "resolveDenyWins grp program denied =
     (let survivors = filter (\<lambda>c. \<not> isDenied c denied) (lg_Candidates grp);
          deniedRefs = sort (map cd_Ref (filter (\<lambda>c. isDenied c denied) (lg_Candidates grp)));
          confirmed = host_reported (lg_Candidates grp);
          distinctSurvivors = distinctByContent survivors
      in case distinctSurvivors of
           [] \<Rightarrow>
             Inr (group_entry grp
               \<lparr>pv_Program = pp_ID program, pv_Operator = OpDenyWins, pv_SelectedSource = '''',
                pv_ActiveSources = [], pv_IgnoredSources = deniedRefs,
                pv_Constraints = [Msg ''DENY_WINS: every candidate denied'' []]\<rparr>
               GuaranteeHard confirmed (Msg ''DENY_WINS: every candidate is denied; nothing active'' []))
         | [winner] \<Rightarrow>
             Inr (group_entry grp
               \<lparr>pv_Program = pp_ID program, pv_Operator = OpDenyWins, pv_SelectedSource = cd_Ref winner,
                pv_ActiveSources = candidateRefs survivors, pv_IgnoredSources = deniedRefs,
                pv_Constraints = [Msg ''DENY_WINS: applicable denials removed the rest'' []]\<rparr>
               GuaranteeHard confirmed
               (Msg ''DENY_WINS: %d candidate(s) denied, one distinct-content survivor remains''
                  [AInt (int (length deniedRefs))]))
         | _ \<Rightarrow>
             Inl (conflictf grp program OpDenyWins
               (Msg ''DENY_WINS: %d distinct-content candidates survive after denial and still disagree''
                  [AInt (int (length distinctSurvivors))])))"

definition resolveManagedGuardrail :: "LogicalGroup \<Rightarrow> PrecedenceProgram \<Rightarrow> Conflict + EffectiveEntry" where
  "resolveManagedGuardrail grp program =
     (let managed = filter (\<lambda>c. osc_Kind (cd_Scope c) = ''managed'') (lg_Candidates grp);
          distinctManaged = distinctByContent managed
      in case distinctManaged of
           [] \<Rightarrow> Inl (conflictf grp program OpManagedGuardrail
             (Msg ''MANAGED_GUARDRAIL: no managed-scope source present to constrain the result'' []))
         | [winner] \<Rightarrow>
             Inr (group_entry grp
               \<lparr>pv_Program = pp_ID program, pv_Operator = OpManagedGuardrail, pv_SelectedSource = cd_Ref winner,
                pv_ActiveSources = [cd_Ref winner],
                pv_IgnoredSources =
                  sort (map cd_Ref (filter (\<lambda>c. cd_Ref c \<noteq> cd_Ref winner) (lg_Candidates grp))),
                pv_Constraints = [Msg ''MANAGED_GUARDRAIL: managed-scope source constrains the result'' []]\<rparr>
               GuaranteeHard (host_reported (lg_Candidates grp))
               (Msg ''MANAGED_GUARDRAIL: the managed-scope source is authoritative'' []))
         | _ \<Rightarrow> Inl (conflictf grp program OpManagedGuardrail
             (Msg ''MANAGED_GUARDRAIL: %d managed-scope sources disagree'' [AInt (int (length distinctManaged))])))"

definition applyOperator ::
  "(json \<Rightarrow> string) \<Rightarrow> LogicalGroup \<Rightarrow> PrecedenceProgram \<Rightarrow> MergeOperator \<Rightarrow> Options \<Rightarrow> Conflict + EffectiveEntry" where
  "applyOperator dg grp program operator opts =
     (case operator of
        OpReplace \<Rightarrow> resolveByScopeRank grp program operator (op_ScopeRank opts)
      | OpUnionByID \<Rightarrow> resolveUnionByID grp program (op_ScopeRank opts)
      | OpDeepMerge \<Rightarrow> resolveDeepMerge dg grp program (op_ScopeRank opts)
      | OpConcatOrdered \<Rightarrow> resolveConcatWithinGroup grp program (op_ScopeRank opts)
      | OpFirstMatch \<Rightarrow> resolveFirstMatch grp program (op_ScopePriority opts)
      | OpNamespace \<Rightarrow> resolveNamespace grp program
      | OpDenyWins \<Rightarrow> resolveDenyWins grp program (op_DeniedRefs opts)
      | OpManagedGuardrail \<Rightarrow> resolveManagedGuardrail grp program
      | _ \<Rightarrow> Inl (conflictf grp program operator
          (Msg (''operator %s does not define a conflict winner (docs/ontology/README.md '' @ section_sign @ ''3.1)'')
             [AStr (MergeOperator_code operator)])))"

section \<open>Resolving one group\<close>

definition ResolveGroup ::
  "(json \<Rightarrow> string) \<Rightarrow> LogicalGroup \<Rightarrow> HostKnowledge \<Rightarrow> CapabilityOps \<Rightarrow> Options \<Rightarrow> Conflict + EffectiveEntry" where
  "ResolveGroup dg grp hk capOps opts =
     (let cands = lg_Candidates grp; lid = AStr (lg_LogicalID grp) in
      if cands = [] then
        Inl \<lparr>cn_Concept = lg_Concept grp, cn_LogicalID = lg_LogicalID grp, cn_Candidates = [], cn_Program = '''',
             cn_Operator = '''', cn_EvidenceLevel = EvOther '''', cn_Reason = Msg ''empty group'' []\<rparr>
      else let distincts = distinctByContent cands in
      (case distincts of
         [winner] \<Rightarrow>
           (let survivors = filter (\<lambda>c. \<not> isDenied c (op_DeniedRefs opts)) cands;
                deniedRefs = map cd_Ref (filter (\<lambda>c. isDenied c (op_DeniedRefs opts)) cands)
            in if deniedRefs \<noteq> [] then
                 (case survivors of
                    [] \<Rightarrow>
                      Inr (group_entry grp
                        (Provenance_zero\<lparr>pv_IgnoredSources := sort deniedRefs,
                           pv_Constraints := [Msg ''DENY_WINS: every candidate is denied'' []]\<rparr>)
                        GuaranteeHard (host_reported cands)
                        (Msg ''every physical source for %q is denied; nothing active'' [lid]))
                  | first # _ \<Rightarrow>
                      Inr (group_entry grp
                        (Provenance_zero\<lparr>pv_SelectedSource := cd_Ref first,
                           pv_ActiveSources := candidateRefs survivors,
                           pv_IgnoredSources := sort deniedRefs,
                           pv_Constraints := [Msg ''DENY_WINS: applicable denials removed the rest'' []]\<rparr>)
                        GuaranteeHard (host_reported cands)
                        (Msg ''%d of %d physical sources for %q are denied; the rest agree byte-for-byte''
                           [AInt (int (length deniedRefs)), AInt (int (length cands)), lid])))
               else
                 Inr (group_entry grp
                   (Provenance_zero\<lparr>pv_SelectedSource := cd_Ref winner, pv_ActiveSources := candidateRefs cands\<rparr>)
                   GuaranteeObserved False
                   (if 1 < length cands
                    then Msg ''%d physical sources for %q agree byte-for-byte; nothing to adjudicate''
                           [AInt (int (length cands)), lid]
                    else Msg ''only one physical source for %q'' [lid])))
       | _ \<Rightarrow>
           (let (program, ok) = LookupProgram hk (lg_Concept grp);
                operator = MergeOperator_of (pp_Operator program)
            in if \<not> ok \<or> \<not> MergeOperator_Valid operator then
                 Inl ((conflictf grp program operator
                   (Msg (''no usable precedence program for concept %q: %d sources disagree and either no PrecedenceProgram is declared or its operator (%q) is not one of the nine closed docs/ontology/README.md ''
                         @ section_sign @ ''3.1 operators -- an UNKNOWN/undeclared operator is never guessed past'')
                      [AStr (lg_Concept grp), AInt (int (length distincts)), AStr (pp_Operator program)]))
                   \<lparr>cn_Operator := pp_Operator program\<rparr>)
               else if \<not> capabilityQualified capOps then
                 Inl (conflictf grp program operator
                   (Msg ''precedence program %q declares operator %s for concept %q, but the Knowledge Pack's resolve capability is %q (not EXACT/COMPATIBLE); %d sources disagree and this package refuses to guess a winner''
                      [AStr (pp_ID program), AStr (MergeOperator_code operator), AStr (lg_Concept grp),
                       AStr (CapabilityLevel_code (co_Resolve capOps)), AInt (int (length distincts))]))
               else applyOperator dg grp program operator opts)))"

section \<open>Composition of a concept\<close>

text \<open>\<^verbatim>\<open>fmt.Sprintf("%v", refs)\<close>: the elements between brackets, separated by spaces.\<close>

definition render_refs :: "string list \<Rightarrow> string" where
  "render_refs refs = ''['' @ join_with '' '' refs @ '']''"

definition compose_reason :: string where
  "compose_reason = ''CONCAT_ORDERED: %d logical %s entities composed; all sources remain simultaneously active (concatenation never shadows)''"

definition ComposeConcept ::
  "string \<Rightarrow> LogicalGroup list \<Rightarrow> PrecedenceProgram \<Rightarrow> CapabilityOps \<Rightarrow> int gomap \<Rightarrow> EffectiveEntry" where
  "ComposeConcept concept groups program capOps scopeRank =
     (let all_cands = concat (map lg_Candidates groups);
          refs = candidateRefs all_cands;
          (ordered, orderConfirmed) = concatOrder all_cands scopeRank;
          qualified = capabilityQualified capOps;
          confirmed = (orderConfirmed \<and> qualified)
      in \<lparr>ee_Concept = concept, ee_LogicalID = concept @ ''.composition'', ee_Composed = True,
          ee_Provenance =
            \<lparr>pv_Program = pp_ID program, pv_Operator = OpConcatOrdered,
             pv_SelectedSource = (if confirmed then render_refs ordered else ''''),
             pv_ActiveSources = refs, pv_IgnoredSources = [], pv_Constraints = []\<rparr>,
          ee_EvidenceLevel = highestEvidence all_cands, ee_Guarantee = GuaranteeAdvisory,
          ee_Confirmed = (confirmed \<and> host_reported all_cands),
          ee_Reason =
            (if confirmed
             then Msg (compose_reason @ ''; confirmed order %v'')
                    [AInt (int (length groups)), AStr concept, AStrs ordered]
             else if \<not> qualified
             then Msg (compose_reason @ ''; exact composition order is unconfirmed (resolve capability is %q, not EXACT/COMPATIBLE)'')
                    [AInt (int (length groups)), AStr concept, AStr (CapabilityLevel_code (co_Resolve capOps))]
             else Msg (compose_reason @ ''; exact composition order is unconfirmed (no scope precedence order supplied)'')
                    [AInt (int (length groups)), AStr concept])\<rparr>)"

section \<open>Facts about candidates\<close>

lemma distinctByContent_subset: "set (distinctByContent cs) \<subseteq> set cs"
  by (simp add: distinctByContent_def dedup_on_subset)

lemma distinctByContent_digests: "cd_ContentDigest ` set (distinctByContent cs) = cd_ContentDigest ` set cs"
  by (simp add: distinctByContent_def)

lemma distinctByContent_Nil_iff [simp]: "distinctByContent cs = [] \<longleftrightarrow> cs = []"
  by (simp add: distinctByContent_def)

lemma distinctByContent_Nil [simp]: "distinctByContent [] = []"
  by simp

lemma distinctByContent_id:
  "distinct (map cd_ContentDigest cs) \<Longrightarrow> distinctByContent cs = sort_key cd_Ref cs"
  by (simp add: distinctByContent_def dedup_on_id)

lemma distinctByContent_same:
  assumes "distinctByContent cs = [w]" "c \<in> set cs"
  shows "cd_ContentDigest c = cd_ContentDigest w"
proof -
  have "cd_ContentDigest ` set cs = {cd_ContentDigest w}"
    using distinctByContent_digests [of cs] assms(1) by simp
  with assms(2) show ?thesis by blast
qed

lemma distinctByContent_single_mem: "distinctByContent cs = [w] \<Longrightarrow> w \<in> set cs"
  using distinctByContent_subset [of cs] by simp

lemma distinctByContent_single_iff:
  "(\<exists>w. distinctByContent cs = [w]) \<longleftrightarrow> cs \<noteq> [] \<and> (\<forall>a \<in> set cs. \<forall>b \<in> set cs. cd_ContentDigest a = cd_ContentDigest b)"
proof
  assume "\<exists>w. distinctByContent cs = [w]"
  then obtain w where w: "distinctByContent cs = [w]" ..
  then have "cs \<noteq> []" using distinctByContent_Nil_iff [of cs] by (cases cs) auto
  with distinctByContent_same [OF w] show "cs \<noteq> [] \<and> (\<forall>a \<in> set cs. \<forall>b \<in> set cs. cd_ContentDigest a = cd_ContentDigest b)"
    by metis
next
  assume r: "cs \<noteq> [] \<and> (\<forall>a \<in> set cs. \<forall>b \<in> set cs. cd_ContentDigest a = cd_ContentDigest b)"
  then obtain c where c: "c \<in> set cs" by (metis last_in_set)
  have "cd_ContentDigest ` set cs = {cd_ContentDigest c}" using r c by blast
  then have "cd_ContentDigest ` set (dedup_on cd_ContentDigest cs) = {cd_ContentDigest c}" by simp
  moreover have "distinct (map cd_ContentDigest (dedup_on cd_ContentDigest cs))" by simp
  ultimately have "length (map cd_ContentDigest (dedup_on cd_ContentDigest cs)) = card {cd_ContentDigest c}"
    using distinct_card by (metis list.set_map)
  then have "length (distinctByContent cs) = Suc 0" by (simp add: distinctByContent_def)
  then show "\<exists>w. distinctByContent cs = [w]" by (simp add: length_Suc_conv)
qed

lemma set_candidateRefs [simp]: "set (candidateRefs cs) = cd_Ref ` set cs"
  by (simp add: candidateRefs_def)

lemma highestEvidence_loop_cases:
  "highestEvidence_loop best cs = best \<or> highestEvidence_loop best cs \<in> cd_EvidenceLevel ` set cs"
proof (induction cs arbitrary: best)
  case (Cons c cs)
  show ?case using Cons.IH [of best] Cons.IH [of "cd_EvidenceLevel c"] by auto
qed simp

lemma highestEvidence_loop_ge:
  "EvidenceLevel_Rank best \<le> EvidenceLevel_Rank (highestEvidence_loop best cs) \<and>
   (\<forall>c \<in> set cs. EvidenceLevel_Rank (cd_EvidenceLevel c) \<le> EvidenceLevel_Rank (highestEvidence_loop best cs))"
proof (induction cs arbitrary: best)
  case (Cons c cs)
  show ?case using Cons.IH [of best] Cons.IH [of "cd_EvidenceLevel c"]
    by (auto intro: order_trans)
qed simp

lemma highestEvidence_ge:
  "c \<in> set cs \<Longrightarrow> EvidenceLevel_Rank (cd_EvidenceLevel c) \<le> EvidenceLevel_Rank (highestEvidence cs)"
  by (simp add: highestEvidence_def highestEvidence_loop_ge)

lemma highestEvidence_cases: "highestEvidence cs = EvDiscovered \<or> highestEvidence cs \<in> cd_EvidenceLevel ` set cs"
  unfolding highestEvidence_def by (rule highestEvidence_loop_cases)

lemma host_reported_witness:
  "host_reported cs \<Longrightarrow>
     \<exists>c \<in> set cs. EvidenceLevel_Rank EvHostReported \<le> EvidenceLevel_Rank (cd_EvidenceLevel c)"
  using highestEvidence_cases [of cs] by (auto simp: host_reported_def)

lemma LookupProgram_iff:
  "LookupProgram hk concept = (p, True) \<longleftrightarrow>
     filter (\<lambda>p. has_prefix (concept @ ''.'') (pp_ID p)) (hk_PrecedencePrograms hk) = [p]"
  by (auto simp: LookupProgram_def split: list.splits)

section \<open>The contract of a merge operator\<close>

text \<open>
  What every operator promises of its result, whichever it is: it speaks of the group it was given,
  names only sources of that group, selects only an active source, reports the group's highest evidence
  and confirms nothing below host-reported evidence; a conflict keeps every candidate.
\<close>

locale merge_operator =
  fixes resolve_group :: "LogicalGroup \<Rightarrow> Conflict + EffectiveEntry"
  assumes entry_identity:
      "resolve_group grp = Inr e \<Longrightarrow> ee_Concept e = lg_Concept grp \<and> ee_LogicalID e = lg_LogicalID grp \<and> \<not> ee_Composed e"
    and entry_sources:
      "resolve_group grp = Inr e \<Longrightarrow>
         set (pv_ActiveSources (ee_Provenance e)) \<union> set (pv_IgnoredSources (ee_Provenance e)) \<subseteq> cd_Ref ` set (lg_Candidates grp)"
    and entry_selected:
      "resolve_group grp = Inr e \<Longrightarrow>
         pv_SelectedSource (ee_Provenance e) = [] \<or> pv_SelectedSource (ee_Provenance e) \<in> set (pv_ActiveSources (ee_Provenance e))"
    and entry_evidence:
      "resolve_group grp = Inr e \<Longrightarrow> ee_EvidenceLevel e = highestEvidence (lg_Candidates grp)"
    and entry_confirmed:
      "resolve_group grp = Inr e \<Longrightarrow> ee_Confirmed e \<Longrightarrow> host_reported (lg_Candidates grp)"
    and conflict_identity:
      "resolve_group grp = Inl c \<Longrightarrow> cn_Concept c = lg_Concept grp \<and> cn_LogicalID c = lg_LogicalID grp"
    and conflict_keeps_candidates:
      "resolve_group grp = Inl c \<Longrightarrow> cn_Candidates c = lg_Candidates grp"
begin

lemma selected_is_candidate:
  "resolve_group grp = Inr e \<Longrightarrow> pv_SelectedSource (ee_Provenance e) \<noteq> [] \<Longrightarrow>
   \<exists>c \<in> set (lg_Candidates grp). cd_Ref c = pv_SelectedSource (ee_Provenance e)"
  using entry_selected [of grp e] entry_sources [of grp e] by fastforce

lemma confirmed_has_evidence:
  "resolve_group grp = Inr e \<Longrightarrow> ee_Confirmed e \<Longrightarrow>
   \<exists>c \<in> set (lg_Candidates grp). EvidenceLevel_Rank EvHostReported \<le> EvidenceLevel_Rank (cd_EvidenceLevel c)"
  using entry_confirmed host_reported_witness by blast

lemma evidence_of_group:
  "resolve_group grp = Inr e \<Longrightarrow> c \<in> set (lg_Candidates grp) \<Longrightarrow>
   EvidenceLevel_Rank (cd_EvidenceLevel c) \<le> EvidenceLevel_Rank (ee_EvidenceLevel e)"
  using entry_evidence highestEvidence_ge by metis

lemma result_keys:
  "case resolve_group grp of
     Inl c \<Rightarrow> cn_Concept c = lg_Concept grp \<and> cn_LogicalID c = lg_LogicalID grp
   | Inr e \<Rightarrow> ee_Concept e = lg_Concept grp \<and> ee_LogicalID e = lg_LogicalID grp"
  by (cases "resolve_group grp") (auto dest: conflict_identity entry_identity)

end

lemma group_entry_simps [simp]:
  "ee_Concept (group_entry grp prov guar conf r) = lg_Concept grp"
  "ee_LogicalID (group_entry grp prov guar conf r) = lg_LogicalID grp"
  "ee_Composed (group_entry grp prov guar conf r) = False"
  "ee_Provenance (group_entry grp prov guar conf r) = prov"
  "ee_EvidenceLevel (group_entry grp prov guar conf r) = highestEvidence (lg_Candidates grp)"
  "ee_Guarantee (group_entry grp prov guar conf r) = guar"
  "ee_Confirmed (group_entry grp prov guar conf r) = conf"
  "ee_Reason (group_entry grp prov guar conf r) = r"
  by (simp_all add: group_entry_def)

lemma conflictf_simps [simp]:
  "cn_Concept (conflictf grp p oper r) = lg_Concept grp"
  "cn_LogicalID (conflictf grp p oper r) = lg_LogicalID grp"
  "cn_Candidates (conflictf grp p oper r) = lg_Candidates grp"
  by (simp_all add: conflictf_def)

text \<open>The contract follows from the shape of a result.\<close>

definition well_formed_result :: "LogicalGroup \<Rightarrow> Conflict + EffectiveEntry \<Rightarrow> bool" where
  "well_formed_result grp r \<longleftrightarrow>
     (case r of
        Inl c \<Rightarrow> cn_Concept c = lg_Concept grp \<and> cn_LogicalID c = lg_LogicalID grp \<and> cn_Candidates c = lg_Candidates grp
      | Inr e \<Rightarrow> ee_Concept e = lg_Concept grp \<and> ee_LogicalID e = lg_LogicalID grp \<and> \<not> ee_Composed e \<and>
          set (pv_ActiveSources (ee_Provenance e)) \<union> set (pv_IgnoredSources (ee_Provenance e)) \<subseteq> cd_Ref ` set (lg_Candidates grp) \<and>
          (pv_SelectedSource (ee_Provenance e) = [] \<or> pv_SelectedSource (ee_Provenance e) \<in> set (pv_ActiveSources (ee_Provenance e))) \<and>
          ee_EvidenceLevel e = highestEvidence (lg_Candidates grp) \<and>
          (ee_Confirmed e \<longrightarrow> host_reported (lg_Candidates grp)))"

lemma merge_operatorI: "(\<And>grp. well_formed_result grp (f grp)) \<Longrightarrow> merge_operator f"
proof -
  assume wf: "\<And>grp. well_formed_result grp (f grp)"
  have c: "cn_Concept c = lg_Concept grp \<and> cn_LogicalID c = lg_LogicalID grp \<and> cn_Candidates c = lg_Candidates grp"
    if "f grp = Inl c" for grp c
    using wf [of grp] that by (simp add: well_formed_result_def)
  have e: "ee_Concept e = lg_Concept grp \<and> ee_LogicalID e = lg_LogicalID grp \<and> \<not> ee_Composed e \<and>
      set (pv_ActiveSources (ee_Provenance e)) \<union> set (pv_IgnoredSources (ee_Provenance e)) \<subseteq> cd_Ref ` set (lg_Candidates grp) \<and>
      (pv_SelectedSource (ee_Provenance e) = [] \<or> pv_SelectedSource (ee_Provenance e) \<in> set (pv_ActiveSources (ee_Provenance e))) \<and>
      ee_EvidenceLevel e = highestEvidence (lg_Candidates grp) \<and> (ee_Confirmed e \<longrightarrow> host_reported (lg_Candidates grp))"
    if "f grp = Inr e" for grp e
    using wf [of grp] that by (simp add: well_formed_result_def)
  show "merge_operator f"
    by (unfold_locales; insert c e; blast)
qed

lemma well_formed_conflictf [simp]: "well_formed_result grp (Inl (conflictf grp p oper r))"
  by (simp add: well_formed_result_def)

lemma well_formed_group_entry:
  "well_formed_result grp (Inr (group_entry grp prov guar conf r)) \<longleftrightarrow>
     set (pv_ActiveSources prov) \<union> set (pv_IgnoredSources prov) \<subseteq> cd_Ref ` set (lg_Candidates grp) \<and>
     (pv_SelectedSource prov = [] \<or> pv_SelectedSource prov \<in> set (pv_ActiveSources prov)) \<and>
     (conf \<longrightarrow> host_reported (lg_Candidates grp))"
  by (simp add: well_formed_result_def)

lemma scopeRank_loop_winners:
  "scopeRank_loop ranks best ws cs = Inr (b, ws') \<Longrightarrow> set ws' \<subseteq> set ws \<union> set cs"
  by (induction ranks best ws cs rule: scopeRank_loop.induct) (auto split: option.splits if_splits)

lemma firstMatch_loop_winners: "set (firstMatch_loop pr best ws cs) \<subseteq> set ws \<union> set cs"
  by (induction pr best ws cs rule: firstMatch_loop.induct) (auto simp: Let_def split: if_splits)

lemma resolveByScopeRank_wf: "well_formed_result grp (resolveByScopeRank grp p oper ranks)"
proof -
  have "cd_Ref w \<in> cd_Ref ` set (lg_Candidates grp)"
    if "scopeRank_loop ranks (- 1) [] (distinctByContent (lg_Candidates grp)) = Inr (b, [w])" for b w
    using scopeRank_loop_winners [OF that] distinctByContent_subset [of "lg_Candidates grp"] by auto
  moreover have "cd_Ref ` {x \<in> set (distinctByContent (lg_Candidates grp)). P x} \<subseteq> cd_Ref ` set (lg_Candidates grp)" for P
    using distinctByContent_subset [of "lg_Candidates grp"] by auto
  ultimately show ?thesis
    by (auto simp: resolveByScopeRank_def Let_def well_formed_group_entry split: sum.splits list.splits)
qed

lemma resolveDeepMerge_wf: "well_formed_result grp (resolveDeepMerge dg grp p ranks)"
  by (auto simp: resolveDeepMerge_def Let_def well_formed_group_entry split: sum.splits option.splits)

lemma resolveConcatWithinGroup_wf: "well_formed_result grp (resolveConcatWithinGroup grp p ranks)"
  by (auto simp: resolveConcatWithinGroup_def Let_def well_formed_group_entry split: prod.splits)

lemma resolveFirstMatch_wf: "well_formed_result grp (resolveFirstMatch grp p pr)"
proof -
  have "cd_Ref w \<in> cd_Ref ` set (lg_Candidates grp)"
    if "firstMatch_loop pr b [] (distinctByContent (lg_Candidates grp)) = [w]" for b w
    using firstMatch_loop_winners [of pr b "[]" "distinctByContent (lg_Candidates grp)"]
      distinctByContent_subset [of "lg_Candidates grp"] that by auto
  then show ?thesis
    by (auto simp: resolveFirstMatch_def Let_def well_formed_group_entry split: option.splits list.splits)
qed

lemma resolveNamespace_wf: "well_formed_result grp (resolveNamespace grp p)"
  by (auto simp: resolveNamespace_def Let_def well_formed_group_entry)

lemma resolveDenyWins_wf: "well_formed_result grp (resolveDenyWins grp p denied)"
proof -
  let ?D = "distinctByContent (filter (\<lambda>c. \<not> isDenied c denied) (lg_Candidates grp))"
  show ?thesis
  proof (cases ?D)
    case Nil
    then show ?thesis by (auto simp: resolveDenyWins_def Let_def well_formed_group_entry)
  next
    case (Cons w rest)
    have "w \<in> set ?D" using Cons by simp
    then have w: "w \<in> set (filter (\<lambda>c. \<not> isDenied c denied) (lg_Candidates grp))" using distinctByContent_subset by blast
    show ?thesis
    proof (cases rest)
      case Nil
      with Cons w show ?thesis by (auto simp: resolveDenyWins_def Let_def well_formed_group_entry)
    next
      case (Cons w' rest')
      with \<open>?D = w # rest\<close> show ?thesis by (simp add: resolveDenyWins_def Let_def)
    qed
  qed
qed

lemma resolveManagedGuardrail_wf: "well_formed_result grp (resolveManagedGuardrail grp p)"
proof -
  let ?D = "distinctByContent (filter (\<lambda>c. osc_Kind (cd_Scope c) = ''managed'') (lg_Candidates grp))"
  show ?thesis
  proof (cases ?D)
    case Nil
    then show ?thesis by (auto simp: resolveManagedGuardrail_def Let_def well_formed_group_entry)
  next
    case (Cons w rest)
    have "w \<in> set ?D" using Cons by simp
    then have w: "w \<in> set (filter (\<lambda>c. osc_Kind (cd_Scope c) = ''managed'') (lg_Candidates grp))" using distinctByContent_subset by blast
    show ?thesis
    proof (cases rest)
      case Nil
      with Cons w show ?thesis by (auto simp: resolveManagedGuardrail_def Let_def well_formed_group_entry)
    next
      case (Cons w' rest')
      with \<open>?D = w # rest\<close> show ?thesis by (simp add: resolveManagedGuardrail_def Let_def)
    qed
  qed
qed

lemmas operator_wf = resolveByScopeRank_wf resolveDeepMerge_wf resolveConcatWithinGroup_wf
  resolveFirstMatch_wf resolveNamespace_wf resolveDenyWins_wf resolveManagedGuardrail_wf

lemma applyOperator_wf: "well_formed_result grp (applyOperator dg grp p oper opts)"
  by (auto simp: applyOperator_def resolveUnionByID_def operator_wf split: MergeOperator.splits)

lemma ResolveGroup_wf: "well_formed_result grp (ResolveGroup dg grp hk ops opts)"
proof -
  let ?d = "filter (\<lambda>c. isDenied c (op_DeniedRefs opts)) (lg_Candidates grp)"
    and ?s = "filter (\<lambda>c. \<not> isDenied c (op_DeniedRefs opts)) (lg_Candidates grp)"
  have c: "well_formed_result grp (Inl (conflictf grp p oper r\<lparr>cn_Operator := x\<rparr>))" for p oper r x
    by (simp add: well_formed_result_def)
  have e: "well_formed_result grp (Inl \<lparr>cn_Concept = lg_Concept grp, cn_LogicalID = lg_LogicalID grp,
      cn_Candidates = [], cn_Program = a, cn_Operator = b, cn_EvidenceLevel = l, cn_Reason = r\<rparr>)"
    if "lg_Candidates grp = []" for a b l r using that by (simp add: well_formed_result_def)
  have first: "cd_Ref first \<in> cd_Ref ` set ?s" if "?s = first # rest" for first rest
    using that by (metis image_eqI list.set_intros(1))
  show ?thesis
    unfolding ResolveGroup_def Let_def
    by (auto simp: c e applyOperator_wf well_formed_group_entry Provenance_zero_def case_prod_beta
        dest: first distinctByContent_single_mem split: list.split)
qed

interpretation replace_op: merge_operator "\<lambda>grp. resolveByScopeRank grp p oper ranks" for p oper ranks
  by (rule merge_operatorI) (rule resolveByScopeRank_wf)

interpretation deep_merge_op: merge_operator "\<lambda>grp. resolveDeepMerge dg grp p ranks" for dg p ranks
  by (rule merge_operatorI) (rule resolveDeepMerge_wf)

interpretation concat_op: merge_operator "\<lambda>grp. resolveConcatWithinGroup grp p ranks" for p ranks
  by (rule merge_operatorI) (rule resolveConcatWithinGroup_wf)

interpretation first_match_op: merge_operator "\<lambda>grp. resolveFirstMatch grp p pr" for p pr
  by (rule merge_operatorI) (rule resolveFirstMatch_wf)

interpretation namespace_op: merge_operator "\<lambda>grp. resolveNamespace grp p" for p
  by (rule merge_operatorI) (rule resolveNamespace_wf)

interpretation deny_wins_op: merge_operator "\<lambda>grp. resolveDenyWins grp p denied" for p denied
  by (rule merge_operatorI) (rule resolveDenyWins_wf)

interpretation guardrail_op: merge_operator "\<lambda>grp. resolveManagedGuardrail grp p" for p
  by (rule merge_operatorI) (rule resolveManagedGuardrail_wf)

interpretation group_op: merge_operator "\<lambda>grp. ResolveGroup dg grp hk ops opts" for dg hk ops opts
  by (rule merge_operatorI) (rule ResolveGroup_wf)

section \<open>Scope ranks\<close>

lemma scopeRank_loop_ranked:
  assumes "\<forall>c \<in> set cs. map_of ranks (osc_Kind (cd_Scope c)) = Some (rank_of ranks c) \<and> best \<le> r \<and> rank_of ranks c \<le> r"
    and "\<exists>c \<in> set cs. rank_of ranks c = r" "best < r"
  shows "scopeRank_loop ranks best ws cs = Inr (r, filter (\<lambda>c. rank_of ranks c = r) cs)"
proof -
  have at_max: "scopeRank_loop ranks r ws cs = Inr (r, ws @ filter (\<lambda>c. rank_of ranks c = r) cs)"
    if "\<forall>c \<in> set cs. map_of ranks (osc_Kind (cd_Scope c)) = Some (rank_of ranks c) \<and> rank_of ranks c \<le> r" for ws cs
    using that by (induction cs arbitrary: ws) auto
  show ?thesis using assms
  proof (induction cs arbitrary: best ws)
    case (Cons c cs)
    have c: "map_of ranks (osc_Kind (cd_Scope c)) = Some (rank_of ranks c)" "rank_of ranks c \<le> r"
      using Cons.prems(1) by simp_all
    show ?case
    proof (cases "rank_of ranks c = r")
      case True
      with c Cons.prems at_max [of cs "[c]"] show ?thesis by simp
    next
      case False
      with c(2) have lt: "rank_of ranks c < r" by simp
      with Cons.prems(2) have ex: "\<exists>c \<in> set cs. rank_of ranks c = r" by auto
      have "scopeRank_loop ranks b ws' cs = Inr (r, filter (\<lambda>c. rank_of ranks c = r) cs)" if "b < r" for b ws'
        by (rule Cons.IH) (use Cons.prems(1) ex that in auto)
      with c lt Cons.prems(3) show ?thesis by simp
    qed
  qed simp
qed

text \<open>The candidate \<open>w\<close> outranks every other candidate of the list.\<close>

definition outranks_all :: "int gomap \<Rightarrow> Candidate \<Rightarrow> Candidate list \<Rightarrow> bool" where
  "outranks_all ranks w cs \<longleftrightarrow> w \<in> set cs \<and> (\<forall>c \<in> set cs. c \<noteq> w \<longrightarrow> rank_of ranks c < rank_of ranks w)"

definition ranked :: "int gomap \<Rightarrow> Candidate list \<Rightarrow> bool" where
  "ranked ranks cs \<longleftrightarrow> (\<forall>c \<in> set cs. \<exists>r. map_of ranks (osc_Kind (cd_Scope c)) = Some r \<and> 0 \<le> r)"

lemma ranked_rank_of: "ranked ranks cs \<Longrightarrow> c \<in> set cs \<Longrightarrow> map_of ranks (osc_Kind (cd_Scope c)) = Some (rank_of ranks c) \<and> 0 \<le> rank_of ranks c"
  by (auto simp: ranked_def rank_of_def map_get_def)

lemma scopeRank_winners:
  assumes "ranked ranks cs" "cs \<noteq> []" "distinct cs"
  shows "\<exists>b ws. scopeRank_loop ranks (- 1) [] cs = Inr (b, ws) \<and> ws \<noteq> [] \<and> (\<forall>w. ws = [w] \<longleftrightarrow> outranks_all ranks w cs)"
proof -
  let ?r = "Max (rank_of ranks ` set cs)"
  have ex: "\<exists>c \<in> set cs. rank_of ranks c = ?r"
  proof -
    have "?r \<in> rank_of ranks ` set cs" using assms(2) by (intro Max_in) auto
    then show ?thesis by force
  qed
  have le: "rank_of ranks c \<le> ?r" if "c \<in> set cs" for c using that by simp
  have "- 1 < ?r" using ex ranked_rank_of [OF assms(1)] by force
  then have run: "scopeRank_loop ranks (- 1) [] cs = Inr (?r, filter (\<lambda>c. rank_of ranks c = ?r) cs)"
    using ranked_rank_of [OF assms(1)] le ex by (intro scopeRank_loop_ranked) auto
  have "filter (\<lambda>c. rank_of ranks c = ?r) cs = [w] \<longleftrightarrow> outranks_all ranks w cs" for w
  proof
    assume f: "filter (\<lambda>c. rank_of ranks c = ?r) cs = [w]"
    have "set (filter (\<lambda>c. rank_of ranks c = ?r) cs) = {w}" by (simp only: f) simp
    then have iff: "c \<in> set cs \<and> rank_of ranks c = ?r \<longleftrightarrow> c = w" for c by (simp add: set_eq_iff)
    then have "rank_of ranks c < rank_of ranks w" if "c \<in> set cs" "c \<noteq> w" for c
      using le [OF that(1)] that by (metis less_le)
    with iff show "outranks_all ranks w cs" by (auto simp: outranks_all_def)
  next
    assume o: "outranks_all ranks w cs"
    from ex obtain c where "c \<in> set cs" "rank_of ranks c = ?r" by blast
    with o le have "rank_of ranks w = ?r" unfolding outranks_all_def by (metis leD)
    with o have "set (filter (\<lambda>c. rank_of ranks c = ?r) cs) = {w}" by (auto simp: outranks_all_def)
    moreover have "distinct (filter (\<lambda>c. rank_of ranks c = ?r) cs)" using assms(3) by simp
    ultimately have "length (filter (\<lambda>c. rank_of ranks c = ?r) cs) = card {w}" using distinct_card by metis
    then obtain v where "filter (\<lambda>c. rank_of ranks c = ?r) cs = [v]" by (auto simp: length_Suc_conv)
    with \<open>set _ = {w}\<close> show "filter (\<lambda>c. rank_of ranks c = ?r) cs = [w]" by simp
  qed
  moreover have "filter (\<lambda>c. rank_of ranks c = ?r) cs \<noteq> []" using ex by (auto simp: filter_empty_conv)
  ultimately show ?thesis using run by blast
qed

text \<open>Merging: the value at a path of nested objects.\<close>

fun leaf_at :: "json gomap \<Rightarrow> string list \<Rightarrow> json option" where
  "leaf_at m [] = None"
| "leaf_at m (k # ks) =
     (case map_of m k of
        None \<Rightarrow> None
      | Some v \<Rightarrow> if ks = [] then Some v else (case v of JObj m' \<Rightarrow> leaf_at m' ks | _ \<Rightarrow> None))"

definition scalar :: "json \<Rightarrow> bool" where
  "scalar v \<longleftrightarrow> (\<nexists>m. v = JObj m)"

text \<open>Induction over the merged object: over its entries, and into the objects among its values.\<close>

lemma merge_induct [case_names Nil Cons]:
  assumes nil: "\<And>dst path ok. P dst [] path ok"
    and cons: "\<And>dst k v src path ok. (\<And>dst path ok. P dst src path ok) \<Longrightarrow>
      (\<And>dst vm path. v = JObj vm \<Longrightarrow> P dst vm path True) \<Longrightarrow> P dst ((k, v) # src) path ok"
  shows "P dst src path ok"
proof (induction "size_list (\<lambda>kv. Suc (size (snd kv))) src" arbitrary: dst src path ok rule: less_induct)
  case less
  show ?case
  proof (cases src)
    case Nil
    with nil show ?thesis by simp
  next
    case (Cons kv rest)
    obtain k v where kv: "kv = (k, v)" by (cases kv)
    show ?thesis unfolding Cons kv
      by (rule cons; rule less) (simp_all add: Cons kv size_obj)
  qed
qed

lemma deepMerge_not_ok: "deepMerge_loop dg dst src path False = (d, q, b) \<Longrightarrow> \<not> b"
proof (induction dst src path False arbitrary: d q b rule: merge_induct)
  case (Cons dst k v src path)
  have ih: False if "deepMerge_loop dg dst src path False = (d, q, True)" for dst path d q
    using Cons.hyps(1) [OF that] by simp
  show ?case
    using Cons.prems by (cases b) (auto simp: Let_def dest: ih split: option.splits if_splits prod.splits)
qed simp

lemma leaf_at_cong: "map_of m (hd ks) = map_of m' (hd ks) \<Longrightarrow> leaf_at m ks = leaf_at m' ks"
  by (cases ks) simp_all

definition keeps_leaves :: "json gomap \<Rightarrow> json gomap \<Rightarrow> bool" where
  "keeps_leaves dst merged \<longleftrightarrow> (\<forall>ks v. leaf_at dst ks = Some v \<longrightarrow> scalar v \<longrightarrow> leaf_at merged ks = Some v)"

definition has_leaves :: "(json \<Rightarrow> string) \<Rightarrow> json gomap \<Rightarrow> json gomap \<Rightarrow> bool" where
  "has_leaves dg src merged \<longleftrightarrow>
     (\<forall>ks v. leaf_at src ks = Some v \<longrightarrow> scalar v \<longrightarrow>
        (\<exists>v'. leaf_at merged ks = Some v' \<and> scalar v' \<and> CanonicalDigest dg v' = CanonicalDigest dg v))"

text \<open>No object has the digest of a value that is not an object.\<close>

definition objects_apart :: "(json \<Rightarrow> string) \<Rightarrow> bool" where
  "objects_apart dg \<longleftrightarrow> (\<forall>m v. scalar v \<longrightarrow> dg (canon (JObj m)) \<noteq> dg (canon v))"

lemma has_leaves_step:
  assumes v: "\<And>ks u. (if ks = [] then v = u else (\<exists>m. v = JObj m \<and> leaf_at m ks = Some u)) \<Longrightarrow> scalar u \<Longrightarrow>
      \<exists>u'. leaf_at merged (k # ks) = Some u' \<and> scalar u' \<and> CanonicalDigest dg u' = CanonicalDigest dg u"
    and rest: "has_leaves dg src merged"
  shows "has_leaves dg ((k, v) # src) merged"
  unfolding has_leaves_def
proof (intro allI impI)
  fix ks u assume u: "leaf_at ((k, v) # src) ks = Some u" "scalar u"
  then obtain k' ks' where ks: "ks = k' # ks'" by (cases ks) auto
  show "\<exists>u'. leaf_at merged ks = Some u' \<and> scalar u' \<and> CanonicalDigest dg u' = CanonicalDigest dg u"
  proof (cases "k' = k")
    case True
    with u ks have "if ks' = [] then v = u else (\<exists>m. v = JObj m \<and> leaf_at m ks' = Some u)"
      by (auto split: json.splits if_splits)
    with v u(2) True ks show ?thesis by blast
  next
    case False
    then have "leaf_at ((k, v) # src) ks = leaf_at src ks" by (intro leaf_at_cong) (simp add: ks)
    with rest u show ?thesis by (simp add: has_leaves_def)
  qed
qed

lemma leaf_at_put:
  "leaf_at dst ks = Some u \<Longrightarrow> scalar u \<Longrightarrow>
     (map_of dst k = None \<or> (\<exists>em. map_of dst k = Some (JObj em) \<and> x = JObj m \<and> keeps_leaves em m)) \<Longrightarrow>
     leaf_at (map_put k x dst) ks = Some u"
  by (cases ks) (auto simp: keeps_leaves_def scalar_def split: option.splits if_splits json.splits)

lemma deepMerge_leaves:
  assumes apart: "objects_apart dg"
  shows "deepMerge_loop dg dst src path ok = (merged, q, True) \<Longrightarrow> json_wf (JObj src) \<Longrightarrow>
     keeps_leaves dst merged \<and> has_leaves dg src merged"
proof (induction dst src path ok arbitrary: merged q rule: merge_induct)
  case (Nil dst path ok)
  have "leaf_at [] ks = None" for ks by (cases ks) auto
  with Nil show ?case by (auto simp: keeps_leaves_def has_leaves_def split: if_splits)
next
  case (Cons dst k v src path ok)
  define p where "p = (if path \<noteq> [] then path @ ''.'' @ k else k)"
  have wf: "json_wf (JObj src)" "json_wf v" using Cons.prems(2) by (auto simp: json_wf_Obj_iff)
  note run = Cons.prems(1) [unfolded deepMerge_loop.simps(2) p_def [symmetric] Let_def]
  have put: "leaf_at (map_put k x dst) (k # ks) = (if ks = [] then Some x else (case x of JObj m \<Rightarrow> leaf_at m ks | _ \<Rightarrow> None))"
    for x ks by simp
  show ?case
  proof (cases "map_of dst k")
    case None
    with run have "deepMerge_loop dg (map_put k v dst) src path ok = (merged, q, True)" by simp
    from Cons.IH(1) [OF this wf(1)] have ih: "keeps_leaves (map_put k v dst) merged" "has_leaves dg src merged" by auto
    have "has_leaves dg ((k, v) # src) merged"
    proof (rule has_leaves_step [OF _ ih(2)])
      fix ks u assume u: "if ks = [] then v = u else (\<exists>m. v = JObj m \<and> leaf_at m ks = Some u)" "scalar u"
      then have "leaf_at (map_put k v dst) (k # ks) = Some u" by (auto simp: put split: if_splits)
      with ih(1) u(2) show "\<exists>u'. leaf_at merged (k # ks) = Some u' \<and> scalar u' \<and> CanonicalDigest dg u' = CanonicalDigest dg u"
        unfolding keeps_leaves_def by blast
    qed
    moreover have "keeps_leaves dst merged"
      using ih(1) leaf_at_put [of dst _ _ k v] None by (auto simp: keeps_leaves_def)
    ultimately show ?thesis by simp
  next
    case (Some existing)
    show ?thesis
    proof (cases "both_maps existing v")
      case (Some mn)
      then obtain em vm where ev: "existing = JObj em" "v = JObj vm" "both_maps existing v = Some (em, vm)"
        by (metis both_maps_Some_iff surj_pair)
      obtain m cp cok where child: "deepMerge_loop dg em vm p True = (m, cp, cok)" by (metis prod_cases3)
      from run \<open>map_of dst k = Some existing\<close> ev(3) child have cok: "cok"
        and rest: "deepMerge_loop dg (map_put k (JObj m) dst) src path ok = (merged, q, True)"
        by (auto split: if_splits)
      have ih1: "keeps_leaves em m" "has_leaves dg vm m"
        using Cons.IH(2) [OF ev(2)] child cok wf(2) ev(2) by auto
      have ih2: "keeps_leaves (map_put k (JObj m) dst) merged" "has_leaves dg src merged"
        using Cons.IH(1) [OF rest wf(1)] by auto
      have "keeps_leaves dst merged"
        using ih2(1) leaf_at_put [of dst _ _ k "JObj m" m] ih1(1) \<open>map_of dst k = Some existing\<close> ev(1)
        by (auto simp: keeps_leaves_def)
      moreover have "has_leaves dg ((k, v) # src) merged"
      proof (rule has_leaves_step [OF _ ih2(2)])
        fix ks u assume u: "if ks = [] then v = u else (\<exists>m. v = JObj m \<and> leaf_at m ks = Some u)" "scalar u"
        then have ks: "ks \<noteq> []" "leaf_at vm ks = Some u" using ev(2) by (auto simp: scalar_def split: if_splits)
        with ih1(2) u(2) obtain u' where u': "leaf_at m ks = Some u'" "scalar u'" "CanonicalDigest dg u' = CanonicalDigest dg u"
          by (auto simp: has_leaves_def)
        then have "leaf_at (map_put k (JObj m) dst) (k # ks) = Some u'" using ks(1) by simp
        with ih2(1) u' show "\<exists>u'. leaf_at merged (k # ks) = Some u' \<and> scalar u' \<and> CanonicalDigest dg u' = CanonicalDigest dg u"
          unfolding keeps_leaves_def by blast
      qed
      ultimately show ?thesis by simp
    next
      case None
      have eq: "valuesEqual dg existing v"
      proof (rule ccontr)
        assume "\<not> valuesEqual dg existing v"
        with run Some None have "deepMerge_loop dg (map_put k v dst) src p False = (merged, q, True)" by simp
        then show False using deepMerge_not_ok by blast
      qed
      with run Some None have rest: "deepMerge_loop dg dst src path ok = (merged, q, True)" by simp
      have ih: "keeps_leaves dst merged" "has_leaves dg src merged" using Cons.IH(1) [OF rest wf(1)] by auto
      have sc: "scalar existing" "scalar v"
      proof -
        have dig: "dg (canon existing) = dg (canon v)" using eq by (simp add: valuesEqual_def CanonicalDigest_def)
        have no: "\<not> (\<exists>a b. existing = JObj a \<and> v = JObj b)" using None by auto
        have ap: "dg (canon (JObj m)) \<noteq> dg (canon u)" if "scalar u" for m u
          using apart that unfolding objects_apart_def by blast
        show "scalar existing"
        proof (rule ccontr)
          assume "\<not> scalar existing"
          then obtain a where a: "existing = JObj a" by (auto simp: scalar_def)
          with no have "scalar v" by (auto simp: scalar_def)
          with ap a dig show False by blast
        qed
        then show "scalar v"
        proof (rule contrapos_pp)
          assume "\<not> scalar v"
          then obtain a where a: "v = JObj a" by (auto simp: scalar_def)
          with ap dig show "\<not> scalar existing" by metis
        qed
      qed
      have "has_leaves dg ((k, v) # src) merged"
      proof (rule has_leaves_step [OF _ ih(2)])
        fix ks u assume u: "if ks = [] then v = u else (\<exists>m. v = JObj m \<and> leaf_at m ks = Some u)" "scalar u"
        with sc(2) have ks: "ks = []" "u = v" by (auto simp: scalar_def split: if_splits)
        have "leaf_at merged [k] = Some existing"
        proof -
          have "leaf_at dst [k] = Some existing" using Some by simp
          with ih(1) sc(1) show ?thesis unfolding keeps_leaves_def by blast
        qed
        with ks eq sc(1) show "\<exists>u'. leaf_at merged (k # ks) = Some u' \<and> scalar u' \<and> CanonicalDigest dg u' = CanonicalDigest dg u"
          by (auto simp: valuesEqual_def)
      qed
      with ih(1) show ?thesis by simp
    qed
  qed
qed

lemma ranked_set_cong: "set cs = set cs' \<Longrightarrow> ranked ranks cs = ranked ranks cs'"
  by (simp add: ranked_def)

lemma outranks_all_set_cong: "set cs = set cs' \<Longrightarrow> outranks_all ranks w cs = outranks_all ranks w cs'"
  by (simp add: outranks_all_def)

lemma distinctByContent_sort:
  assumes "distinct (map cd_ContentDigest cs)"
  shows "set (distinctByContent cs) = set cs" "distinct (distinctByContent cs)"
  using assms by (auto simp: distinctByContent_id distinct_map)

text \<open>Sample values for the witnesses.\<close>

fun sample_digest :: "json \<Rightarrow> string" where
  "sample_digest (JNum n) = ''n'' @ n"
| "sample_digest (JStr s) = ''s'' @ s"
| "sample_digest (JObj m) = ''o''"
| "sample_digest v = ''?''"

definition sample_candidate :: "string \<Rightarrow> string \<Rightarrow> string \<Rightarrow> EvidenceLevel \<Rightarrow> json gomap option \<Rightarrow> Candidate" where
  "sample_candidate ref scope digest level fs =
     \<lparr>cd_Concept = ''skill'', cd_LogicalID = ''s'', cd_Ref = ref,
      cd_Scope = \<lparr>osc_Kind = scope, osc_Root = '''', osc_Selector = '''', osc_Shared = False, osc_TrustRequired = False\<rparr>,
      cd_Source = \<lparr>os_Kind = ''file'', os_Path = ref, os_Digest = ''''\<rparr>,
      cd_Disposition = DispActive, cd_EvidenceLevel = level, cd_Fields = fs, cd_ContentDigest = digest, cd_Tools = []\<rparr>"

definition sample_group :: "Candidate list \<Rightarrow> LogicalGroup" where
  "sample_group cs = \<lparr>lg_Concept = ''skill'', lg_LogicalID = ''s'', lg_Candidates = cs\<rparr>"

definition sample_ops :: CapabilityOps where
  "sample_ops = CapabilityOps_zero\<lparr>co_Resolve := CapExact\<rparr>"

definition sample_program :: "string \<Rightarrow> PrecedenceProgram" where
  "sample_program oper = PrecedenceProgram_zero\<lparr>pp_ID := ''skill.p'', pp_Operator := oper\<rparr>"

definition sample_knowledge :: "PrecedenceProgram list \<Rightarrow> HostKnowledge" where
  "sample_knowledge ps =
     \<lparr>hk_APIVersion = '''', hk_Kind = '''', hk_ID = ''pack'', hk_Host = ''codex'', hk_Surface = ''cli'',
      hk_VersionRange = ''0.1'', hk_Platforms = [], hk_ObservedAt = '''', hk_RecheckAfter = '''',
      hk_Status = KnowledgeFresh, hk_Evidence = [], hk_Capabilities = [(''skill'', sample_ops)],
      hk_PrecedencePrograms = ps, hk_KnownUnknowns = []\<rparr>"

definition sample_options :: Options where
  "sample_options = \<lparr>op_ScopeRank = [(''user'', 0), (''project'', 1), (''managed'', 2)],
     op_ScopePriority = [''managed'', ''project'', ''user''], op_DeniedRefs = []\<rparr>"

section \<open>Properties\<close>

text \<open>Whichever path a group takes, its result speaks only of that group: an entry keeps the concept
and identifier, its active and ignored sources are references of the group's candidates, a selected source
is active, and the evidence it reports is at least that of every candidate.\<close>

theorem resolve_group_provenance:
  assumes "ResolveGroup dg grp hk ops opts = Inr e"
  shows "ee_Concept e = lg_Concept grp \<and> ee_LogicalID e = lg_LogicalID grp \<and>
     set (pv_ActiveSources (ee_Provenance e)) \<union> set (pv_IgnoredSources (ee_Provenance e)) \<subseteq> cd_Ref ` set (lg_Candidates grp) \<and>
     (pv_SelectedSource (ee_Provenance e) = [] \<or> pv_SelectedSource (ee_Provenance e) \<in> set (pv_ActiveSources (ee_Provenance e))) \<and>
     (\<forall>c \<in> set (lg_Candidates grp). EvidenceLevel_Rank (cd_EvidenceLevel c) \<le> EvidenceLevel_Rank (ee_EvidenceLevel e))"
  using group_op.entry_identity [OF assms] group_op.entry_sources [OF assms] group_op.entry_selected [OF assms]
    group_op.evidence_of_group [OF assms] by blast

lemma resolve_group_provenance_witness:
  "(let grp = sample_group [sample_candidate ''a'' ''user'' ''X'' EvHostReported None, sample_candidate ''b'' ''project'' ''Y'' EvParsed None];
        e = projr (ResolveGroup sample_digest grp (sample_knowledge [sample_program ''REPLACE'']) sample_ops sample_options)
    in ee_Concept e = lg_Concept grp \<and> ee_LogicalID e = lg_LogicalID grp \<and>
     set (pv_ActiveSources (ee_Provenance e)) \<union> set (pv_IgnoredSources (ee_Provenance e)) \<subseteq> cd_Ref ` set (lg_Candidates grp) \<and>
     (pv_SelectedSource (ee_Provenance e) = [] \<or> pv_SelectedSource (ee_Provenance e) \<in> set (pv_ActiveSources (ee_Provenance e))) \<and>
     (\<forall>c \<in> set (lg_Candidates grp). EvidenceLevel_Rank (cd_EvidenceLevel c) \<le> EvidenceLevel_Rank (ee_EvidenceLevel e)))"
  unfolding Let_def
  by (rule resolve_group_provenance [where dg = sample_digest and hk = "sample_knowledge [sample_program ''REPLACE'']"
        and ops = sample_ops and opts = sample_options]) code_simp

text \<open>A confirmed entry is backed by a candidate that the host itself reported (evidence E3 or above);
nothing weaker confirms a resolution.\<close>

theorem resolve_group_confirmed:
  assumes "ResolveGroup dg grp hk ops opts = Inr e" "ee_Confirmed e"
  shows "\<exists>c \<in> set (lg_Candidates grp). EvidenceLevel_Rank EvHostReported \<le> EvidenceLevel_Rank (cd_EvidenceLevel c)"
  using group_op.confirmed_has_evidence [OF assms] .

lemma resolve_group_confirmed_witness:
  "\<exists>c \<in> set (lg_Candidates (sample_group [sample_candidate ''a'' ''user'' ''X'' EvHostReported None, sample_candidate ''b'' ''project'' ''Y'' EvParsed None])).
     EvidenceLevel_Rank EvHostReported \<le> EvidenceLevel_Rank (cd_EvidenceLevel c)"
  by (rule resolve_group_confirmed [where dg = sample_digest and hk = "sample_knowledge [sample_program ''REPLACE'']"
        and ops = sample_ops and opts = sample_options
        and e = "projr (ResolveGroup sample_digest (sample_group [sample_candidate ''a'' ''user'' ''X'' EvHostReported None, sample_candidate ''b'' ''project'' ''Y'' EvParsed None]) (sample_knowledge [sample_program ''REPLACE'']) sample_ops sample_options)"]) code_simp+

text \<open>C2: the resolver never guesses. Where two candidates of a group disagree in content, a winner is
returned only if exactly one precedence program is declared for the concept, its operator is one of the
closed vocabulary and the Knowledge Pack's resolve capability is EXACT or COMPATIBLE; the result is then
the one of that operator.\<close>

theorem resolve_group_never_guesses:
  assumes "ResolveGroup dg grp hk ops opts = Inr e"
    and "a \<in> set (lg_Candidates grp)" "b \<in> set (lg_Candidates grp)" "cd_ContentDigest a \<noteq> cd_ContentDigest b"
  shows "\<exists>p. filter (\<lambda>p. has_prefix (lg_Concept grp @ ''.'') (pp_ID p)) (hk_PrecedencePrograms hk) = [p] \<and>
     MergeOperator_Valid (MergeOperator_of (pp_Operator p)) \<and>
     (co_Resolve ops = CapExact \<or> co_Resolve ops = CapCompatible) \<and>
     applyOperator dg grp p (MergeOperator_of (pp_Operator p)) opts = Inr e"
proof -
  have ne: "lg_Candidates grp \<noteq> []" using assms(2) by auto
  have nd: "\<not> (\<exists>w. distinctByContent (lg_Candidates grp) = [w])"
    using distinctByContent_single_iff assms(2-4) by blast
  obtain p ok where p: "LookupProgram hk (lg_Concept grp) = (p, ok)" by (cases "LookupProgram hk (lg_Concept grp)")
  obtain x y zs where d: "distinctByContent (lg_Candidates grp) = x # y # zs"
    using nd ne by (metis distinctByContent_Nil_iff list.exhaust)
  from assms(1) ne p d have "ok \<and> MergeOperator_Valid (MergeOperator_of (pp_Operator p)) \<and> capabilityQualified ops \<and>
      applyOperator dg grp p (MergeOperator_of (pp_Operator p)) opts = Inr e"
    by (simp add: ResolveGroup_def Let_def split: if_splits)
  with p show ?thesis by (auto simp: LookupProgram_iff capabilityQualified_def)
qed

lemma resolve_group_never_guesses_witness:
  "\<exists>p. filter (\<lambda>p. has_prefix (lg_Concept (sample_group [sample_candidate ''a'' ''user'' ''X'' EvHostReported None, sample_candidate ''b'' ''project'' ''Y'' EvParsed None]) @ ''.'') (pp_ID p)) (hk_PrecedencePrograms (sample_knowledge [sample_program ''REPLACE''])) = [p] \<and>
     MergeOperator_Valid (MergeOperator_of (pp_Operator p)) \<and>
     (co_Resolve sample_ops = CapExact \<or> co_Resolve sample_ops = CapCompatible) \<and>
     applyOperator sample_digest (sample_group [sample_candidate ''a'' ''user'' ''X'' EvHostReported None, sample_candidate ''b'' ''project'' ''Y'' EvParsed None]) p (MergeOperator_of (pp_Operator p)) sample_options = Inr (projr (ResolveGroup sample_digest (sample_group [sample_candidate ''a'' ''user'' ''X'' EvHostReported None, sample_candidate ''b'' ''project'' ''Y'' EvParsed None]) (sample_knowledge [sample_program ''REPLACE'']) sample_ops sample_options))"
  by (rule resolve_group_never_guesses [where a = "sample_candidate ''a'' ''user'' ''X'' EvHostReported None" and b = "sample_candidate ''b'' ''project'' ''Y'' EvParsed None"]) code_simp+

text \<open>Physical sources that agree need no precedence program. Where every candidate has the same
content, the group resolves whatever the Knowledge Pack says: the active sources are exactly the
references of the candidates no policy denies, the ignored ones those of the denied, and without a denial
the entry claims no more than an unconfirmed observation.\<close>

theorem resolve_group_agreement:
  assumes "lg_Candidates grp \<noteq> []"
    and "\<forall>a \<in> set (lg_Candidates grp). \<forall>b \<in> set (lg_Candidates grp). cd_ContentDigest a = cd_ContentDigest b"
  shows "\<exists>e. ResolveGroup dg grp hk ops opts = Inr e \<and>
     pv_ActiveSources (ee_Provenance e) = sort (map cd_Ref (filter (\<lambda>c. \<not> isDenied c (op_DeniedRefs opts)) (lg_Candidates grp))) \<and>
     pv_IgnoredSources (ee_Provenance e) = sort (map cd_Ref (filter (\<lambda>c. isDenied c (op_DeniedRefs opts)) (lg_Candidates grp))) \<and>
     ((\<exists>c \<in> set (lg_Candidates grp). isDenied c (op_DeniedRefs opts)) \<or> \<not> ee_Confirmed e \<and> ee_Guarantee e = GuaranteeObserved)"
proof -
  obtain w where w: "distinctByContent (lg_Candidates grp) = [w]"
    using distinctByContent_single_iff assms by blast
  let ?d = "filter (\<lambda>c. isDenied c (op_DeniedRefs opts)) (lg_Candidates grp)"
    and ?s = "filter (\<lambda>c. \<not> isDenied c (op_DeniedRefs opts)) (lg_Candidates grp)"
  show ?thesis
  proof (cases "?d = []")
    case True
    then have s: "?s = lg_Candidates grp" by (auto simp: filter_empty_conv filter_id_conv)
    show ?thesis using assms(1) w True s
      by (simp add: ResolveGroup_def Let_def candidateRefs_def Provenance_zero_def)
  next
    case False
    then have ex: "\<exists>c \<in> set (lg_Candidates grp). isDenied c (op_DeniedRefs opts)" by (auto simp: filter_empty_conv)
    show ?thesis
    proof (cases ?s)
      case Nil
      with assms(1) w False ex show ?thesis
        by (simp add: ResolveGroup_def Let_def candidateRefs_def Provenance_zero_def)
    next
      case (Cons f rest)
      with assms(1) w False ex show ?thesis
        by (simp add: ResolveGroup_def Let_def candidateRefs_def Provenance_zero_def)
    qed
  qed
qed

lemma resolve_group_agreement_witness:
  "\<exists>e. ResolveGroup sample_digest (sample_group [sample_candidate ''a'' ''user'' ''X'' EvHostReported None, sample_candidate ''b'' ''project'' ''X'' EvParsed None]) (sample_knowledge [sample_program ''REPLACE'']) CapabilityOps_zero (sample_options\<lparr>op_DeniedRefs := [''a'']\<rparr>) = Inr e \<and>
     pv_ActiveSources (ee_Provenance e) =
       sort (map cd_Ref (filter (\<lambda>c. \<not> isDenied c (op_DeniedRefs (sample_options\<lparr>op_DeniedRefs := [''a'']\<rparr>))) (lg_Candidates (sample_group [sample_candidate ''a'' ''user'' ''X'' EvHostReported None, sample_candidate ''b'' ''project'' ''X'' EvParsed None])))) \<and>
     pv_IgnoredSources (ee_Provenance e) =
       sort (map cd_Ref (filter (\<lambda>c. isDenied c (op_DeniedRefs (sample_options\<lparr>op_DeniedRefs := [''a'']\<rparr>))) (lg_Candidates (sample_group [sample_candidate ''a'' ''user'' ''X'' EvHostReported None, sample_candidate ''b'' ''project'' ''X'' EvParsed None])))) \<and>
     ((\<exists>c \<in> set (lg_Candidates (sample_group [sample_candidate ''a'' ''user'' ''X'' EvHostReported None, sample_candidate ''b'' ''project'' ''X'' EvParsed None])). isDenied c (op_DeniedRefs (sample_options\<lparr>op_DeniedRefs := [''a'']\<rparr>))) \<or> \<not> ee_Confirmed e \<and> ee_Guarantee e = GuaranteeObserved)"
  by (rule resolve_group_agreement) code_simp+

text \<open>REPLACE picks the highest-ranked source. For sources with pairwise different contents and
references, all in scopes with a declared rank, the operator selects a source exactly when that source
outranks all the others; a tie at the top is a conflict.\<close>

theorem replace_selects_highest:
  assumes "distinct (map cd_ContentDigest (lg_Candidates grp))" "distinct (map cd_Ref (lg_Candidates grp))"
    and "ranks \<noteq> []" "ranked ranks (lg_Candidates grp)" "w \<in> set (lg_Candidates grp)"
  shows "(\<exists>e. resolveByScopeRank grp p oper ranks = Inr e \<and> pv_SelectedSource (ee_Provenance e) = cd_Ref w) \<longleftrightarrow>
     (\<forall>c \<in> set (lg_Candidates grp). c \<noteq> w \<longrightarrow> rank_of ranks c < rank_of ranks w)"
proof -
  let ?cs = "distinctByContent (lg_Candidates grp)"
  have set_eq: "set ?cs = set (lg_Candidates grp)" and dist: "distinct ?cs"
    using distinctByContent_sort [OF assms(1)] by auto
  have "ranked ranks ?cs" "?cs \<noteq> []"
    using assms(4,5) ranked_set_cong [OF set_eq] by auto
  then obtain b ws where run: "scopeRank_loop ranks (- 1) [] ?cs = Inr (b, ws)" "ws \<noteq> []"
      and ws: "\<And>w. ws = [w] \<longleftrightarrow> outranks_all ranks w ?cs"
    using scopeRank_winners [OF _ _ dist] by blast
  have sel: "(\<exists>e. resolveByScopeRank grp p oper ranks = Inr e \<and> pv_SelectedSource (ee_Provenance e) = cd_Ref w) \<longleftrightarrow>
      (\<exists>v. ws = [v] \<and> cd_Ref v = cd_Ref w)"
    using run(1) assms(3) by (auto simp: resolveByScopeRank_def Let_def split: list.splits)
  have inj: "v = w" if "v \<in> set (lg_Candidates grp)" "cd_Ref v = cd_Ref w" for v
    using assms(2,5) that by (auto simp: distinct_map inj_on_def)
  have mem: "v \<in> set (lg_Candidates grp)" if "ws = [v]" for v
    using that unfolding ws set_eq [symmetric] by (simp add: outranks_all_def)
  have "(\<exists>v. ws = [v] \<and> cd_Ref v = cd_Ref w) \<longleftrightarrow> ws = [w]" using inj mem by blast
  also have "\<dots> \<longleftrightarrow> (\<forall>c \<in> set (lg_Candidates grp). c \<noteq> w \<longrightarrow> rank_of ranks c < rank_of ranks w)"
    using ws assms(5) by (simp add: outranks_all_def set_eq)
  finally show ?thesis using sel by simp
qed

lemma replace_selects_highest_witness:
  "(\<exists>e. resolveByScopeRank (sample_group [sample_candidate ''a'' ''user'' ''X'' EvHostReported None, sample_candidate ''b'' ''project'' ''Y'' EvParsed None]) (sample_program ''REPLACE'') OpReplace (op_ScopeRank sample_options) = Inr e \<and>
        pv_SelectedSource (ee_Provenance e) = cd_Ref (sample_candidate ''b'' ''project'' ''Y'' EvParsed None)) \<longleftrightarrow>
     (\<forall>c \<in> set (lg_Candidates (sample_group [sample_candidate ''a'' ''user'' ''X'' EvHostReported None, sample_candidate ''b'' ''project'' ''Y'' EvParsed None])). c \<noteq> sample_candidate ''b'' ''project'' ''Y'' EvParsed None \<longrightarrow>
        rank_of (op_ScopeRank sample_options) c < rank_of (op_ScopeRank sample_options) (sample_candidate ''b'' ''project'' ''Y'' EvParsed None))"
  by (rule replace_selects_highest)
    (simp_all add: sample_group_def sample_candidate_def sample_options_def ranked_def)

text \<open>Denials win. Under DENY_WINS every source that stays active is the reference of a candidate no
policy denies, and the ignored sources are exactly the denied ones; whether survivors remain or not, the
entry is guaranteed HARD.\<close>

theorem deny_wins_excludes_denied:
  assumes "resolveDenyWins grp p denied = Inr e"
  shows "(\<forall>r \<in> set (pv_ActiveSources (ee_Provenance e)). \<exists>c \<in> set (lg_Candidates grp). cd_Ref c = r \<and> \<not> isDenied c denied) \<and>
     set (pv_IgnoredSources (ee_Provenance e)) = cd_Ref ` {c \<in> set (lg_Candidates grp). isDenied c denied} \<and>
     ee_Guarantee e = GuaranteeHard"
  using assms by (auto simp: resolveDenyWins_def Let_def split: list.splits)

lemma deny_wins_excludes_denied_witness:
  "(let grp = sample_group [sample_candidate ''a'' ''user'' ''X'' EvHostReported None, sample_candidate ''b'' ''project'' ''Y'' EvParsed None]; e = projr (resolveDenyWins grp (sample_program ''DENY_WINS'') [''a''])
    in (\<forall>r \<in> set (pv_ActiveSources (ee_Provenance e)). \<exists>c \<in> set (lg_Candidates grp). cd_Ref c = r \<and> \<not> isDenied c [''a'']) \<and>
     set (pv_IgnoredSources (ee_Provenance e)) = cd_Ref ` {c \<in> set (lg_Candidates grp). isDenied c [''a'']} \<and>
     ee_Guarantee e = GuaranteeHard)"
  unfolding Let_def by (rule deny_wins_excludes_denied [where p = "sample_program ''DENY_WINS''"]) code_simp

text \<open>A deep merge without conflict loses nothing. When \<open>deepMergeInto\<close> reports success, every value
that was in the destination at a path of keys and is not itself an object is still there, and every such
value of the source is present at its path, up to equal canonical digests.\<close>

theorem deep_merge_keeps_leaves:
  assumes "deepMergeInto dg dst src path = (merged, conflict, True)" "json_wf (JObj src)" "objects_apart dg"
  shows "(\<forall>ks v. leaf_at dst ks = Some v \<and> scalar v \<longrightarrow> leaf_at merged ks = Some v) \<and>
     (\<forall>ks v. leaf_at src ks = Some v \<and> scalar v \<longrightarrow>
        (\<exists>v'. leaf_at merged ks = Some v' \<and> CanonicalDigest dg v' = CanonicalDigest dg v))"
  using deepMerge_leaves [OF assms(3) assms(1) [unfolded deepMergeInto_def] assms(2)]
  unfolding keeps_leaves_def has_leaves_def by blast

lemma deep_merge_keeps_leaves_witness:
  "(let dst = [(''a'', JObj [(''x'', JNum ''1'')])];
        src = [(''a'', JObj [(''y'', JNum ''2'')]), (''b'', JStr ''t'')];
        merged = fst (deepMergeInto sample_digest dst src '''')
    in (\<forall>ks v. leaf_at dst ks = Some v \<and> scalar v \<longrightarrow> leaf_at merged ks = Some v) \<and>
     (\<forall>ks v. leaf_at src ks = Some v \<and> scalar v \<longrightarrow>
        (\<exists>v'. leaf_at merged ks = Some v' \<and> CanonicalDigest sample_digest v' = CanonicalDigest sample_digest v)))"
proof -
  have apart: "objects_apart sample_digest"
  proof -
    have "sample_digest (canon v) \<noteq> ''o''" if "scalar v" for v using that by (cases v) (auto simp: scalar_def)
    moreover have "sample_digest (canon (JObj m)) = ''o''" for m by simp
    ultimately show ?thesis unfolding objects_apart_def by metis
  qed
  show ?thesis
    unfolding Let_def
    by (rule deep_merge_keeps_leaves [OF _ _ apart, where path = "''''" and conflict = "''''"])
      (simp_all add: deepMergeInto_def)
qed

text \<open>REPLACE can pick a source that is not the highest-ranked one. The representatives by content keep
the first source of a content, so a managed source whose content equals that of a user source loses its
rank, and the project source between them wins although the managed one outranks it.\<close>

theorem replace_loses_rank_of_duplicate:
  "(let user = sample_candidate ''a'' ''user'' ''X'' EvHostReported None;
        project = sample_candidate ''b'' ''project'' ''Y'' EvHostReported None;
        managed = sample_candidate ''c'' ''managed'' ''X'' EvHostReported None;
        r = ResolveGroup sample_digest (sample_group [user, project, managed])
              (sample_knowledge [sample_program ''REPLACE'']) sample_ops sample_options
    in map_sum (\<lambda>c. ()) (\<lambda>e. (pv_SelectedSource (ee_Provenance e), ee_Confirmed e)) r = Inr (''b'', True) \<and>
       rank_of (op_ScopeRank sample_options) project < rank_of (op_ScopeRank sample_options) managed)"
  by code_simp

text \<open>A deep merge depends on the iteration order of the merged map. A conflict below a nested object
ends the loop early even when the scope order is complete and the conflict is tolerated, so an entry
listed after it is dropped and the same entry listed before it is kept.\<close>

theorem deep_merge_order_dependent:
  assumes "dg (JNum ''1'') \<noteq> dg (JNum ''2'')"
  shows "(let low = sample_candidate ''a'' ''user'' ''X'' EvParsed (Some [(''n'', JObj [(''x'', JNum ''1'')])]);
        nested = (''n'', JObj [(''x'', JNum ''2'')]);
        extra = (''z'', JNum ''3'');
        high = (\<lambda>fs. sample_candidate ''b'' ''project'' ''Y'' EvParsed (Some fs));
        ranks = op_ScopeRank sample_options
    in deepMergeAll dg [low, high [nested, extra]] ranks = Inr [nested] \<and>
       deepMergeAll dg [low, high [extra, nested]] ranks = Inr [nested, extra])"
  using assms
  by (simp add: Let_def deepMergeAll_def deepMergeInto_def sample_candidate_def sample_options_def rank_of_def
      map_get_def valuesEqual_def CanonicalDigest_def)

lemma deep_merge_order_dependent_witness:
  "(let low = sample_candidate ''a'' ''user'' ''X'' EvParsed (Some [(''n'', JObj [(''x'', JNum ''1'')])]);
        nested = (''n'', JObj [(''x'', JNum ''2'')]);
        extra = (''z'', JNum ''3'');
        high = (\<lambda>fs. sample_candidate ''b'' ''project'' ''Y'' EvParsed (Some fs));
        ranks = op_ScopeRank sample_options
    in deepMergeAll sample_digest [low, high [nested, extra]] ranks = Inr [nested] \<and>
       deepMergeAll sample_digest [low, high [extra, nested]] ranks = Inr [nested, extra])"
  by (rule deep_merge_order_dependent) simp

end
