(* ===== verification/Go_Strings.thy ===== *)
theory Go_Strings
  imports Prelude
begin

text \<open>
  The functions of Go's \<^verbatim>\<open>strings\<close> and \<^verbatim>\<open>path/filepath\<close> packages (on Unix) that the modelled packages
  call, over ASCII text: trimming, lower case, cutting at a separator, \<^verbatim>\<open>Clean\<close>, \<^verbatim>\<open>Base\<close> and \<^verbatim>\<open>Dir\<close>.
\<close>

section \<open>Strings\<close>

definition is_space :: "char \<Rightarrow> bool" where
  "is_space c \<longleftrightarrow> c \<in> {CHR 0x20, CHR 0x09, CHR 0x0A, CHR 0x0B, CHR 0x0C, CHR 0x0D}"

definition trim_right :: "string \<Rightarrow> string" where
  "trim_right s = rev (dropWhile is_space (rev s))"

definition TrimSpace :: "string \<Rightarrow> string" where
  "TrimSpace s = trim_right (dropWhile is_space s)"

definition is_digit :: "char \<Rightarrow> bool" where
  "is_digit c \<longleftrightarrow> CHR ''0'' \<le> c \<and> c \<le> CHR ''9''"

definition is_lower :: "char \<Rightarrow> bool" where
  "is_lower c \<longleftrightarrow> CHR ''a'' \<le> c \<and> c \<le> CHR ''z''"

definition is_upper :: "char \<Rightarrow> bool" where
  "is_upper c \<longleftrightarrow> CHR ''A'' \<le> c \<and> c \<le> CHR ''Z''"

definition lower_char :: "char \<Rightarrow> char" where
  "lower_char c = (if is_upper c then char_of (of_char c + 32 :: nat) else c)"

definition ToLower :: "string \<Rightarrow> string" where
  "ToLower s = map lower_char s"

definition word_char :: "char \<Rightarrow> bool" where
  "word_char c \<longleftrightarrow> is_lower c \<or> is_upper c \<or> is_digit c \<or> c = CHR ''_''"

text \<open>\<^verbatim>\<open>strings.Cut\<close> at a one-byte separator: the text before and after its first occurrence.\<close>

definition cut :: "char \<Rightarrow> string \<Rightarrow> (string \<times> string) option" where
  "cut c s = (if c \<in> set s then Some (takeWhile (\<lambda>x. x \<noteq> c) s, tl (dropWhile (\<lambda>x. x \<noteq> c) s)) else None)"

text \<open>\<^verbatim>\<open>strings.TrimPrefix\<close> and \<^verbatim>\<open>strings.TrimSuffix\<close>.\<close>

definition TrimPrefix :: "string \<Rightarrow> string \<Rightarrow> string" where
  "TrimPrefix p s = (if has_prefix p s then drop (length p) s else s)"

definition TrimSuffix :: "string \<Rightarrow> string \<Rightarrow> string" where
  "TrimSuffix p s = (if has_suffix p s then take (length s - length p) s else s)"

fun contains :: "string \<Rightarrow> string \<Rightarrow> bool" where
  "contains needle [] = (needle = [])"
| "contains needle (c # s) = (has_prefix needle (c # s) \<or> contains needle s)"

section \<open>Paths\<close>

definition IsAbs :: "string \<Rightarrow> bool" where
  "IsAbs p \<longleftrightarrow> has_prefix ''/'' p"

fun clean_elems :: "bool \<Rightarrow> string list \<Rightarrow> string list \<Rightarrow> string list" where
  "clean_elems rooted out [] = rev out"
| "clean_elems rooted out (e # es) =
     (if e = [] \<or> e = ''.'' then clean_elems rooted out es
      else if e = ''..'' then
        (case out of
           [] \<Rightarrow> if rooted then clean_elems rooted out es else clean_elems rooted [''..''] es
         | tp # out' \<Rightarrow> if tp = ''..'' then clean_elems rooted (''..'' # out) es else clean_elems rooted out' es)
      else clean_elems rooted (e # out) es)"

definition Clean :: "string \<Rightarrow> string" where
  "Clean p =
     (let rooted = IsAbs p; es = clean_elems rooted [] (split_on CHR ''/'' p)
      in if rooted then CHR ''/'' # join_with ''/'' es
         else if es = [] then ''.'' else join_with ''/'' es)"

definition Base :: "string \<Rightarrow> string" where
  "Base p =
     (if p = [] then ''.''
      else let r = dropWhile (\<lambda>c. c = CHR ''/'') (rev p)
           in if r = [] then ''/'' else rev (takeWhile (\<lambda>c. c \<noteq> CHR ''/'') r))"

definition Dir :: "string \<Rightarrow> string" where
  "Dir p = Clean (rev (dropWhile (\<lambda>c. c \<noteq> CHR ''/'') (rev p)))"

section \<open>Lemmas\<close>

lemma split_on_single: "c \<notin> set x \<Longrightarrow> split_on c x = [x]"
  by (induction x) auto

lemma split_on_append: "c \<notin> set x \<Longrightarrow> split_on c (x @ c # t) = x # split_on c t"
  by (induction x) auto

lemma split_on_join:
  "xs \<noteq> [] \<Longrightarrow> (\<And>x. x \<in> set xs \<Longrightarrow> c \<notin> set x) \<Longrightarrow> split_on c (join_with [c] xs) = xs"
proof (induction xs rule: induct_list012)
  case (3 x y zs)
  have "split_on c (join_with [c] (y # zs)) = y # zs" by (rule 3(2)) (use 3(4) in auto)
  moreover have "c \<notin> set x" using 3(4) by simp
  ultimately show ?case by (simp add: split_on_append)
qed (simp_all add: split_on_single)

lemma join_split_on: "join_with [c] (split_on c s) = s"
proof (induction s)
  case (Cons x s)
  then obtain y ys where ys: "split_on c s = y # ys" by (metis list.exhaust split_on_not_Nil)
  have shift: "join_with [c] ((x # y) # ys) = x # join_with [c] (y # ys)" by (cases ys) simp_all
  show ?case
  proof (cases "x = c")
    case True
    with Cons ys show ?thesis by simp
  next
    case False
    with Cons ys shift show ?thesis by simp
  qed
qed simp

text \<open>What \<^verbatim>\<open>Clean\<close> leaves: no empty element, no single dot, dots only at the front of a relative path.\<close>

definition clean_list :: "bool \<Rightarrow> string list \<Rightarrow> bool" where
  "clean_list rooted es \<longleftrightarrow>
     (\<forall>e \<in> set es. e \<noteq> [] \<and> e \<noteq> ''.'') \<and>
     (if rooted then ''..'' \<notin> set es else (\<exists>n rest. es = replicate n ''..'' @ rest \<and> ''..'' \<notin> set rest))"

definition clean_stack :: "bool \<Rightarrow> string list \<Rightarrow> bool" where
  "clean_stack rooted out \<longleftrightarrow>
     (\<forall>e \<in> set out. e \<noteq> [] \<and> e \<noteq> ''.'') \<and>
     (if rooted then ''..'' \<notin> set out else (\<exists>n rest. out = rest @ replicate n ''..'' \<and> ''..'' \<notin> set rest))"

lemma clean_stack_rev: "clean_stack rooted out \<Longrightarrow> clean_list rooted (rev out)"
  by (auto simp: clean_stack_def clean_list_def) (metis rev_replicate set_rev)

lemma clean_stack_False:
  "clean_stack False out \<longleftrightarrow>
     (\<forall>e \<in> set out. e \<noteq> [] \<and> e \<noteq> ''.'') \<and> (\<exists>n rest. out = rest @ replicate n ''..'' \<and> ''..'' \<notin> set rest)"
  "clean_stack True out \<longleftrightarrow> (\<forall>e \<in> set out. e \<noteq> [] \<and> e \<noteq> ''.'') \<and> ''..'' \<notin> set out"
  by (auto simp: clean_stack_def)

lemma clean_stack_push:
  assumes c: "clean_stack rooted out" and e: "e \<noteq> []" "e \<noteq> ''.''" "e \<noteq> ''..''"
  shows "clean_stack rooted (e # out)"
proof (cases rooted)
  case True
  with c e show ?thesis by (simp add: clean_stack_False)
next
  case False
  with c obtain n rest where r: "out = rest @ replicate n ''..''" "''..'' \<notin> set rest"
    by (auto simp: clean_stack_False)
  then have "e # out = (e # rest) @ replicate n ''..''" "''..'' \<notin> set (e # rest)" using e(3) by auto
  then have ex: "\<exists>n rest. e # out = rest @ replicate n ''..'' \<and> ''..'' \<notin> set rest" by blast
  have "\<forall>x \<in> set (e # out). x \<noteq> [] \<and> x \<noteq> ''.''" using c False e by (simp add: clean_stack_False)
  with ex False show ?thesis by (simp only: clean_stack_False simp_thms)
qed

lemma clean_stack_dots:
  assumes c: "clean_stack False out" and h: "out = [] \<or> hd out = ''..''"
  shows "clean_stack False (''..'' # out)"
proof -
  from c obtain n rest where r: "out = rest @ replicate n ''..''" "''..'' \<notin> set rest"
    by (auto simp: clean_stack_False)
  with h have "rest = []" by (cases rest) auto
  with r have "''..'' # out = [] @ replicate (Suc n) ''..''" "''..'' \<notin> set []" by simp_all
  then have ex: "\<exists>n rest. ''..'' # out = rest @ replicate n ''..'' \<and> ''..'' \<notin> set rest" by blast
  have "\<forall>x \<in> set (''..'' # out). x \<noteq> [] \<and> x \<noteq> ''.''" using c by (simp add: clean_stack_False)
  with ex show ?thesis by (simp only: clean_stack_False simp_thms)
qed

lemma clean_stack_pop:
  assumes c: "clean_stack rooted (e # out)" and e: "e \<noteq> ''..''"
  shows "clean_stack rooted out"
proof (cases rooted)
  case True
  with c show ?thesis by (simp add: clean_stack_False)
next
  case False
  with c obtain n rest where r: "e # out = rest @ replicate n ''..''" "''..'' \<notin> set rest"
    by (auto simp: clean_stack_False)
  have "rest \<noteq> []"
  proof
    assume "rest = []"
    with r(1) have "e \<in> set (replicate n ''..'')" by (metis append_Nil list.set_intros(1))
    with e show False by (simp split: if_splits)
  qed
  then obtain x rest' where "rest = x # rest'" by (cases rest) auto
  with r have "out = rest' @ replicate n ''..''" "''..'' \<notin> set rest'" by auto
  then have ex: "\<exists>n rest. out = rest @ replicate n ''..'' \<and> ''..'' \<notin> set rest" by blast
  have "\<forall>x \<in> set out. x \<noteq> [] \<and> x \<noteq> ''.''" using c False by (simp add: clean_stack_False)
  with ex False show ?thesis by (simp only: clean_stack_False simp_thms)
qed

lemma clean_elems_clean: "clean_stack rooted out \<Longrightarrow> clean_list rooted (clean_elems rooted out es)"
proof (induction rooted out es rule: clean_elems.induct)
  case (1 rooted out)
  then show ?case by (simp add: clean_stack_rev)
next
  case (2 rooted out e es)
  consider (skip) "e = [] \<or> e = ''.''" | (dots) "e = ''..''" | (push) "e \<noteq> []" "e \<noteq> ''.''" "e \<noteq> ''..''" by blast
  then show ?case
  proof cases
    case skip
    have "clean_list rooted (clean_elems rooted out es)" by (rule 2(1) [OF skip 2(7)])
    then show ?thesis using skip by simp
  next
    case push
    have "clean_stack rooted (e # out)" by (rule clean_stack_push [OF 2(7) push])
    then have "clean_list rooted (clean_elems rooted (e # out) es)" using 2(6) push by blast
    then show ?thesis using push by simp
  next
    case dots
    then have ne: "\<not> (e = [] \<or> e = ''.'')" by simp
    show ?thesis
    proof (cases out)
      case Nil
      show ?thesis
      proof (cases rooted)
        case True
        have "clean_list rooted (clean_elems rooted out es)" by (rule 2(2) [OF ne dots Nil True 2(7)])
        then show ?thesis using ne dots Nil True by simp
      next
        case False
        have "clean_stack False out" using 2(7) False by simp
        then have "clean_stack False (''..'' # out)" by (rule clean_stack_dots) (simp add: Nil)
        then have "clean_stack rooted [''..'']" using Nil False by simp
        then have "clean_list rooted (clean_elems rooted [''..''] es)" by (rule 2(3) [OF ne dots Nil False])
        then show ?thesis using ne dots Nil False by simp
      qed
    next
      case (Cons tp out')
      show ?thesis
      proof (cases "tp = ''..''")
        case True
        with Cons 2(7) have nr: "\<not> rooted" by (auto simp: clean_stack_def)
        have h: "hd out = ''..''" using True Cons by simp
        have "clean_stack False out" using nr 2(7) by simp
        then have "clean_stack False (''..'' # out)" by (rule clean_stack_dots) (simp add: h)
        then have "clean_stack rooted (''..'' # out)" using nr by simp
        then have "clean_list rooted (clean_elems rooted (''..'' # out) es)"
          by (rule 2(4) [OF ne dots Cons True])
        then show ?thesis using ne True dots Cons by simp
      next
        case False
        have "clean_stack rooted (tp # out')" using 2(7) Cons by simp
        then have "clean_stack rooted out'" using False by (rule clean_stack_pop)
        then have "clean_list rooted (clean_elems rooted out' es)"
          by (rule 2(5) [OF ne dots Cons False])
        then show ?thesis using ne False dots Cons by simp
      qed
    qed
  qed
qed

section \<open>Timestamps\<close>

text \<open>
  \<^verbatim>\<open>t.UTC().Format(time.RFC3339)\<close> for the years 0 to 9999: the civil date of a day count, with March as
  the first month of the computational year so that the leap day comes last.
\<close>

definition civil_date :: "int \<Rightarrow> int \<times> int \<times> int" where
  "civil_date days =
     (let z = days + 306;
          era = z div 146097; doe = z mod 146097;
          yoe = (doe - doe div 1460 + doe div 36524 - doe div 146096) div 365;
          doy = doe - (365 * yoe + yoe div 4 - yoe div 100);
          mp = (5 * doy + 2) div 153;
          d = doy - (153 * mp + 2) div 5 + 1;
          m = (if mp < 10 then mp + 3 else mp - 9)
      in (yoe + era * 400 + (if m \<le> 2 then 1 else 0), m, d))"

fun digits :: "nat \<Rightarrow> int \<Rightarrow> string" where
  "digits 0 n = ''''"
| "digits (Suc w) n = digits w (n div 10) @ [char_of (48 + nat (n mod 10))]"

definition RFC3339 :: "gotime \<Rightarrow> string" where
  "RFC3339 t =
     (let secs = t div 1000000000; (y, m, d) = civil_date (secs div 86400); s = secs mod 86400
      in digits 4 y @ ''-'' @ digits 2 m @ ''-'' @ digits 2 d @ ''T'' @
         digits 2 (s div 3600) @ '':'' @ digits 2 (s mod 3600 div 60) @ '':'' @ digits 2 (s mod 60) @ ''Z'')"

lemma RFC3339_not_Nil [simp]: "RFC3339 t \<noteq> []"
  by (simp add: RFC3339_def Let_def case_prod_beta)

lemma RFC3339_zero: "RFC3339 0 = ''0001-01-01T00:00:00Z''"
  by code_simp

lemma RFC3339_leap_day: "RFC3339 (738944 * 86400 * 1000000000 + 1) = ''2024-02-29T00:00:00Z''"
  by code_simp

end
