(* ===== verification/Effective_Graph.thy ===== *)
theory Effective_Graph
  imports Effective_Merge Resolve Go_Strings
begin

text \<open>
  The rest of \<^verbatim>\<open>internal/effective\<close>: candidate extraction (\<^verbatim>\<open>extract.go\<close>), the identity matcher
  (\<^verbatim>\<open>identity.go\<close>), duplicate capabilities (\<^verbatim>\<open>duplicate.go\<close>), the computation of the Effective Graph
  (\<^verbatim>\<open>resolve.go\<close>) and the three-plane query (\<^verbatim>\<open>graphs.go\<close>). Maps from identifiers to definitions are
  association lists in insertion order. Names and paths are ASCII.
\<close>

section \<open>Extraction\<close>

definition contentDigest :: "Observation \<Rightarrow> string" where
  "contentDigest obs =
     (if ob_ParsedDigest obs \<noteq> '''' then ob_ParsedDigest obs
      else if ob_RawDigest obs \<noteq> '''' then ob_RawDigest obs
      else os_Digest (ob_Source obs))"

text \<open>The fields every extracted candidate takes from its observation.\<close>

definition candidate_of ::
  "Observation \<Rightarrow> string \<Rightarrow> string \<Rightarrow> string \<Rightarrow> json gomap option \<Rightarrow> string \<Rightarrow> string list \<Rightarrow> Candidate" where
  "candidate_of obs concept lid ref fs digest tools =
     \<lparr>cd_Concept = concept, cd_LogicalID = lid, cd_Ref = ref, cd_Scope = ob_Scope obs, cd_Source = ob_Source obs,
      cd_Disposition = ob_Disposition obs, cd_EvidenceLevel = ob_EvidenceLevel obs, cd_Fields = fs,
      cd_ContentDigest = digest, cd_Tools = tools\<rparr>"

definition extractInstructionCandidate :: "Observation \<Rightarrow> Candidate" where
  "extractInstructionCandidate obs =
     candidate_of obs ''instruction'' (osc_Root (ob_Scope obs) @ ''|'' @ os_Path (ob_Source obs))
       (os_Path (ob_Source obs)) None (contentDigest obs) []"

definition skillNameFromPath :: "string \<Rightarrow> string" where
  "skillNameFromPath path = (if Base path = ''SKILL.md'' then Base (Dir path) else Base path)"

definition extractSkillCandidate :: "Observation \<Rightarrow> Candidate" where
  "extractSkillCandidate obs =
     candidate_of obs ''skill'' (skillNameFromPath (os_Path (ob_Source obs)) @ ''|'' @ os_Kind (ob_Source obs))
       (os_Path (ob_Source obs)) None (contentDigest obs) []"

fun firstNonNilTable :: "json gomap \<Rightarrow> string list \<Rightarrow> json gomap option" where
  "firstNonNilTable m [] = None"
| "firstNonNilTable m (k # ks) =
     (case map_of m k of Some (JObj table) \<Rightarrow> Some table | _ \<Rightarrow> firstNonNilTable m ks)"

definition mcpTransport :: "json gomap \<Rightarrow> string" where
  "mcpTransport def =
     (case map_of def ''url'' of
        Some _ \<Rightarrow>
          (case map_of def ''type'' of
             Some (JStr t) \<Rightarrow> if t = ''sse'' \<or> t = ''http'' then t else ''http''
           | _ \<Rightarrow> ''http'')
      | None \<Rightarrow> ''stdio'')"

fun json_strings :: "json list \<Rightarrow> string list" where
  "json_strings [] = []"
| "json_strings (JStr s # vs) = s # json_strings vs"
| "json_strings (v # vs) = json_strings vs"

definition stringSliceField :: "json gomap \<Rightarrow> string \<Rightarrow> string list" where
  "stringSliceField m key = (case map_of m key of Some (JArr raw) \<Rightarrow> json_strings raw | _ \<Rightarrow> [])"

text \<open>
  A table entry that is not an object is a nil map (\<open>None\<close>), which marshals as \<^verbatim>\<open>null\<close>. The digest of a
  decoded JSON value cannot fail, so the error return of the extractor has no case here.
\<close>

definition mcpCandidatesFromJSONTable :: "(json \<Rightarrow> string) \<Rightarrow> Observation \<Rightarrow> json gomap \<Rightarrow> Candidate list" where
  "mcpCandidatesFromJSONTable dg obs table =
     map (\<lambda>sid.
         let def = (case map_of table sid of Some (JObj d) \<Rightarrow> Some d | _ \<Rightarrow> None);
             fs = (case def of Some d \<Rightarrow> d | None \<Rightarrow> [])
         in candidate_of obs ''mcp_server'' (mcpTransport fs @ ''|'' @ sid)
              (os_Path (ob_Source obs) @ ''#mcpServers.'' @ sid) def
              (CanonicalDigest dg (case def of Some d \<Rightarrow> JObj d | None \<Rightarrow> JNull)) (stringSliceField fs ''tools''))
       (sort (map_keys table))"

text \<open>The two regular expressions, on a trimmed line.\<close>

definition tomlTableHeader :: "string \<Rightarrow> string option" where
  "tomlTableHeader line =
     (let n = length ''[mcp_servers.''; body = drop n line; sid = butlast body
      in if has_prefix ''[mcp_servers.'' line \<and> body \<noteq> [] \<and> last body = CHR '']'' \<and> sid \<noteq> [] \<and>
            (\<forall>c \<in> set sid. word_char c \<or> c = CHR ''-'')
         then Some sid else None)"

definition tomlKeyValue :: "string \<Rightarrow> (string \<times> string) option" where
  "tomlKeyValue line =
     (let key = takeWhile word_char line;
          rest = dropWhile is_space (dropWhile word_char line);
          val = dropWhile is_space (tl rest)
      in if key \<noteq> [] \<and> rest \<noteq> [] \<and> hd rest = CHR ''='' \<and> val \<noteq> [] then Some (key, val) else None)"

fun scrape_lines ::
  "string \<Rightarrow> bool \<Rightarrow> (string \<times> string) list gomap \<Rightarrow> string list \<Rightarrow> (string \<times> string) list gomap" where
  "scrape_lines currentID inMCPTable tables [] = tables"
| "scrape_lines currentID inMCPTable tables (line # ls) =
     (let trimmed = TrimSpace line
      in if has_prefix ''['' trimmed then
           (case tomlTableHeader trimmed of
              Some sid \<Rightarrow>
                scrape_lines sid True (if map_of tables sid = None then map_put sid [] tables else tables) ls
            | None \<Rightarrow> scrape_lines currentID False tables ls)
         else if \<not> inMCPTable \<or> trimmed = '''' \<or> has_prefix ''#'' trimmed then
           scrape_lines currentID inMCPTable tables ls
         else (case tomlKeyValue trimmed of
                 Some kv \<Rightarrow> scrape_lines currentID inMCPTable
                   (map_put currentID (map_get [] tables currentID @ [kv]) tables) ls
               | None \<Rightarrow> scrape_lines currentID inMCPTable tables ls))"

definition scrapeTOMLMCPServers :: "string \<Rightarrow> (string \<times> string) list gomap" where
  "scrapeTOMLMCPServers raw = scrape_lines '''' False [] (split_on (CHR 0x0A) raw)"

definition mcpCandidatesFromScrapedTable ::
  "(json \<Rightarrow> string) \<Rightarrow> Observation \<Rightarrow> (string \<times> string) list gomap \<Rightarrow> Candidate list" where
  "mcpCandidatesFromScrapedTable dg obs tables =
     map (\<lambda>sid.
         let pairs = map_get [] tables sid;
             fs = foldl (\<lambda>m (k, v). map_put k (JStr v) m) [] pairs;
             transport = (if \<exists>kv \<in> set pairs. fst kv = ''url'' then ''http'' else ''stdio'')
         in candidate_of obs ''mcp_server'' (transport @ ''|'' @ sid)
              (os_Path (ob_Source obs) @ ''#mcp_servers.'' @ sid) (Some fs) (CanonicalDigest dg (JObj fs)) [])
       (sort (map_keys tables))"

definition extractMCPServerCandidates :: "(json \<Rightarrow> string) \<Rightarrow> Observation \<Rightarrow> Candidate list" where
  "extractMCPServerCandidates dg obs =
     (let whole = candidate_of obs ''mcp_server'' (os_Path (ob_Source obs)) (os_Path (ob_Source obs)) None
                    (contentDigest obs) []
      in case map_of (ob_OpaqueVendorFields obs) ''content'' of
           Some (JObj v) \<Rightarrow>
             (case firstNonNilTable v [''mcpServers'', ''mcp_servers''] of
                None \<Rightarrow> [whole]
              | Some table \<Rightarrow> mcpCandidatesFromJSONTable dg obs table)
         | Some (JStr v) \<Rightarrow>
             (let table = scrapeTOMLMCPServers v
              in if table = [] then [whole] else mcpCandidatesFromScrapedTable dg obs table)
         | _ \<Rightarrow> [whole])"

definition extract_one :: "(json \<Rightarrow> string) \<Rightarrow> Observation \<Rightarrow> Candidate list" where
  "extract_one dg obs =
     (if ob_Concept obs = ''instruction'' then [extractInstructionCandidate obs]
      else if ob_Concept obs = ''skill'' then [extractSkillCandidate obs]
      else if ob_Concept obs = ''mcp_server'' then extractMCPServerCandidates dg obs
      else [])"

definition ExtractCandidates :: "(json \<Rightarrow> string) \<Rightarrow> Observation list \<Rightarrow> Candidate list" where
  "ExtractCandidates dg observations =
     sort_key (\<lambda>c. (cd_Concept c, cd_LogicalID c, cd_Ref c)) (concat (map (extract_one dg) observations))"

section \<open>Identity matching\<close>

definition identity_key :: "Candidate \<Rightarrow> string" where
  "identity_key c = cd_Concept c @ [CHR 0x00] @ cd_LogicalID c"

definition group_of_key :: "Candidate list \<Rightarrow> string \<Rightarrow> LogicalGroup" where
  "group_of_key candidates key =
     (let parts = (case cut (CHR 0x00) key of Some p \<Rightarrow> p | None \<Rightarrow> (key, ''''))
      in \<lparr>lg_Concept = fst parts, lg_LogicalID = snd parts,
          lg_Candidates = sort_key cd_Ref (filter (\<lambda>c. identity_key c = key) candidates)\<rparr>)"

fun ambiguous_pairs :: "Candidate list \<Rightarrow> AmbiguousIdentity list" where
  "ambiguous_pairs [] = []"
| "ambiguous_pairs (a # mcp) =
     map (\<lambda>b. \<lparr>ai_Concept = ''mcp_server'', ai_A = a, ai_B = b,
                ai_Reason = Msg ''candidates %q (logical id %q) and %q (logical id %q) declare byte-identical connection definitions (command/args/env/url) under different logical IDs; this may be the same physical MCP server registered twice under different names, or two independent registrations that happen to share configuration -- preserved as ambiguous rather than merged into one entity or treated as confidently distinct''
                  [AStr (cd_Ref a), AStr (cd_LogicalID a), AStr (cd_Ref b), AStr (cd_LogicalID b)]\<rparr>)
       (filter (\<lambda>b. cd_LogicalID a \<noteq> cd_LogicalID b \<and> cd_ContentDigest a = cd_ContentDigest b) mcp)
     @ ambiguous_pairs mcp"

definition detectAmbiguousIdentities :: "Candidate list \<Rightarrow> AmbiguousIdentity list" where
  "detectAmbiguousIdentities candidates =
     ambiguous_pairs (sort_key cd_Ref
       (filter (\<lambda>c. cd_Concept c = ''mcp_server'' \<and> cd_Fields c \<noteq> None \<and> cd_ContentDigest c \<noteq> '''') candidates))"

definition MatchIdentities :: "Candidate list \<Rightarrow> LogicalGroup list \<times> AmbiguousIdentity list" where
  "MatchIdentities candidates =
     (map (group_of_key candidates) (sort (dedup_on id (map identity_key candidates))),
      detectAmbiguousIdentities candidates)"

section \<open>Duplicate capabilities\<close>

datatype ToolSourceKind = ToolSourceBuiltin | ToolSourceMCP | ToolSourcePlugin | ToolSourceOther string

fun ToolSourceKind_code :: "ToolSourceKind \<Rightarrow> string" where
  "ToolSourceKind_code ToolSourceBuiltin = ''builtin''"
| "ToolSourceKind_code ToolSourceMCP = ''mcp''"
| "ToolSourceKind_code ToolSourcePlugin = ''plugin''"
| "ToolSourceKind_code (ToolSourceOther s) = s"

record ToolSource =
  ts_Kind :: ToolSourceKind
  ts_Owner :: string
  ts_Ref :: string
  ts_Tool :: string

record DuplicateCapability =
  dc_Fingerprint :: string
  dc_Sources :: "ToolSource list"

definition Fingerprint :: "string \<Rightarrow> string" where
  "Fingerprint tool = filter (\<lambda>c. is_lower c \<or> is_digit c) (ToLower tool)"

definition DetectDuplicateCapabilities :: "ToolSource list \<Rightarrow> DuplicateCapability list" where
  "DetectDuplicateCapabilities sources =
     (let named = filter (\<lambda>s. Fingerprint (ts_Tool s) \<noteq> '''') sources;
          order = sort (dedup_on id (map (\<lambda>s. Fingerprint (ts_Tool s)) named));
          at = (\<lambda>fp. filter (\<lambda>s. Fingerprint (ts_Tool s) = fp) named)
      in map (\<lambda>fp. \<lparr>dc_Fingerprint = fp,
                     dc_Sources = sort_key (\<lambda>s. (ToolSourceKind_code (ts_Kind s), ts_Owner s, ts_Ref s)) (at fp)\<rparr>)
           (filter (\<lambda>fp. 2 \<le> length (remdups (map ts_Kind (at fp)))) order))"

definition MCPToolSources :: "Candidate list \<Rightarrow> ToolSource list" where
  "MCPToolSources candidates =
     concat (map (\<lambda>c. map (\<lambda>tool. \<lparr>ts_Kind = ToolSourceMCP, ts_Owner = cd_LogicalID c, ts_Ref = cd_Ref c, ts_Tool = tool\<rparr>)
                        (cd_Tools c))
       (filter (\<lambda>c. cd_Concept c = ''mcp_server'') candidates))"

section \<open>The graph\<close>

record EffectiveGraph =
  eg_Host :: string
  eg_HostVersion :: string
  eg_Entries :: "EffectiveEntry list"
  eg_Conflicts :: "Conflict list"
  eg_AmbiguousIdentities :: "AmbiguousIdentity list"
  eg_DuplicateCapabilities :: "DuplicateCapability list"

definition EffectiveGraph_Find :: "EffectiveGraph \<Rightarrow> string \<Rightarrow> string \<Rightarrow> EffectiveEntry option" where
  "EffectiveGraph_Find g concept lid = find (\<lambda>e. ee_Concept e = concept \<and> ee_LogicalID e = lid) (eg_Entries g)"

definition EffectiveGraph_ByConcept :: "EffectiveGraph \<Rightarrow> string \<Rightarrow> EffectiveEntry list" where
  "EffectiveGraph_ByConcept g concept = filter (\<lambda>e. ee_Concept e = concept) (eg_Entries g)"

definition EffectiveGraph_HasConflict :: "EffectiveGraph \<Rightarrow> string \<Rightarrow> string \<Rightarrow> bool" where
  "EffectiveGraph_HasConflict g concept lid \<longleftrightarrow>
     (\<exists>c \<in> set (eg_Conflicts g). cn_Concept c = concept \<and> cn_LogicalID c = lid)"

text \<open>The per-concept step: compose the concept, or resolve its groups one by one.\<close>

definition resolve_concept ::
  "(json \<Rightarrow> string) \<Rightarrow> HostKnowledge \<Rightarrow> Options \<Rightarrow> LogicalGroup list \<Rightarrow> string \<Rightarrow> (Conflict + EffectiveEntry) list" where
  "resolve_concept dg hk opts conceptGroups concept =
     (let capOps = map_get CapabilityOps_zero (hk_Capabilities hk) concept;
          (program, ok) = LookupProgram hk concept;
          operator = MergeOperator_of (pp_Operator program)
      in if ok \<and> MergeOperator_Valid operator \<and> operator = OpConcatOrdered
         then [Inr (ComposeConcept concept conceptGroups program capOps (op_ScopeRank opts))]
         else map (\<lambda>g. ResolveGroup dg g hk capOps opts) conceptGroups)"

definition lefts :: "('a + 'b) list \<Rightarrow> 'a list" where
  "lefts rs = concat (map (\<lambda>r. case r of Inl a \<Rightarrow> [a] | Inr b \<Rightarrow> []) rs)"

definition rights :: "('a + 'b) list \<Rightarrow> 'b list" where
  "rights rs = concat (map (\<lambda>r. case r of Inl a \<Rightarrow> [] | Inr b \<Rightarrow> [b]) rs)"

definition concept_results ::
  "(json \<Rightarrow> string) \<Rightarrow> HostKnowledge \<Rightarrow> Options \<Rightarrow> LogicalGroup list \<Rightarrow> (Conflict + EffectiveEntry) list" where
  "concept_results dg hk opts groups =
     concat (map (\<lambda>concept. resolve_concept dg hk opts (filter (\<lambda>g. lg_Concept g = concept) groups) concept)
       (sort (dedup_on id (map lg_Concept groups))))"

definition ComputeEffectiveGraph ::
  "(json \<Rightarrow> string) \<Rightarrow> string \<Rightarrow> string \<Rightarrow> Observation list \<Rightarrow> HostKnowledge \<Rightarrow> Options \<Rightarrow> ToolSource list \<Rightarrow>
   err + EffectiveGraph" where
  "ComputeEffectiveGraph dg host hostVersion observations hk opts extraToolSources =
     (case ValidateHostID host of
        Some e \<Rightarrow> Inl (Wrapf ''effective: ComputeEffectiveGraph: %w'' [] e)
      | None \<Rightarrow>
          (let candidates = ExtractCandidates dg (filter (\<lambda>o'. oh_ID (ob_Host o') = host) observations);
               (groups, ambiguous) = MatchIdentities candidates;
               results = concept_results dg hk opts groups
           in Inr \<lparr>eg_Host = host, eg_HostVersion = hostVersion,
                   eg_Entries = sort_key (\<lambda>e. (ee_Concept e, ee_LogicalID e)) (rights results),
                   eg_Conflicts = sort_key (\<lambda>c. (cn_Concept c, cn_LogicalID c)) (lefts results),
                   eg_AmbiguousIdentities = ambiguous,
                   eg_DuplicateCapabilities =
                     DetectDuplicateCapabilities (MCPToolSources candidates @ extraToolSources)\<rparr>))"

section \<open>The three planes\<close>

datatype Plane = PlaneObserved | PlaneEffective | PlaneDesired | PlaneOther string

record QueryResult =
  qr_Plane :: Plane
  qr_Concept :: string
  qr_ID :: string
  qr_Provenance :: Provenance
  qr_EvidenceLevel :: EvidenceLevel
  qr_Active :: bool
  qr_Reason :: message

record Graphs =
  gr_Host :: string
  gr_HostVersion :: string
  gr_Observed :: "Observation list"
  gr_Effective :: EffectiveGraph
  gr_Desired :: ResolvedState

definition ObservedGraph_ByConcept :: "Observation list \<Rightarrow> string \<Rightarrow> Observation list" where
  "ObservedGraph_ByConcept g concept = filter (\<lambda>x. ob_Concept x = concept) g"

definition ObservedGraph_Find :: "Observation list \<Rightarrow> string \<Rightarrow> string \<Rightarrow> Observation option" where
  "ObservedGraph_Find g concept path = find (\<lambda>x. ob_Concept x = concept \<and> os_Path (ob_Source x) = path) g"

text \<open>The conversion \<^verbatim>\<open>resolve.AssetKind(s)\<close> of a raw string.\<close>

definition AssetKind_of :: "string \<Rightarrow> AssetKind" where
  "AssetKind_of s =
     (if s = ''skill'' then KindSkill else if s = ''mcpServer'' then KindMCPServer
      else if s = ''instruction'' then KindInstruction else KindOther s)"

definition conceptToAssetKind :: "string \<Rightarrow> AssetKind" where
  "conceptToAssetKind concept =
     (if concept = ''mcp_server'' then KindMCPServer
      else if concept = ''skill'' then KindSkill
      else if concept = ''instruction'' then KindInstruction
      else AssetKind_of concept)"

definition Graphs_Query :: "Graphs \<Rightarrow> Plane \<Rightarrow> string \<Rightarrow> string \<Rightarrow> QueryResult option" where
  "Graphs_Query g plane concept sid =
     (case plane of
        PlaneObserved \<Rightarrow>
          map_option (\<lambda>obs. \<lparr>qr_Plane = plane, qr_Concept = concept, qr_ID = sid, qr_Provenance = Provenance_zero,
              qr_EvidenceLevel = ob_EvidenceLevel obs, qr_Active = (ob_Disposition obs = DispActive),
              qr_Reason = Msg (SourceDisposition_code (ob_Disposition obs)) []\<rparr>)
            (ObservedGraph_Find (gr_Observed g) concept sid)
      | PlaneEffective \<Rightarrow>
          map_option (\<lambda>e. \<lparr>qr_Plane = plane, qr_Concept = concept, qr_ID = sid, qr_Provenance = ee_Provenance e,
              qr_EvidenceLevel = ee_EvidenceLevel e,
              qr_Active = (pv_SelectedSource (ee_Provenance e) \<noteq> '''' \<or> 0 < length (pv_ActiveSources (ee_Provenance e))),
              qr_Reason = ee_Reason e\<rparr>)
            (EffectiveGraph_Find (gr_Effective g) concept sid)
      | PlaneDesired \<Rightarrow>
          map_option (\<lambda>a. \<lparr>qr_Plane = plane, qr_Concept = concept, qr_ID = sid, qr_Provenance = Provenance_zero,
              qr_EvidenceLevel = EvOther '''', qr_Active = ra_Active a, qr_Reason = ra_Reason a\<rparr>)
            (ResolvedState_Find (gr_Desired g) (conceptToAssetKind concept) sid)
      | PlaneOther _ \<Rightarrow> None)"

section \<open>Identity matching: lemmas\<close>

lemma cut_append: "z \<notin> set a \<Longrightarrow> cut z (a @ z # b) = Some (a, b)"
  by (induction a) (auto simp: cut_def)

lemma identity_cut: "CHR 0x00 \<notin> set (cd_Concept c) \<Longrightarrow> cut (CHR 0x00) (identity_key c) = Some (cd_Concept c, cd_LogicalID c)"
  by (simp add: identity_key_def cut_append)

lemma identity_key_eq:
  "CHR 0x00 \<notin> set (cd_Concept c) \<Longrightarrow> CHR 0x00 \<notin> set (cd_Concept d) \<Longrightarrow>
   identity_key c = identity_key d \<longleftrightarrow> cd_Concept c = cd_Concept d \<and> cd_LogicalID c = cd_LogicalID d"
proof -
  assume a: "CHR 0x00 \<notin> set (cd_Concept c)" "CHR 0x00 \<notin> set (cd_Concept d)"
  show ?thesis
  proof
    assume "identity_key c = identity_key d"
    then have "Some (cd_Concept c, cd_LogicalID c) = Some (cd_Concept d, cd_LogicalID d)"
      using identity_cut [OF a(1)] identity_cut [OF a(2)] by metis
    then show "cd_Concept c = cd_Concept d \<and> cd_LogicalID c = cd_LogicalID d" by simp
  qed (simp add: identity_key_def)
qed

lemma group_of_key_key:
  "CHR 0x00 \<notin> set (cd_Concept c) \<Longrightarrow>
   group_of_key cs (identity_key c) =
     \<lparr>lg_Concept = cd_Concept c, lg_LogicalID = cd_LogicalID c,
      lg_Candidates = sort_key cd_Ref (filter (\<lambda>d. identity_key d = identity_key c) cs)\<rparr>"
  by (simp add: group_of_key_def identity_cut)

definition plain_concepts :: "Candidate list \<Rightarrow> bool" where
  "plain_concepts cs \<longleftrightarrow> (\<forall>c \<in> set cs. CHR 0x00 \<notin> set (cd_Concept c))"

definition groups_of :: "Candidate list \<Rightarrow> LogicalGroup list" where
  "groups_of cs = fst (MatchIdentities cs)"

lemma groups_of_eq: "groups_of cs = map (group_of_key cs) (sort (dedup_on id (map identity_key cs)))"
  by (simp add: groups_of_def MatchIdentities_def)

lemma set_identity_order: "set (sort (dedup_on id (map identity_key cs))) = identity_key ` set cs"
  using dedup_on_keys [of id "map identity_key cs"] by simp

lemma distinct_identity_order: "distinct (sort (dedup_on id (map identity_key cs)))"
  using dedup_on_distinct [of id "map identity_key cs"] by simp

lemma groups_of_mset: "mset (concat (map lg_Candidates (groups_of cs))) = mset cs"
proof -
  have "mset (concat (map lg_Candidates (groups_of cs))) =
      (\<Sum>x\<leftarrow>sort (dedup_on id (map identity_key cs)). mset (filter (\<lambda>c. identity_key c = x) cs))"
    by (simp add: groups_of_eq mset_concat o_def group_of_key_def Let_def)
  also have "\<dots> = mset cs"
    by (rule mset_buckets [OF distinct_identity_order]) (simp only: set_identity_order)
  finally show ?thesis .
qed

lemma groups_of_mem:
  assumes "plain_concepts cs"
  shows "g \<in> set (groups_of cs) \<longleftrightarrow> (\<exists>c \<in> set cs. g = group_of_key cs (identity_key c))"
    and "g \<in> set (groups_of cs) \<Longrightarrow> lg_Candidates g \<noteq> []"
    and "g \<in> set (groups_of cs) \<Longrightarrow> c \<in> set (lg_Candidates g) \<longleftrightarrow>
           c \<in> set cs \<and> cd_Concept c = lg_Concept g \<and> cd_LogicalID c = lg_LogicalID g"
proof -
  show iff: "g \<in> set (groups_of cs) \<longleftrightarrow> (\<exists>c \<in> set cs. g = group_of_key cs (identity_key c))" for g
    unfolding groups_of_eq set_map set_identity_order by blast
  show "lg_Candidates g \<noteq> []" if g: "g \<in> set (groups_of cs)"
  proof -
    from g iff obtain d where d: "d \<in> set cs" "g = group_of_key cs (identity_key d)" by blast
    then have "d \<in> set (lg_Candidates g)" by (simp add: group_of_key_def Let_def)
    then show ?thesis by auto
  qed
  show "c \<in> set (lg_Candidates g) \<longleftrightarrow> c \<in> set cs \<and> cd_Concept c = lg_Concept g \<and> cd_LogicalID c = lg_LogicalID g"
    if g: "g \<in> set (groups_of cs)"
  proof -
    from g iff obtain d where d: "d \<in> set cs" "g = group_of_key cs (identity_key d)" by blast
    have p: "CHR 0x00 \<notin> set (cd_Concept x)" if "x \<in> set cs" for x using assms that by (simp add: plain_concepts_def)
    show ?thesis using identity_key_eq [OF p p, of c d] d by (auto simp: group_of_key_key [OF p])
  qed
qed

lemma groups_of_distinct:
  assumes "plain_concepts cs"
  shows "distinct (map (\<lambda>g. (lg_Concept g, lg_LogicalID g)) (groups_of cs))"
proof -
  have p: "CHR 0x00 \<notin> set (cd_Concept x)" if "x \<in> set cs" for x using assms that by (simp add: plain_concepts_def)
  have "inj_on (\<lambda>k. (lg_Concept (group_of_key cs k), lg_LogicalID (group_of_key cs k))) (identity_key ` set cs)"
    by (rule inj_onI) (auto simp: group_of_key_key [OF p] identity_key_eq [OF p p])
  then show ?thesis
    unfolding groups_of_eq map_map o_def
    by (simp add: distinct_map distinct_identity_order set_identity_order del: distinct_sort set_sort)
qed

definition known_concepts :: "string set" where
  "known_concepts = {''instruction'', ''skill'', ''mcp_server''}"

lemma cd_Concept_candidate_of [simp]: "cd_Concept (candidate_of obs concept lid ref fs digest tools) = concept"
  by (simp add: candidate_of_def)

lemma mcp_table_concept:
  "c \<in> set (mcpCandidatesFromJSONTable dg obs table) \<Longrightarrow> cd_Concept c = ''mcp_server''"
  "c \<in> set (mcpCandidatesFromScrapedTable dg obs tables) \<Longrightarrow> cd_Concept c = ''mcp_server''"
  by (auto simp: mcpCandidatesFromJSONTable_def mcpCandidatesFromScrapedTable_def Let_def)

lemma mcp_concept: "c \<in> set (extractMCPServerCandidates dg obs) \<Longrightarrow> cd_Concept c = ''mcp_server''"
  unfolding extractMCPServerCandidates_def Let_def
  by (auto split: option.splits json.splits if_splits dest: mcp_table_concept)

lemma extract_concept: "c \<in> set (extract_one dg x) \<Longrightarrow> cd_Concept c \<in> known_concepts"
  by (auto simp: extract_one_def extractInstructionCandidate_def extractSkillCandidate_def known_concepts_def
      dest: mcp_concept split: if_splits)

lemma extract_plain: "plain_concepts (ExtractCandidates dg obs)"
proof -
  have "CHR 0x00 \<notin> set concept" if "concept \<in> known_concepts" for concept
    using that by (auto simp: known_concepts_def)
  then show ?thesis using extract_concept unfolding plain_concepts_def ExtractCandidates_def by fastforce
qed

section \<open>The graph: lemmas\<close>

lemma rights_iff [simp]: "e \<in> set (rights rs) \<longleftrightarrow> Inr e \<in> set rs"
  by (induction rs) (auto simp: rights_def split: sum.splits)

lemma lefts_iff [simp]: "c \<in> set (lefts rs) \<longleftrightarrow> Inl c \<in> set rs"
  by (induction rs) (auto simp: lefts_def split: sum.splits)

definition composed :: "HostKnowledge \<Rightarrow> string \<Rightarrow> bool" where
  "composed hk concept \<longleftrightarrow> (case LookupProgram hk concept of (p, ok) \<Rightarrow> ok \<and> MergeOperator_of (pp_Operator p) = OpConcatOrdered)"

lemma resolve_concept_cases:
  "resolve_concept dg hk opts gs concept =
     (if composed hk concept
      then [Inr (ComposeConcept concept gs (fst (LookupProgram hk concept)) (map_get CapabilityOps_zero (hk_Capabilities hk) concept)
              (op_ScopeRank opts))]
      else map (\<lambda>g. ResolveGroup dg g hk (map_get CapabilityOps_zero (hk_Capabilities hk) concept) opts) gs)"
  by (auto simp: resolve_concept_def composed_def Let_def split: prod.splits)

lemma concept_results_iff:
  "r \<in> set (concept_results dg hk opts gs) \<longleftrightarrow>
     (\<exists>g \<in> set gs. r \<in> set (resolve_concept dg hk opts (filter (\<lambda>h. lg_Concept h = lg_Concept g) gs) (lg_Concept g)))"
proof -
  have "set (sort (dedup_on id (map lg_Concept gs))) = lg_Concept ` set gs"
    using dedup_on_keys [of id "map lg_Concept gs"] by simp
  then show ?thesis by (auto simp: concept_results_def)
qed

lemma ComputeEffectiveGraph_Inr:
  assumes "ComputeEffectiveGraph dg host ver obs hk opts extra = Inr g"
  defines "cs \<equiv> ExtractCandidates dg (filter (\<lambda>x. oh_ID (ob_Host x) = host) obs)"
  shows "e \<in> set (eg_Entries g) \<longleftrightarrow> Inr e \<in> set (concept_results dg hk opts (groups_of cs))"
    and "c \<in> set (eg_Conflicts g) \<longleftrightarrow> Inl c \<in> set (concept_results dg hk opts (groups_of cs))"
  using assms by (auto simp: ComputeEffectiveGraph_def groups_of_def Let_def case_prod_beta split: option.splits)

text \<open>Sample observations for the witnesses.\<close>

definition sample_observation :: "string \<Rightarrow> string \<Rightarrow> string \<Rightarrow> json gomap \<Rightarrow> Observation" where
  "sample_observation concept path digest opaque =
     \<lparr>ob_APIVersion = SupportedAPIVersion, ob_Kind = ''Observation'', ob_ID = path,
      ob_Host = \<lparr>oh_ID = ''codex'', oh_Version = ''0.1.0''\<rparr>, ob_Surface = ''cli'', ob_Concept = concept,
      ob_Source = \<lparr>os_Kind = ''file'', os_Path = path, os_Digest = digest\<rparr>,
      ob_Scope = \<lparr>osc_Kind = ''user'', osc_Root = ''/r'', osc_Selector = '''', osc_Shared = False, osc_TrustRequired = False\<rparr>,
      ob_Disposition = DispActive, ob_EvidenceLevel = EvParsed, ob_RawDigest = '''', ob_ParsedDigest = '''',
      ob_OpaqueVendorFields = opaque\<rparr>"

definition sample_observations :: "Observation list" where
  "sample_observations =
     [sample_observation ''mcp_server'' ''/m'' ''m''
        [(''content'', JStr ''[mcp_servers.gh]
command = gh
'')],
      sample_observation ''skill'' ''/s/web/SKILL.md'' ''d1'' [],
      sample_observation ''skill'' ''/t/web/SKILL.md'' ''d2'' []]"

section \<open>Properties\<close>

text \<open>The identity matcher partitions its input: every candidate is in exactly one group, no group is
empty, the candidates of a group agree on concept and logical identifier, and no two groups share both.\<close>

theorem match_identities_partition:
  assumes "\<forall>c \<in> set cs. CHR 0x00 \<notin> set (cd_Concept c)"
  shows "(let gs = fst (MatchIdentities cs)
     in mset (concat (map lg_Candidates gs)) = mset cs \<and>
        (\<forall>g \<in> set gs. lg_Candidates g \<noteq> [] \<and>
           (\<forall>c \<in> set (lg_Candidates g). cd_Concept c = lg_Concept g \<and> cd_LogicalID c = lg_LogicalID g)) \<and>
        distinct (map (\<lambda>g. (lg_Concept g, lg_LogicalID g)) gs))"
proof -
  have p: "plain_concepts cs" using assms by (simp add: plain_concepts_def)
  show ?thesis
    unfolding Let_def groups_of_def [symmetric]
    using groups_of_mset groups_of_mem(2,3) [OF p] groups_of_distinct [OF p] by blast
qed

lemma match_identities_partition_witness:
  "(let cs = ExtractCandidates sample_digest sample_observations; gs = fst (MatchIdentities cs)
     in mset (concat (map lg_Candidates gs)) = mset cs \<and>
        (\<forall>g \<in> set gs. lg_Candidates g \<noteq> [] \<and>
           (\<forall>c \<in> set (lg_Candidates g). cd_Concept c = lg_Concept g \<and> cd_LogicalID c = lg_LogicalID g)) \<and>
        distinct (map (\<lambda>g. (lg_Concept g, lg_LogicalID g)) gs))"
  unfolding Let_def by (rule match_identities_partition [unfolded Let_def]) code_simp

text \<open>C15: the Effective Graph drops no source. Every candidate extracted from an observation of the host
ends in the composed entry of its concept as an active source, in an entry for its logical entity, or in a
conflict that lists it.\<close>

theorem effective_graph_accounts_for_candidates:
  assumes "ComputeEffectiveGraph dg host ver obs hk opts extra = Inr g"
    and "c \<in> set (ExtractCandidates dg (filter (\<lambda>x. oh_ID (ob_Host x) = host) obs))"
  shows "(\<exists>e \<in> set (eg_Entries g). ee_Concept e = cd_Concept c \<and>
            (if ee_Composed e then cd_Ref c \<in> set (pv_ActiveSources (ee_Provenance e)) else ee_LogicalID e = cd_LogicalID c)) \<or>
         (\<exists>k \<in> set (eg_Conflicts g). cn_Concept k = cd_Concept c \<and> cn_LogicalID k = cd_LogicalID c \<and> c \<in> set (cn_Candidates k))"
proof -
  let ?cs = "ExtractCandidates dg (filter (\<lambda>x. oh_ID (ob_Host x) = host) obs)"
  let ?g = "group_of_key ?cs (identity_key c)"
  have p: "plain_concepts ?cs" by (rule extract_plain)
  have g: "?g \<in> set (groups_of ?cs)" using groups_of_mem(1) [OF p] assms(2) by blast
  have k: "lg_Concept ?g = cd_Concept c" "lg_LogicalID ?g = cd_LogicalID c" "c \<in> set (lg_Candidates ?g)"
    using p assms(2) by (simp_all add: plain_concepts_def group_of_key_key)
  let ?gs = "filter (\<lambda>h. lg_Concept h = lg_Concept ?g) (groups_of ?cs)"
  have mem: "r \<in> set (resolve_concept dg hk opts ?gs (cd_Concept c)) \<Longrightarrow> r \<in> set (concept_results dg hk opts (groups_of ?cs))" for r
    unfolding concept_results_iff using g k(1) by metis
  show ?thesis
  proof (cases "composed hk (cd_Concept c)")
    case True
    let ?e = "ComposeConcept (cd_Concept c) ?gs (fst (LookupProgram hk (cd_Concept c)))
        (map_get CapabilityOps_zero (hk_Capabilities hk) (cd_Concept c)) (op_ScopeRank opts)"
    have "?e \<in> set (eg_Entries g)"
      unfolding ComputeEffectiveGraph_Inr(1) [OF assms(1)] by (rule mem) (simp add: resolve_concept_cases True)
    moreover have "ee_Composed ?e" "ee_Concept ?e = cd_Concept c"
      "pv_ActiveSources (ee_Provenance ?e) = candidateRefs (concat (map lg_Candidates ?gs))"
      by (simp_all add: ComposeConcept_def Let_def split: prod.splits)
    moreover have "cd_Ref c \<in> set (candidateRefs (concat (map lg_Candidates ?gs)))"
      using g k(3) by (simp only: set_candidateRefs set_concat set_map set_filter) blast
    ultimately show ?thesis by metis
  next
    case False
    let ?r = "ResolveGroup dg ?g hk (map_get CapabilityOps_zero (hk_Capabilities hk) (cd_Concept c)) opts"
    have r: "?r \<in> set (concept_results dg hk opts (groups_of ?cs))"
      by (rule mem) (use False g in \<open>simp add: resolve_concept_cases k(1)\<close>)
    show ?thesis
    proof (cases ?r)
      case (Inl conf)
      with r have "conf \<in> set (eg_Conflicts g)" by (simp add: ComputeEffectiveGraph_Inr(2) [OF assms(1)])
      with group_op.conflict_identity [OF Inl] group_op.conflict_keeps_candidates [OF Inl] k show ?thesis by metis
    next
      case (Inr e)
      with r have "e \<in> set (eg_Entries g)" by (simp add: ComputeEffectiveGraph_Inr(1) [OF assms(1)])
      with group_op.entry_identity [OF Inr] k show ?thesis by metis
    qed
  qed
qed

lemma effective_graph_accounts_witness:
  "(let g = projr (ComputeEffectiveGraph sample_digest ''codex'' ''0.1.0'' sample_observations (sample_knowledge []) sample_options []);
        c = hd (ExtractCandidates sample_digest sample_observations)
    in (\<exists>e \<in> set (eg_Entries g). ee_Concept e = cd_Concept c \<and>
            (if ee_Composed e then cd_Ref c \<in> set (pv_ActiveSources (ee_Provenance e)) else ee_LogicalID e = cd_LogicalID c)) \<or>
         (\<exists>k \<in> set (eg_Conflicts g). cn_Concept k = cd_Concept c \<and> cn_LogicalID k = cd_LogicalID c \<and> c \<in> set (cn_Candidates k)))"
  unfolding Let_def
  by (rule effective_graph_accounts_for_candidates [where dg = sample_digest and host = "''codex''" and ver = "''0.1.0''"
        and obs = sample_observations and hk = "sample_knowledge []" and opts = sample_options and extra = "[]"]) code_simp+

text \<open>Duplicate capabilities are detected exactly. A fingerprint is reported, once, when it is not
empty and tools of two different source kinds have it, and its report lists all the tools that have it.\<close>

theorem duplicate_capabilities_exact:
  "(let ds = DetectDuplicateCapabilities sources
    in distinct (map dc_Fingerprint ds) \<and>
       (\<forall>fp. fp \<in> dc_Fingerprint ` set ds \<longleftrightarrow> fp \<noteq> [] \<and>
          (\<exists>s \<in> set sources. \<exists>t \<in> set sources. ts_Kind s \<noteq> ts_Kind t \<and> Fingerprint (ts_Tool s) = fp \<and> Fingerprint (ts_Tool t) = fp)) \<and>
       (\<forall>d \<in> set ds. mset (dc_Sources d) = mset (filter (\<lambda>s. Fingerprint (ts_Tool s) = dc_Fingerprint d) sources)))"
proof -
  let ?named = "filter (\<lambda>s. Fingerprint (ts_Tool s) \<noteq> []) sources"
  let ?at = "\<lambda>fp. filter (\<lambda>s. Fingerprint (ts_Tool s) = fp) ?named"
  let ?order = "sort (dedup_on id (map (\<lambda>s. Fingerprint (ts_Tool s)) ?named))"
  have order: "set ?order = (\<lambda>s. Fingerprint (ts_Tool s)) ` set ?named"
    using dedup_on_keys [of id "map (\<lambda>s. Fingerprint (ts_Tool s)) ?named"] by simp
  have dist: "distinct ?order"
    using dedup_on_distinct [of id "map (\<lambda>s. Fingerprint (ts_Tool s)) ?named"] by simp
  have two: "2 \<le> length (remdups xs) \<longleftrightarrow> (\<exists>a \<in> set xs. \<exists>b \<in> set xs. a \<noteq> b)" for xs :: "ToolSourceKind list"
  proof -
    have "2 \<le> card A \<longleftrightarrow> (\<exists>a \<in> A. \<exists>b \<in> A. a \<noteq> b)" if "finite A" for A :: "ToolSourceKind set"
      using that by (metis One_nat_def Suc_1 card_le_Suc0_iff_eq not_less_eq_eq)
    then show ?thesis by (simp add: length_remdups_card_conv)
  qed
  let ?fps = "filter (\<lambda>fp. 2 \<le> length (remdups (map ts_Kind (?at fp)))) ?order"
  have ds: "map dc_Fingerprint (DetectDuplicateCapabilities sources) = ?fps"
    by (simp add: DetectDuplicateCapabilities_def Let_def o_def)
  have at: "?at fp = filter (\<lambda>s. Fingerprint (ts_Tool s) = fp) sources" if "fp \<noteq> []" for fp
    using that by (auto intro: filter_cong)
  have "distinct (map dc_Fingerprint (DetectDuplicateCapabilities sources))" unfolding ds using dist by simp
  moreover have "fp \<in> dc_Fingerprint ` set (DetectDuplicateCapabilities sources) \<longleftrightarrow> fp \<noteq> [] \<and>
      (\<exists>s \<in> set sources. \<exists>t \<in> set sources. ts_Kind s \<noteq> ts_Kind t \<and> Fingerprint (ts_Tool s) = fp \<and> Fingerprint (ts_Tool t) = fp)" for fp
  proof -
    have "fp \<in> dc_Fingerprint ` set (DetectDuplicateCapabilities sources) \<longleftrightarrow> fp \<in> set ?fps"
      by (simp only: set_map [symmetric] ds)
    also have "\<dots> \<longleftrightarrow> fp \<noteq> [] \<and> (\<exists>s \<in> set sources. \<exists>t \<in> set sources. ts_Kind s \<noteq> ts_Kind t \<and>
        Fingerprint (ts_Tool s) = fp \<and> Fingerprint (ts_Tool t) = fp)"
    proof
      assume "fp \<in> set ?fps"
      then have "fp \<in> set ?order" and "\<exists>a \<in> set (map ts_Kind (?at fp)). \<exists>b \<in> set (map ts_Kind (?at fp)). a \<noteq> b"
        by (simp_all only: set_filter mem_Collect_eq two)
      with order show "fp \<noteq> [] \<and> (\<exists>s \<in> set sources. \<exists>t \<in> set sources. ts_Kind s \<noteq> ts_Kind t \<and>
        Fingerprint (ts_Tool s) = fp \<and> Fingerprint (ts_Tool t) = fp)" by fastforce
    next
      assume "fp \<noteq> [] \<and> (\<exists>s \<in> set sources. \<exists>t \<in> set sources. ts_Kind s \<noteq> ts_Kind t \<and>
        Fingerprint (ts_Tool s) = fp \<and> Fingerprint (ts_Tool t) = fp)"
      then obtain s t where st: "fp \<noteq> []" "s \<in> set sources" "t \<in> set sources" "ts_Kind s \<noteq> ts_Kind t"
        "Fingerprint (ts_Tool s) = fp" "Fingerprint (ts_Tool t) = fp" by blast
      then have at: "s \<in> set (?at fp)" "t \<in> set (?at fp)" by simp_all
      then have "fp \<in> set ?order" unfolding order using st by auto
      moreover have "2 \<le> length (remdups (map ts_Kind (?at fp)))"
      proof -
        have "ts_Kind s \<in> set (map ts_Kind (?at fp))" "ts_Kind t \<in> set (map ts_Kind (?at fp))"
          unfolding set_map by (rule imageI, rule at(1), rule imageI, rule at(2))
        then show ?thesis unfolding two using st(4) by blast
      qed
      ultimately show "fp \<in> set ?fps" unfolding set_filter by blast
    qed
    finally show ?thesis .
  qed
  moreover have "mset (dc_Sources d) = mset (filter (\<lambda>s. Fingerprint (ts_Tool s) = dc_Fingerprint d) sources)"
    if d: "d \<in> set (DetectDuplicateCapabilities sources)" for d
  proof -
    have "dc_Fingerprint d \<in> set ?order"
      using d by (auto simp: DetectDuplicateCapabilities_def Let_def)
    then have "dc_Fingerprint d \<noteq> []" using order by auto
    then have "?at (dc_Fingerprint d) = filter (\<lambda>s. Fingerprint (ts_Tool s) = dc_Fingerprint d) sources" by (rule at)
    moreover have "mset (dc_Sources d) = mset (?at (dc_Fingerprint d))"
      using d by (auto simp: DetectDuplicateCapabilities_def Let_def)
    ultimately show ?thesis by (simp only:)
  qed
  ultimately show ?thesis unfolding Let_def by blast
qed

lemma duplicate_capabilities_exact_witness:
  "(let sources = [\<lparr>ts_Kind = ToolSourceMCP, ts_Owner = ''gh'', ts_Ref = ''m'', ts_Tool = ''web_search''\<rparr>,
                   \<lparr>ts_Kind = ToolSourceBuiltin, ts_Owner = '''', ts_Ref = ''b'', ts_Tool = ''WebSearch''\<rparr>];
        ds = DetectDuplicateCapabilities sources
    in map dc_Fingerprint ds = [''websearch''] \<and> distinct (map dc_Fingerprint ds) \<and>
       (\<forall>fp. fp \<in> dc_Fingerprint ` set ds \<longleftrightarrow> fp \<noteq> [] \<and>
          (\<exists>s \<in> set sources. \<exists>t \<in> set sources. ts_Kind s \<noteq> ts_Kind t \<and> Fingerprint (ts_Tool s) = fp \<and> Fingerprint (ts_Tool t) = fp)) \<and>
       (\<forall>d \<in> set ds. mset (dc_Sources d) = mset (filter (\<lambda>s. Fingerprint (ts_Tool s) = dc_Fingerprint d) sources)))"
  unfolding Let_def by (rule conjI, code_simp, rule duplicate_capabilities_exact [unfolded Let_def])

end
