(* ===== verification/Go_Paths.thy ===== *)
theory Go_Paths
  imports Go_Strings
begin

text \<open>
  \<^verbatim>\<open>filepath.Join\<close> and \<^verbatim>\<open>filepath.Rel\<close> (on Unix), with the laws the runtime relies on: a path is determined by
  its cleaned elements, joining appends elements, and a relative path leads back to its target.
\<close>

definition Join :: "string list \<Rightarrow> string" where
  "Join es = (case dropWhile (\<lambda>e. e = []) es of [] \<Rightarrow> [] | fs \<Rightarrow> Clean (join_with ''/'' fs))"

text \<open>The elements of a cleaned path.\<close>

definition path_elems :: "string \<Rightarrow> string list" where
  "path_elems p = (if p = [] \<or> p = ''/'' then [] else split_on CHR ''/'' (if IsAbs p then tl p else p))"

fun rel_walk :: "string list \<Rightarrow> string list \<Rightarrow> string list \<times> string list" where
  "rel_walk (b # bs) (t # ts) = (if b = t then rel_walk bs ts else (b # bs, t # ts))"
| "rel_walk bs ts = (bs, ts)"

definition Rel :: "string \<Rightarrow> string \<Rightarrow> err + string" where
  "Rel basepath targpath =
     (let b0 = Clean basepath; t = Clean targpath;
          failed = Errorf ''Rel: can't make %s relative to %s'' [AStr targpath, AStr basepath]
      in if t = b0 then Inr ''.''
         else let b = (if b0 = ''.'' then [] else b0) in
              if IsAbs b \<noteq> IsAbs t then Inl failed
              else let (bs, ts) = rel_walk (path_elems b) (path_elems t) in
                   if bs \<noteq> [] \<and> ts \<noteq> [] \<and> hd bs = ''..'' then Inl failed
                   else Inr (join_with ''/'' (replicate (length bs) ''..'' @ ts)))"

text \<open>\<open>elems\<close> is what a path means: its elements after cleaning.\<close>

definition elems :: "string \<Rightarrow> string list" where
  "elems p = clean_elems (IsAbs p) [] (split_on CHR ''/'' p)"

section \<open>Lemmas\<close>

lemma split_on_app: "split_on c (a @ c # b) = split_on c a @ split_on c b"
proof (induction a)
  case (Cons x a)
  obtain y ys where "split_on c a = y # ys" by (metis list.exhaust split_on_not_Nil)
  with Cons show ?case by simp
qed simp

lemma join_with_append:
  "xs \<noteq> [] \<Longrightarrow> ys \<noteq> [] \<Longrightarrow> join_with s (xs @ ys) = join_with s xs @ s @ join_with s ys"
proof (induction xs)
  case (Cons x xs)
  show ?case
  proof (cases xs)
    case Nil
    then show ?thesis using Cons.prems by (cases ys) auto
  next
    case (Cons z zs)
    then show ?thesis using Cons.IH Cons.prems by simp
  qed
qed simp

text \<open>A list of elements that cleaning keeps as they are.\<close>

definition plain_elems :: "string list \<Rightarrow> bool" where
  "plain_elems es \<longleftrightarrow> (\<forall>e \<in> set es. e \<noteq> [] \<and> e \<noteq> ''.'' \<and> e \<noteq> ''..'' \<and> CHR ''/'' \<notin> set e)"

lemma plain_elems_simps [simp]:
  "plain_elems []"
  "plain_elems (e # es) \<longleftrightarrow> (e \<noteq> [] \<and> e \<noteq> ''.'' \<and> e \<noteq> ''..'' \<and> CHR ''/'' \<notin> set e) \<and> plain_elems es"
  "plain_elems (es @ fs) \<longleftrightarrow> plain_elems es \<and> plain_elems fs"
  by (auto simp: plain_elems_def)

lemma clean_elems_plain: "plain_elems es \<Longrightarrow> clean_elems rooted out (es @ fs) = clean_elems rooted (rev es @ out) fs"
  by (induction es arbitrary: out) auto

lemma clean_elems_append:
  "clean_elems rooted out (xs @ ys) = clean_elems rooted (rev (clean_elems rooted out xs)) ys"
proof (induction xs arbitrary: out)
  case (Cons e xs)
  consider "e = [] \<or> e = ''.''" | "e = ''..''" "out = []" | x out' where "e = ''..''" "out = x # out'"
    | "e \<noteq> []" "e \<noteq> ''.''" "e \<noteq> ''..''" by (cases out) auto
  then show ?case by cases (insert Cons.IH, auto)
qed simp

lemma clean_elems_dotdot: "b \<noteq> ''..'' \<Longrightarrow> clean_elems rooted (b # out) (''..'' # es) = clean_elems rooted out es"
  by simp

lemma clean_elems_up: "plain_elems bs \<Longrightarrow> clean_elems rooted (rev bs @ out) (replicate (length bs) ''..'' @ ts) = clean_elems rooted out ts"
proof (induction bs arbitrary: ts rule: rev_induct)
  case (snoc b bs)
  have "clean_elems rooted (rev (bs @ [b]) @ out) (replicate (length (bs @ [b])) ''..'' @ ts)
      = clean_elems rooted (b # rev bs @ out) (''..'' # replicate (length bs) ''..'' @ ts)"
    by (simp del: clean_elems.simps)
  also have "\<dots> = clean_elems rooted (rev bs @ out) (replicate (length bs) ''..'' @ ts)"
    by (rule clean_elems_dotdot) (use snoc.prems in simp)
  also have "\<dots> = clean_elems rooted out ts" by (rule snoc.IH) (use snoc.prems in simp)
  finally show ?case .
qed simp

lemma clean_elems_subset: "set (clean_elems rooted out es) \<subseteq> insert ''..'' (set out \<union> set es)"
proof (induction es arbitrary: out)
  case (Cons e es)
  consider "e = [] \<or> e = ''.''" | "e = ''..''" "out = []" | x out' where "e = ''..''" "out = x # out'"
    | "e \<noteq> []" "e \<noteq> ''.''" "e \<noteq> ''..''" by (cases out) auto
  then show ?case
  proof cases
    case 2
    show ?thesis using Cons [of "[]"] Cons [of "[''..'']"] 2 by (cases rooted) auto
  next
    case (3 x out')
    show ?thesis using Cons [of "''..'' # out"] Cons [of out'] 3 by (cases "x = ''..''") auto
  next
    case 4
    show ?thesis using Cons [of "e # out"] 4 by auto
  qed (use Cons [of out] in auto)
qed auto

lemma elems_plain:
  assumes "IsAbs p"
  shows "plain_elems (elems p)"
proof -
  have c: "clean_list True (elems p)"
    unfolding elems_def using assms by (simp add: clean_elems_clean clean_stack_def)
  have "CHR ''/'' \<notin> set e" if "e \<in> set (elems p)" for e
  proof -
    from that have "e = ''..'' \<or> e \<in> set (split_on CHR ''/'' p)"
      using clean_elems_subset [of "IsAbs p" "[]" "split_on CHR ''/'' p"] by (auto simp: elems_def)
    then show ?thesis using split_on_no_sep by auto
  qed
  with c show ?thesis by (auto simp: plain_elems_def clean_list_def)
qed

lemma Clean_abs: "IsAbs p \<Longrightarrow> Clean p = CHR ''/'' # join_with ''/'' (elems p)"
  by (simp add: Clean_def elems_def Let_def)

lemma IsAbs_Cons [simp]: "IsAbs (CHR ''/'' # p)" "\<not> IsAbs []"
  by (simp_all add: IsAbs_def has_prefix_def)

lemma IsAbs_append: "IsAbs p \<Longrightarrow> IsAbs (p @ q)"
  by (auto simp: IsAbs_def has_prefix_iff)

lemma split_slash_join: "plain_elems es \<Longrightarrow> split_on CHR ''/'' (join_with ''/'' es) = (if es = [] then [[]] else es)"
  by (auto simp: plain_elems_def intro: split_on_join)

lemma elems_slash_join:
  assumes "plain_elems es"
  shows "elems (CHR ''/'' # join_with ''/'' es) = es"
proof -
  have "elems (CHR ''/'' # join_with ''/'' es) = clean_elems True [] (if es = [] then [[]] else es)"
    by (simp add: elems_def split_slash_join [OF assms])
  also have "\<dots> = es" using clean_elems_plain [OF assms, of True "[]" "[]"] by simp
  finally show ?thesis .
qed

lemma elems_Clean [simp]: "IsAbs p \<Longrightarrow> elems (Clean p) = elems p"
  by (simp add: Clean_abs elems_slash_join elems_plain)

lemma IsAbs_Clean [simp]: "IsAbs p \<Longrightarrow> IsAbs (Clean p)"
  by (simp add: Clean_abs)

lemma Clean_idem [simp]: "IsAbs p \<Longrightarrow> Clean (Clean p) = Clean p"
  by (simp add: Clean_abs [of p] Clean_abs [of "CHR ''/'' # _"] elems_slash_join elems_plain)

lemma elems_inj: "IsAbs p \<Longrightarrow> IsAbs q \<Longrightarrow> Clean p = Clean q \<longleftrightarrow> elems p = elems q"
  by (metis Clean_abs elems_Clean)

text \<open>Joining below an absolute path appends the elements.\<close>

lemma elems_append: "IsAbs p \<Longrightarrow> elems (p @ CHR ''/'' # q) = clean_elems True (rev (elems p)) (split_on CHR ''/'' q)"
  by (simp add: elems_def IsAbs_append split_on_app clean_elems_append)

lemma Join_abs: "IsAbs p \<Longrightarrow> Join (p # es) = Clean (join_with ''/'' (p # es))"
  by (cases p) (auto simp: Join_def)

lemma IsAbs_join: "IsAbs p \<Longrightarrow> IsAbs (join_with ''/'' (p # es))"
  by (cases es) (auto simp: IsAbs_append)

lemma IsAbs_Join [simp]: "IsAbs p \<Longrightarrow> IsAbs (Join (p # es))"
  by (simp add: Join_abs IsAbs_join)

lemma elems_Join_plain:
  assumes p: "IsAbs p" and es: "plain_elems es"
  shows "elems (Join (p # es)) = elems p @ es"
proof (cases "es = []")
  case True
  with p show ?thesis by (simp add: Join_abs)
next
  case False
  then have "join_with ''/'' (p # es) = p @ ''/'' @ join_with ''/'' es" by (cases es) auto
  with p es False show ?thesis
    using clean_elems_plain [OF es, of True "rev (elems p)" "[]"]
    by (simp add: Join_abs IsAbs_append elems_append split_slash_join del: clean_elems.simps(2))
qed

lemma join_plain_Nil: "plain_elems es \<Longrightarrow> join_with ''/'' es = [] \<longleftrightarrow> es = []"
  by (cases es; cases "tl es") auto

lemma path_elems_Clean:
  assumes "IsAbs p"
  shows "path_elems (Clean p) = elems p"
proof -
  have pl: "plain_elems (elems p)" by (rule elems_plain [OF assms])
  then have "CHR ''/'' # join_with ''/'' (elems p) = ''/'' \<longleftrightarrow> elems p = []" by (simp add: join_plain_Nil)
  then show ?thesis using split_slash_join [OF pl] by (simp add: Clean_abs [OF assms] path_elems_def)
qed

lemma rel_walk_split: "\<exists>pre. bs0 = pre @ fst (rel_walk bs0 ts0) \<and> ts0 = pre @ snd (rel_walk bs0 ts0)"
proof (induction bs0 ts0 rule: rel_walk.induct)
  case (1 b bs t ts)
  show ?case
  proof (cases "b = t")
    case True
    with 1 obtain pre where "bs = pre @ fst (rel_walk bs ts)" "ts = pre @ snd (rel_walk bs ts)" by auto
    with True have "b # bs = (b # pre) @ fst (rel_walk (b # bs) (t # ts)) \<and> t # ts = (b # pre) @ snd (rel_walk (b # bs) (t # ts))"
      by simp
    then show ?thesis by blast
  qed simp
qed auto

lemma Rel_abs:
  assumes b: "IsAbs b" and t: "IsAbs t" and d: "Clean t \<noteq> Clean b" and w: "rel_walk (elems b) (elems t) = (bs, ts)"
  shows "Rel b t = Inr (join_with ''/'' (replicate (length bs) ''..'' @ ts))"
proof -
  obtain pre where "elems b = pre @ bs" using rel_walk_split [of "elems b" "elems t"] w by auto
  then have "plain_elems bs" using elems_plain [OF b] by simp
  then have up: "\<not> (bs \<noteq> [] \<and> ts \<noteq> [] \<and> hd bs = ''..'')" by (cases bs) auto
  have ne: "Clean b \<noteq> ''.''" using b by (simp add: Clean_abs)
  show ?thesis using ne w up d by (simp add: Rel_def Let_def b t path_elems_Clean)
qed

lemma Rel_abs_total: "IsAbs b \<Longrightarrow> IsAbs t \<Longrightarrow> \<exists>r. Rel b t = Inr r"
  by (cases "Clean t = Clean b", simp add: Rel_def, cases "rel_walk (elems b) (elems t)", simp add: Rel_abs)

lemma Rel_back:
  assumes b: "IsAbs b" and t: "IsAbs t" and r: "Rel b t = Inr r"
  shows "Join [b, r] = Clean t" "\<not> IsAbs r"
proof -
  have "Join [b, r] = Clean t \<and> \<not> IsAbs r"
  proof (cases "Clean t = Clean b")
    case True
    with r have "r = ''.''" by (simp add: Rel_def Let_def)
    then have "elems (b @ CHR ''/'' # r) = elems t" "\<not> IsAbs r"
      using True b t by (simp_all add: elems_append elems_inj) (simp add: IsAbs_def has_prefix_def)
    then show ?thesis using b t by (simp add: Join_abs elems_inj IsAbs_append)
  next
    case False
    obtain bs ts where w: "rel_walk (elems b) (elems t) = (bs, ts)" by force
    obtain pre where pre: "elems b = pre @ bs" "elems t = pre @ ts"
      using rel_walk_split [of "elems b" "elems t"] w by auto
    have pl: "plain_elems bs" "plain_elems ts" "plain_elems pre"
      using elems_plain [OF b] elems_plain [OF t] pre by simp_all
    let ?es = "replicate (length bs) ''..'' @ ts"
    have re: "r = join_with ''/'' ?es"
      using r Rel_abs [OF b t False w] by simp
    have nn: "?es \<noteq> []" using False pre b t by (auto simp: elems_inj)
    have sl: "CHR ''/'' \<notin> set x" if "x \<in> set ?es" for x
    proof -
      from that have "x \<in> set (replicate (length bs) ''..'') \<or> x \<in> set ts" by (simp only: set_append Un_iff)
      then have "x = ''..'' \<or> x \<in> set ts" by (simp only: in_set_replicate) blast
      then show ?thesis
      proof
        assume "x \<in> set ts"
        with pl(2) show ?thesis unfolding plain_elems_def by blast
      qed simp
    qed
    have sp: "split_on CHR ''/'' r = ?es" unfolding re by (rule split_on_join [OF nn sl])
    have "elems (b @ CHR ''/'' # r) = clean_elems True (rev bs @ rev pre) (replicate (length bs) ''..'' @ ts)"
      unfolding elems_append [OF b] sp pre by simp
    also have "\<dots> = clean_elems True (rev pre) ts" by (rule clean_elems_up [OF pl(1)])
    also have "\<dots> = elems t" using clean_elems_plain [OF pl(2), of True "rev pre" "[]"] pre by simp
    finally have e: "elems (b @ CHR ''/'' # r) = elems t" .
    have "\<not> IsAbs r"
    proof
      assume "IsAbs r"
      then have "hd (split_on CHR ''/'' r) = []" by (cases r) (auto simp: IsAbs_def has_prefix_def)
      with sp nn have "hd ?es = []" by simp
      then show False using nn pl(2) by (cases "length bs") (auto simp: plain_elems_def hd_append split: if_splits)
    qed
    with e b t show ?thesis by (simp add: Join_abs elems_inj IsAbs_append)
  qed
  then show "Join [b, r] = Clean t" "\<not> IsAbs r" by simp_all
qed

lemma Clean_slash: "IsAbs p \<Longrightarrow> Clean (p @ ''/'') = Clean p"
  using elems_append [of p "[]"] by (simp add: elems_inj IsAbs_append)

text \<open>The directory of a joined path is the path joined without its last element.\<close>

lemma Dir_Join:
  assumes p: "IsAbs p" and e: "plain_elems (es @ [e])"
  shows "Dir (Join (p # es @ [e])) = Join (p # es)"
proof -
  let ?q = "CHR ''/'' # join_with ''/'' (elems p @ es)"
  have pl: "plain_elems (elems p @ es)" using elems_plain [OF p] e by simp
  have j: "Join (p # es @ [e]) = CHR ''/'' # join_with ''/'' ((elems p @ es) @ [e])"
    using elems_Join_plain [OF p e] Clean_abs [OF IsAbs_Join [OF p, of "es @ [e]"]] p
    by (simp add: Join_abs IsAbs_join)
  have q: "Join (p # es) = Clean ?q"
    using elems_Join_plain [OF p, of es] e p pl
    by (metis Clean_abs Clean_idem IsAbs_Join IsAbs_Cons(1) elems_slash_join Join_abs IsAbs_join plain_elems_simps(3))
  have ns: "CHR ''/'' \<notin> set e" using e by simp
  have dw: "rev (dropWhile (\<lambda>c. c \<noteq> CHR ''/'') (rev (a @ CHR ''/'' # e))) = a @ ''/''" for a
    using ns by (simp add: dropWhile_append2 dropWhile_append)
  show ?thesis
  proof (cases "elems p @ es = []")
    case True
    then show ?thesis unfolding Dir_def j q using dw [of "[]"] by simp
  next
    case False
    then have "CHR ''/'' # join_with ''/'' ((elems p @ es) @ [e]) = ?q @ CHR ''/'' # e"
      by (simp add: join_with_append del: append_assoc)
    then show ?thesis unfolding Dir_def j q using dw [of ?q] Clean_slash [of ?q] by simp
  qed
qed

section \<open>Relative paths\<close>

lemma dots_suffix: "replicate k d @ rest = pre @ ts \<Longrightarrow> d \<notin> set rest \<Longrightarrow> ts = [] \<or> hd ts = d \<or> d \<notin> set ts"
proof (induction pre arbitrary: k)
  case Nil
  then show ?case by (cases k) auto
next
  case (Cons p pre)
  then show ?case by (cases k) auto
qed

text \<open>The elements that \<^verbatim>\<open>Clean\<close> leaves in a path: what was proved of \<open>clean_elems\<close>, and no separator inside.\<close>

lemma clean_path:
  obtains es where "Clean p = (if IsAbs p then CHR ''/'' # join_with ''/'' es else if es = [] then ''.'' else join_with ''/'' es)"
    "clean_list (IsAbs p) es" "\<forall>e \<in> set es. CHR ''/'' \<notin> set e"
proof
  let ?es = "clean_elems (IsAbs p) [] (split_on CHR ''/'' p)"
  show "Clean p = (if IsAbs p then CHR ''/'' # join_with ''/'' ?es else if ?es = [] then ''.'' else join_with ''/'' ?es)"
    by (simp add: Clean_def Let_def)
  show "clean_list (IsAbs p) ?es"
    by (rule clean_elems_clean) (auto simp: clean_stack_def)
  show "\<forall>e \<in> set ?es. CHR ''/'' \<notin> set e"
    using clean_elems_subset [of "IsAbs p" "[]" "split_on CHR ''/'' p"] by (auto dest: split_on_no_sep)
qed

lemma path_elems_join:
  assumes ne: "\<forall>e \<in> set es. e \<noteq> [] \<and> CHR ''/'' \<notin> set e"
  shows "path_elems (join_with ''/'' es) = es" "\<not> IsAbs (join_with ''/'' es)"
    "path_elems (CHR ''/'' # join_with ''/'' es) = es"
proof -
  have j: "split_on CHR ''/'' (join_with ''/'' es) = es" if "es \<noteq> []"
    by (rule split_on_join [OF that]) (use ne in blast)
  have n: "join_with ''/'' es = [] \<longleftrightarrow> es = []" using ne by (cases es; cases "tl es") auto
  show a: "\<not> IsAbs (join_with ''/'' es)"
  proof (cases es)
    case (Cons e es')
    with ne obtain c e' where "e = c # e'" "c \<noteq> CHR ''/''" by (cases e) auto
    with Cons show ?thesis by (cases es') (auto simp: IsAbs_def has_prefix_def)
  qed simp
  show "path_elems (join_with ''/'' es) = es" "path_elems (CHR ''/'' # join_with ''/'' es) = es"
    using j n a by (auto simp: path_elems_def)
qed

text \<open>A relative path that does not start with two dots stays below whatever it is joined to.\<close>

lemma Rel_inside:
  assumes r: "Rel b t = Inr r" and up: "r \<noteq> ''..''" "\<not> has_prefix ''../'' r"
  shows "\<exists>ts. plain_elems ts \<and> (\<forall>rooted out. clean_elems rooted out (split_on CHR ''/'' r) = clean_elems rooted out ts)"
proof (cases "Clean t = Clean b")
  case True
  with r have "r = ''.''" by (simp add: Rel_def Let_def)
  then show ?thesis by (intro exI [of _ "[]"]) simp
next
  case False
  obtain es where es: "Clean t = (if IsAbs t then CHR ''/'' # join_with ''/'' es else if es = [] then ''.'' else join_with ''/'' es)"
    "clean_list (IsAbs t) es" "\<forall>e \<in> set es. CHR ''/'' \<notin> set e" by (rule clean_path)
  let ?b = "if Clean b = ''.'' then [] else Clean b"
  obtain bs ts where w: "rel_walk (path_elems ?b) (path_elems (Clean t)) = (bs, ts)" by force
  have re: "r = join_with ''/'' (replicate (length bs) ''..'' @ ts)" and ab: "IsAbs ?b = IsAbs (Clean t)"
    using r False w by (auto simp: Rel_def Let_def split: if_splits)
  obtain pre where pre: "path_elems ?b = pre @ bs" "path_elems (Clean t) = pre @ ts"
    using rel_walk_split [of "path_elems ?b" "path_elems (Clean t)"] w by auto
  have bs: "bs = []"
  proof (rule ccontr)
    assume "bs \<noteq> []"
    then obtain n where "length bs = Suc n" by (cases bs) auto
    with re have "r = join_with ''/'' (''..'' # replicate n ''..'' @ ts)" by simp
    then have "r = ''..'' \<or> has_prefix ''../'' r"
      by (cases "replicate n ''..'' @ ts") (auto simp: has_prefix_iff)
    with up show False by simp
  qed
  show ?thesis
  proof (cases "es = [] \<and> \<not> IsAbs t")
    case True
    then have ct: "Clean t = ''.''" using es by simp
    then have "\<not> IsAbs ?b" using ab by (simp add: IsAbs_def has_prefix_def)
    have "pre = [] \<and> ts = [''.''] \<or> pre = [''.''] \<and> ts = []"
      using pre(2) ct by (cases pre) (auto simp: path_elems_def IsAbs_def has_prefix_def)
    then have "r = ''.'' \<or> r = []" using re bs by auto
    then show ?thesis by (intro exI [of _ "[]"]) auto
  next
    case ne: False
    have pe: "path_elems (Clean t) = es"
      using ne es path_elems_join [of es] by (auto simp: clean_list_def)
    have ets: "\<forall>e \<in> set ts. e \<noteq> [] \<and> e \<noteq> ''.'' \<and> CHR ''/'' \<notin> set e"
      using es pe pre by (auto simp: clean_list_def)
    have nodots: "''..'' \<notin> set ts"
    proof -
      obtain k rest where "es = replicate k ''..'' @ rest" "''..'' \<notin> set rest"
        using es(2) by (cases "IsAbs t") (auto simp: clean_list_def intro: that [of 0])
      then have "ts = [] \<or> hd ts = ''..'' \<or> ''..'' \<notin> set ts" using dots_suffix pe pre by metis
      moreover have "hd ts \<noteq> ''..''" if "ts \<noteq> []"
      proof
        assume h: "hd ts = ''..''"
        with that obtain ts' where "ts = ''..'' # ts'" by (cases ts) auto
        with re bs have "r = ''..'' \<or> has_prefix ''../'' r" by (cases ts') (auto simp: has_prefix_iff)
        with up show False by simp
      qed
      ultimately show ?thesis by (cases ts) auto
    qed
    have pl: "plain_elems ts" using ets nodots by (auto simp: plain_elems_def)
    have "split_on CHR ''/'' r = (if ts = [] then [[]] else ts)"
      using re bs split_slash_join [OF pl] by simp
    with pl show ?thesis by (intro exI [of _ ts]) simp
  qed
qed

text \<open>Joining plain elements is writing them with separators.\<close>

lemma Join_plain:
  assumes "plain_elems es" "es \<noteq> []"
  shows "Join es = join_with ''/'' es"
proof -
  have d: "dropWhile (\<lambda>e. e = []) es = es" using assms by (cases es) auto
  have ne: "\<forall>e \<in> set es. e \<noteq> [] \<and> CHR ''/'' \<notin> set e" using assms by (auto simp: plain_elems_def)
  have "clean_elems False [] es = es" using clean_elems_plain [OF assms(1), of False "[]" "[]"] by simp
  then show ?thesis
    using assms path_elems_join(2) [OF ne] by (cases es) (auto simp: Join_def d Clean_def split_slash_join)
qed

lemma Join_below:
  assumes es: "plain_elems es" "es \<noteq> []" and c: "\<And>rooted out. clean_elems rooted out (split_on CHR ''/'' r) = clean_elems rooted out ts"
    and ts: "plain_elems ts"
  shows "Join [join_with ''/'' es, r] = join_with ''/'' (es @ ts)"
proof -
  let ?p = "join_with ''/'' es"
  have ne: "\<forall>e \<in> set es. e \<noteq> [] \<and> CHR ''/'' \<notin> set e" using es by (auto simp: plain_elems_def)
  have na: "\<not> IsAbs ?p" by (rule path_elems_join(2) [OF ne])
  have nn: "?p \<noteq> []" using es ne by (cases es; cases "tl es") auto
  have na': "\<not> IsAbs (?p @ CHR ''/'' # r)" using na nn by (cases ?p) (auto simp: IsAbs_def has_prefix_def)
  have s: "split_on CHR ''/'' (?p @ CHR ''/'' # r) = es @ split_on CHR ''/'' r"
    using es by (simp add: split_on_app split_slash_join)
  have "clean_elems False [] (es @ split_on CHR ''/'' r) = es @ ts"
    using clean_elems_plain [OF es(1), of False "[]"] clean_elems_plain [OF ts, of False "rev es" "[]"] c by simp
  then have "Clean (?p @ CHR ''/'' # r) = join_with ''/'' (es @ ts)" using es na' s by (simp add: Clean_def Let_def)
  then show ?thesis using nn by (simp add: Join_def)
qed

end
