(* ===== verification/Host_Context.thy ===== *)
theory Host_Context
  imports Go_Paths Domain_Enums
begin

text \<open>
  \<^verbatim>\<open>internal/context\<close>: what a detected host and a worktree are, where a host keeps its native configuration,
  and how its binary and version are found. The environment is a snapshot of \<^verbatim>\<open>NAME=value\<close> strings; whether a
  path is an executable file and what running it prints are parameters.
\<close>

record NativeHome =
  nh_Name :: string
  nh_Path :: string
  nh_FromEnvVar :: string

record HostDetection =
  hd_Host :: string
  hd_Surface :: string
  hd_Platform :: string
  hd_Installed :: bool
  hd_BinaryPath :: string
  hd_Version :: string
  hd_NativeHomes :: "NativeHome list"
  hd_Error :: string

record Worktree =
  wt_ID :: string
  wt_Root :: string
  wt_GitDir :: string
  wt_MainRoot :: string

end
