(* ===== verification/Assurance.thy ===== *)
theory Assurance
  imports Effective_Graph Host_Context
begin

text \<open>
  \<^verbatim>\<open>internal/assurance\<close>: the evidence ceiling of each host and concept (\<^verbatim>\<open>ceiling.go\<close>), the verification
  pass that caps an Effective Graph at it (\<^verbatim>\<open>verify.go\<close>) and the Evidence documents built from a graph
  (\<^verbatim>\<open>evidence.go\<close>). The prose columns of the ceiling table (its reason and citation) take part in no
  decision and are left out. The canonical digest of a HostKnowledge document is the parameter \<open>hkd\<close>.
\<close>

section \<open>The ceiling table\<close>

definition HostConceptClaim :: string where
  "HostConceptClaim = ''host''"

record CeilingEntry =
  ce_Host :: string
  ce_Concept :: string
  ce_Ceiling :: EvidenceLevel
  ce_IntrospectionSurface :: string
  ce_ResolveCapability :: CapabilityLevel

definition Ceilings :: "CeilingEntry list" where
  "Ceilings =
     [\<lparr>ce_Host = ''codex'', ce_Concept = ''instruction'', ce_Ceiling = EvResolved,
       ce_IntrospectionSurface = ''none documented'', ce_ResolveCapability = CapExact\<rparr>,
      \<lparr>ce_Host = ''codex'', ce_Concept = ''skill'', ce_Ceiling = EvParsed,
       ce_IntrospectionSurface = ''none documented'', ce_ResolveCapability = CapUnknown\<rparr>,
      \<lparr>ce_Host = ''codex'', ce_Concept = ''mcp_server'', ce_Ceiling = EvParsed,
       ce_IntrospectionSurface = ''none documented'', ce_ResolveCapability = CapUnknown\<rparr>,
      \<lparr>ce_Host = ''claude-code'', ce_Concept = ''instruction'', ce_Ceiling = EvParsed,
       ce_IntrospectionSurface = ''none documented'', ce_ResolveCapability = CapUnknown\<rparr>,
      \<lparr>ce_Host = ''claude-code'', ce_Concept = ''skill'', ce_Ceiling = EvParsed,
       ce_IntrospectionSurface = ''none documented'', ce_ResolveCapability = CapUnknown\<rparr>,
      \<lparr>ce_Host = ''claude-code'', ce_Concept = ''mcp_server'', ce_Ceiling = EvParsed,
       ce_IntrospectionSurface = ''none documented'', ce_ResolveCapability = CapUnknown\<rparr>,
      \<lparr>ce_Host = ''pi'', ce_Concept = ''instruction'', ce_Ceiling = EvResolved,
       ce_IntrospectionSurface = ''none documented'', ce_ResolveCapability = CapExact\<rparr>,
      \<lparr>ce_Host = ''pi'', ce_Concept = ''skill'', ce_Ceiling = EvParsed,
       ce_IntrospectionSurface = ''none documented'', ce_ResolveCapability = CapUnknown\<rparr>,
      \<lparr>ce_Host = ''pi'', ce_Concept = ''mcp_server'', ce_Ceiling = EvParsed,
       ce_IntrospectionSurface = ''none documented'', ce_ResolveCapability = CapUnsupported\<rparr>,
      \<lparr>ce_Host = ''codex'', ce_Concept = HostConceptClaim, ce_Ceiling = EvHostReported,
       ce_IntrospectionSurface = ''codex --version'', ce_ResolveCapability = CapOther ''''\<rparr>,
      \<lparr>ce_Host = ''claude-code'', ce_Concept = HostConceptClaim, ce_Ceiling = EvHostReported,
       ce_IntrospectionSurface = ''claude --version'', ce_ResolveCapability = CapOther ''''\<rparr>,
      \<lparr>ce_Host = ''pi'', ce_Concept = HostConceptClaim, ce_Ceiling = EvHostReported,
       ce_IntrospectionSurface = ''pi --version'', ce_ResolveCapability = CapOther ''''\<rparr>]"

fun CeilingFor :: "CeilingEntry list \<Rightarrow> string \<Rightarrow> string \<Rightarrow> EvidenceLevel option" where
  "CeilingFor [] host concept = None"
| "CeilingFor (c # ceilings) host concept =
     (if ce_Host c = host \<and> ce_Concept c = concept then Some (ce_Ceiling c) else CeilingFor ceilings host concept)"

section \<open>Verification\<close>

definition clampToCeiling :: "string \<Rightarrow> string \<Rightarrow> EvidenceLevel \<Rightarrow> CeilingEntry list \<Rightarrow> EvidenceLevel" where
  "clampToCeiling host concept level ceilings =
     (let ceiling = (case CeilingFor ceilings host concept of Some c \<Rightarrow> c | None \<Rightarrow> EvParsed)
      in if EvidenceLevel_Rank ceiling < EvidenceLevel_Rank level then ceiling else level)"

definition resolveQualified :: "CapabilityOps \<Rightarrow> bool" where
  "resolveQualified ops \<longleftrightarrow> co_Resolve ops = CapExact \<or> co_Resolve ops = CapCompatible"

definition qualifiedResolutionRan :: "EffectiveEntry \<Rightarrow> CapabilityOps \<Rightarrow> bool" where
  "qualifiedResolutionRan e ops \<longleftrightarrow>
     resolveQualified ops \<and> pv_Program (ee_Provenance e) \<noteq> '''' \<and> pv_Operator (ee_Provenance e) \<noteq> OpOther ''''"

definition verifyEntry :: "string \<Rightarrow> EffectiveEntry \<Rightarrow> CapabilityOps \<Rightarrow> CeilingEntry list \<Rightarrow> EffectiveEntry" where
  "verifyEntry host e ops ceilings =
     (let raised = (if qualifiedResolutionRan e ops \<and> EvidenceLevel_Rank (ee_EvidenceLevel e) < EvidenceLevel_Rank EvResolved
                    then EvResolved else ee_EvidenceLevel e);
          level = clampToCeiling host (ee_Concept e) raised ceilings
      in e\<lparr>ee_EvidenceLevel := level,
           ee_Confirmed := ee_Confirmed e \<and> EvidenceLevel_Rank EvHostReported \<le> EvidenceLevel_Rank level\<rparr>)"

definition verifyConflict :: "string \<Rightarrow> Conflict \<Rightarrow> CeilingEntry list \<Rightarrow> Conflict" where
  "verifyConflict host c ceilings =
     c\<lparr>cn_EvidenceLevel := clampToCeiling host (cn_Concept c) (cn_EvidenceLevel c) ceilings\<rparr>"

definition VerifyGraphWithCeilings ::
  "string \<Rightarrow> EffectiveGraph \<Rightarrow> HostKnowledge \<Rightarrow> CeilingEntry list \<Rightarrow> EffectiveGraph" where
  "VerifyGraphWithCeilings host graph hk ceilings =
     graph\<lparr>eg_Entries :=
         map (\<lambda>e. verifyEntry host e (map_get CapabilityOps_zero (hk_Capabilities hk) (ee_Concept e)) ceilings) (eg_Entries graph),
       eg_Conflicts := map (\<lambda>c. verifyConflict host c ceilings) (eg_Conflicts graph)\<rparr>"

definition VerifyGraph :: "string \<Rightarrow> EffectiveGraph \<Rightarrow> HostKnowledge \<Rightarrow> EffectiveGraph" where
  "VerifyGraph host graph hk = VerifyGraphWithCeilings host graph hk Ceilings"

section \<open>Evidence\<close>

definition knowledgeRefFor :: "(HostKnowledge \<Rightarrow> string) \<Rightarrow> HostKnowledge \<Rightarrow> KnowledgeRef" where
  "knowledgeRefFor hkd hk =
     (if hk_ID hk = '''' then \<lparr>kr_ID = '''', kr_Digest = ''''\<rparr> else \<lparr>kr_ID = hk_ID hk, kr_Digest = hkd hk\<rparr>)"

definition evidenceID :: "string \<Rightarrow> string \<Rightarrow> string \<Rightarrow> string" where
  "evidenceID host concept lid = ''evidence:'' @ host @ '':'' @ concept @ '':'' @ lid"

definition EvidenceSource_zero :: EvidenceSource where
  "EvidenceSource_zero = \<lparr>es_Kind = '''', es_URL = '''', es_Path = '''', es_Digest = ''''\<rparr>"

definition BuildEvidence ::
  "(HostKnowledge \<Rightarrow> string) \<Rightarrow> string \<Rightarrow> EffectiveGraph \<Rightarrow> HostKnowledge \<Rightarrow> gotime \<Rightarrow> Evidence list" where
  "BuildEvidence hkd host graph hk observedAt =
     map (\<lambda>e. \<lparr>ev_APIVersion = SupportedAPIVersion, ev_Kind = ''Evidence'',
           ev_ID = evidenceID host (ee_Concept e) (ee_LogicalID e),
           ev_Subject = \<lparr>sj_Concept = ee_Concept e, sj_LogicalID = ee_LogicalID e, sj_Field = ''''\<rparr>,
           ev_Level = ee_EvidenceLevel e, ev_Guarantee = ee_Guarantee e, ev_Method = ee_Reason e,
           ev_ObservedAt = RFC3339 observedAt, ev_Source = EvidenceSource_zero,
           ev_KnowledgeRef = knowledgeRefFor hkd hk\<rparr>) (eg_Entries graph)
     @ map (\<lambda>c. \<lparr>ev_APIVersion = SupportedAPIVersion, ev_Kind = ''Evidence'',
           ev_ID = evidenceID host (cn_Concept c) (cn_LogicalID c),
           ev_Subject = \<lparr>sj_Concept = cn_Concept c, sj_LogicalID = cn_LogicalID c, sj_Field = ''''\<rparr>,
           ev_Level = cn_EvidenceLevel c, ev_Guarantee = GuaranteeOther '''', ev_Method = cn_Reason c,
           ev_ObservedAt = RFC3339 observedAt, ev_Source = EvidenceSource_zero,
           ev_KnowledgeRef = knowledgeRefFor hkd hk\<rparr>) (eg_Conflicts graph)"

definition HostVersionEvidence :: "HostDetection \<Rightarrow> gotime \<Rightarrow> Evidence option" where
  "HostVersionEvidence det observedAt =
     (if \<not> hd_Installed det \<or> hd_Version det = '''' \<or> hd_Error det \<noteq> '''' then None
      else Some \<lparr>ev_APIVersion = SupportedAPIVersion, ev_Kind = ''Evidence'',
           ev_ID = evidenceID (hd_Host det) HostConceptClaim (hd_Host det),
           ev_Subject = \<lparr>sj_Concept = HostConceptClaim, sj_LogicalID = hd_Host det, sj_Field = ''version''\<rparr>,
           ev_Level = EvHostReported, ev_Guarantee = GuaranteeOther '''',
           ev_Method = Msg ''%s --version (internal/context/host.go's probeVersion; see docs/architecture/evidence-ceiling.md)''
                         [AStr (hd_BinaryPath det)],
           ev_ObservedAt = RFC3339 observedAt, ev_Source = EvidenceSource_zero,
           ev_KnowledgeRef = \<lparr>kr_ID = '''', kr_Digest = ''''\<rparr>\<rparr>)"

section \<open>Lemmas\<close>

definition ceiling_rank :: "CeilingEntry list \<Rightarrow> string \<Rightarrow> string \<Rightarrow> int" where
  "ceiling_rank ceilings host concept =
     EvidenceLevel_Rank (case CeilingFor ceilings host concept of Some c \<Rightarrow> c | None \<Rightarrow> EvParsed)"

lemma clamp_rank:
  "EvidenceLevel_Rank (clampToCeiling host concept level ceilings) =
     min (EvidenceLevel_Rank level) (ceiling_rank ceilings host concept)"
  by (simp add: clampToCeiling_def ceiling_rank_def Let_def)

lemma clamp_idem:
  "clampToCeiling host concept (clampToCeiling host concept level ceilings) ceilings = clampToCeiling host concept level ceilings"
  by (simp add: clampToCeiling_def Let_def)

lemma CeilingFor_committed:
  "concept \<noteq> HostConceptClaim \<Longrightarrow> ceiling_rank Ceilings host concept \<le> EvidenceLevel_Rank EvResolved"
  by (simp add: ceiling_rank_def Ceilings_def HostConceptClaim_def)

lemma verifyEntry_simps [simp]:
  "ee_Concept (verifyEntry host e ops cs) = ee_Concept e"
  "ee_LogicalID (verifyEntry host e ops cs) = ee_LogicalID e"
  "ee_Provenance (verifyEntry host e ops cs) = ee_Provenance e"
  "ee_Guarantee (verifyEntry host e ops cs) = ee_Guarantee e"
  "ee_Composed (verifyEntry host e ops cs) = ee_Composed e"
  "ee_Reason (verifyEntry host e ops cs) = ee_Reason e"
  by (simp_all add: verifyEntry_def Let_def)

lemma verifyEntry_idem: "verifyEntry host (verifyEntry host e ops cs) ops cs = verifyEntry host e ops cs"
  by (auto simp: verifyEntry_def Let_def qualifiedResolutionRan_def clampToCeiling_def)

lemma verifyConflict_idem: "verifyConflict host (verifyConflict host c cs) cs = verifyConflict host c cs"
  by (simp add: verifyConflict_def clamp_idem)

section \<open>Properties\<close>


text \<open>With the committed ceiling table nothing about instructions, skills or MCP servers is ever
confirmed: after \<open>VerifyGraph\<close> an entry of any concept other than the host claim has evidence E2 at most and
is not confirmed.\<close>

theorem committed_ceilings_confirm_nothing:
  "\<forall>e \<in> set (eg_Entries (VerifyGraph host graph hk)).
     ee_Concept e = HostConceptClaim \<or>
     EvidenceLevel_Rank (ee_EvidenceLevel e) \<le> EvidenceLevel_Rank EvResolved \<and> \<not> ee_Confirmed e"
proof -
  have "EvidenceLevel_Rank (ee_EvidenceLevel (verifyEntry host e ops Ceilings)) \<le> EvidenceLevel_Rank EvResolved \<and>
      \<not> ee_Confirmed (verifyEntry host e ops Ceilings)" if "ee_Concept e \<noteq> HostConceptClaim" for e ops
    using CeilingFor_committed [OF that, of host]
    by (simp add: verifyEntry_def Let_def clamp_rank)
  then show ?thesis by (auto simp: VerifyGraph_def VerifyGraphWithCeilings_def)
qed

lemma committed_ceilings_confirm_nothing_witness:
  "(let g = VerifyGraph ''codex'' (projr (ComputeEffectiveGraph sample_digest ''codex'' ''0.1.0'' sample_observations
              (sample_knowledge []) sample_options [])) (sample_knowledge [])
    in (\<exists>e. e \<in> set (eg_Entries g)) \<and>
       (\<forall>e \<in> set (eg_Entries g). ee_Concept e = HostConceptClaim \<or>
          EvidenceLevel_Rank (ee_EvidenceLevel e) \<le> EvidenceLevel_Rank EvResolved \<and> \<not> ee_Confirmed e))"
proof -
  have "length (eg_Entries (VerifyGraph ''codex'' (projr (ComputeEffectiveGraph sample_digest ''codex'' ''0.1.0''
      sample_observations (sample_knowledge []) sample_options [])) (sample_knowledge []))) = 1" by code_simp
  then show ?thesis
    unfolding Let_def
    by (intro conjI committed_ceilings_confirm_nothing) (metis length_0_conv last_in_set zero_neq_one)
qed

text \<open>Verifying twice changes nothing: the pass is idempotent for every ceiling table.\<close>

theorem verify_graph_idempotent:
  "VerifyGraphWithCeilings host (VerifyGraphWithCeilings host graph hk ceilings) hk ceilings =
   VerifyGraphWithCeilings host graph hk ceilings"
  by (simp add: VerifyGraphWithCeilings_def verifyEntry_idem verifyConflict_idem o_def)

text \<open>The evidence built from a graph is well formed: there is one record per entry and per conflict, in
order, and each passes the validator of Evidence documents when the graph's own identifiers are not empty
and its levels and guarantees are valid; the record of a conflict guarantees nothing.\<close>

theorem build_evidence_valid:
  assumes "\<forall>e \<in> set (eg_Entries graph). ee_Concept e \<noteq> [] \<and> ee_LogicalID e \<noteq> [] \<and>
             EvidenceLevel_Valid (ee_EvidenceLevel e) \<and> GuaranteeLevel_Valid (ee_Guarantee e)"
    and "\<forall>c \<in> set (eg_Conflicts graph). cn_Concept c \<noteq> [] \<and> cn_LogicalID c \<noteq> [] \<and> EvidenceLevel_Valid (cn_EvidenceLevel c)"
  shows "(\<forall>r \<in> set (BuildEvidence hkd host graph hk t). ValidateEvidence r = None) \<and>
     map ev_Level (BuildEvidence hkd host graph hk t) =
       map ee_EvidenceLevel (eg_Entries graph) @ map cn_EvidenceLevel (eg_Conflicts graph) \<and>
     (\<forall>r \<in> set (drop (length (eg_Entries graph)) (BuildEvidence hkd host graph hk t)). ev_Guarantee r = GuaranteeOther [])"
  using assms by (auto simp: BuildEvidence_def go_check evidenceID_def o_def)

lemma build_evidence_valid_witness:
  "(let graph = projr (ComputeEffectiveGraph sample_digest ''codex'' ''0.1.0'' sample_observations (sample_knowledge []) sample_options []);
        rs = BuildEvidence (\<lambda>_. ''d'') ''codex'' graph (sample_knowledge []) 0
    in (\<forall>r \<in> set rs. ValidateEvidence r = None) \<and>
     map ev_Level rs = map ee_EvidenceLevel (eg_Entries graph) @ map cn_EvidenceLevel (eg_Conflicts graph) \<and>
     (\<forall>r \<in> set (drop (length (eg_Entries graph)) rs). ev_Guarantee r = GuaranteeOther []))"
  unfolding Let_def by (rule build_evidence_valid) code_simp+


end
