(* ===== verification/Drift.thy ===== *)
theory Drift
  imports Exception_Contract
begin

text \<open>
  \<^verbatim>\<open>internal/drift\<close>: classification of raw signals into drift assertions (\<^verbatim>\<open>classify.go\<close>) and their grouping
  into action cards (\<^verbatim>\<open>group.go\<close>), with the Report document of \<^verbatim>\<open>internal/domain/report.go\<close> that carries the
  assertions. Expected and observed values are JSON trees; \<^verbatim>\<open>reflect.DeepEqual\<close> on them is equality of
  their canonical forms. The hash of the canonical digest is the parameter \<open>dg\<close>. A comparator with ties
  keeps their input order, which is what \<^verbatim>\<open>sort.Slice\<close> does on the short lists it sorts by insertion.
\<close>

section \<open>Data\<close>

record Signal =
  sg_EntityID :: string
  sg_Concept :: string
  sg_Field :: string
  sg_Category :: DriftCategory
  sg_Expected :: json
  sg_Observed :: json
  sg_RootCause :: string
  sg_Remediation :: string
  sg_Project :: string
  sg_Host :: string
  sg_HostVersion :: string
  sg_AdapterVersion :: string
  sg_EvidenceLevel :: EvidenceLevel
  sg_Guarantee :: GuaranteeLevel
  sg_AssetID :: string
  sg_ExceptionScopes :: "string list"

record DriftAssertion =
  da_EntityID :: string
  da_Field :: string
  da_Category :: DriftCategory
  da_Expected :: json
  da_Observed :: json
  da_RootCause :: string
  da_Remediation :: string
  da_ContextCell :: string
  da_EvidenceLevel :: EvidenceLevel
  da_Guarantee :: GuaranteeLevel

record Assertion = DriftAssertion +
  da_UnderlyingCategory :: DriftCategory
  da_Project :: string
  da_Host :: string
  da_HostVersion :: string
  da_AdapterVersion :: string
  da_ExceptionRef :: string

record Impact =
  im_Projects :: nat
  im_Hosts :: nat
  im_Artifacts :: nat

record ActionCard =
  ac_RootCause :: string
  ac_Remediation :: string
  ac_Category :: DriftCategory
  ac_AdapterVersion :: string
  ac_Impact :: Impact
  ac_EvidenceCounts :: "(EvidenceLevel \<times> nat) list"
  ac_Guarantee :: GuaranteeLevel
  ac_Samples :: "Assertion list"
  ac_Matrix :: "Assertion list"

definition ActionCard_Query :: "ActionCard \<Rightarrow> string \<Rightarrow> Assertion list" where
  "ActionCard_Query c entityID = filter (\<lambda>a. da_EntityID a = entityID) (ac_Matrix c)"

section \<open>Classification\<close>

fun isDiffCategory :: "DriftCategory \<Rightarrow> bool" where
  "isDiffCategory DriftConfigDrift = True"
| "isDiffCategory DriftEffectiveDrift = True"
| "isDiffCategory DriftSourceDrift = True"
| "isDiffCategory _ = False"

definition DeepEqual :: "json \<Rightarrow> json \<Rightarrow> bool" where
  "DeepEqual a b \<longleftrightarrow> canon a = canon b"

definition contextCell :: "Signal \<Rightarrow> string" where
  "contextCell sig =
     (if sg_Project sig \<noteq> '''' \<and> sg_Host sig \<noteq> '''' then sg_Project sig @ '' / '' @ sg_Host sig
      else if sg_Project sig \<noteq> '''' then sg_Project sig
      else sg_Host sig)"

fun drift_findException_loop :: "Exception list \<Rightarrow> string \<Rightarrow> string list \<Rightarrow> gotime \<Rightarrow> Exception option" where
  "drift_findException_loop [] assetID scopeSet now = None"
| "drift_findException_loop (ex # exceptions) assetID scopeSet now =
     (if \<not> Exception_Valid ex then drift_findException_loop exceptions assetID scopeSet now
      else if ex_AssetID ex \<noteq> assetID then drift_findException_loop exceptions assetID scopeSet now
      else if ex_Scope ex \<notin> set scopeSet then drift_findException_loop exceptions assetID scopeSet now
      else if \<not> now < ex_ExpiresAt ex then drift_findException_loop exceptions assetID scopeSet now
      else Some ex)"

definition drift_findException :: "Exception list \<Rightarrow> string \<Rightarrow> string list \<Rightarrow> gotime \<Rightarrow> Exception option" where
  "drift_findException exceptions assetID scopes now =
     (if assetID = '''' \<or> scopes = [] then None
      else drift_findException_loop exceptions assetID (filter (\<lambda>s. s \<noteq> '''') scopes) now)"

text \<open>\<open>Inr None\<close> is the result without an assertion.\<close>

definition Classify :: "Signal \<Rightarrow> Exception list \<Rightarrow> gotime \<Rightarrow> err + Assertion option" where
  "Classify sig exceptions now =
     (let underlying = (if sg_Category sig = DriftOther '''' then DriftUnknown else sg_Category sig) in
      if sg_EntityID sig = '''' then Inl (Errorf ''drift: signal entityId is required'' [])
      else if sg_Field sig = '''' then Inl (Errorf ''drift: signal field is required'' [])
      else if sg_RootCause sig = '''' then Inl (Errorf ''drift: signal rootCause is required'' [])
      else if underlying = DriftException then
        Inl (Errorf ''drift: signal %s/%s: category must be a base drift category, not EXCEPTION (Classify computes EXCEPTION itself)''
               [AStr (sg_EntityID sig), AStr (sg_Field sig)])
      else if \<not> DriftCategory_Valid underlying then
        Inl (Errorf ''drift: signal %s/%s: %q is not a valid drift category''
               [AStr (sg_EntityID sig), AStr (sg_Field sig), AStr (DriftCategory_code (sg_Category sig))])
      else if isDiffCategory underlying \<and> DeepEqual (sg_Expected sig) (sg_Observed sig) then Inr None
      else
        (let assetID = (if sg_AssetID sig = '''' then sg_EntityID sig else sg_AssetID sig);
             scopes = (if sg_ExceptionScopes sig = [] then [sg_RootCause sig] else sg_ExceptionScopes sig);
             (category, exceptionRef) =
               (if underlying \<noteq> DriftUnknown
                then (case drift_findException exceptions assetID scopes now of
                        Some ex \<Rightarrow> (DriftException, ex_ID ex)
                      | None \<Rightarrow> (underlying, ''''))
                else (underlying, ''''))
         in Inr (Some \<lparr>da_EntityID = sg_EntityID sig, da_Field = sg_Field sig, da_Category = category,
               da_Expected = sg_Expected sig, da_Observed = sg_Observed sig, da_RootCause = sg_RootCause sig,
               da_Remediation = sg_Remediation sig, da_ContextCell = contextCell sig,
               da_EvidenceLevel = sg_EvidenceLevel sig, da_Guarantee = sg_Guarantee sig,
               da_UnderlyingCategory = underlying, da_Project = sg_Project sig, da_Host = sg_Host sig,
               da_HostVersion = sg_HostVersion sig, da_AdapterVersion = sg_AdapterVersion sig,
               da_ExceptionRef = exceptionRef\<rparr>)))"

fun ClassifyAll_loop :: "int \<Rightarrow> Signal list \<Rightarrow> Exception list \<Rightarrow> gotime \<Rightarrow> err + Assertion list" where
  "ClassifyAll_loop i [] exceptions now = Inr []"
| "ClassifyAll_loop i (sig # signals) exceptions now =
     (case Classify sig exceptions now of
        Inl e \<Rightarrow> Inl (Wrapf ''drift: signal[%d]: %w'' [AInt i] e)
      | Inr a \<Rightarrow>
          (case ClassifyAll_loop (i + 1) signals exceptions now of
             Inl e \<Rightarrow> Inl e
           | Inr rest \<Rightarrow> Inr (case a of None \<Rightarrow> rest | Some x \<Rightarrow> x # rest)))"

definition ClassifyAll :: "Signal list \<Rightarrow> Exception list \<Rightarrow> gotime \<Rightarrow> err + Assertion list" where
  "ClassifyAll signals exceptions now = ClassifyAll_loop 0 signals exceptions now"

section \<open>Grouping\<close>

definition DefaultSampleLimit :: int where
  "DefaultSampleLimit = 5"

type_synonym groupKey = "string \<times> string \<times> string \<times> string"

text \<open>The category of a key is its code: a code determines the category it was read from.\<close>

definition groupKey_of :: "Assertion \<Rightarrow> groupKey" where
  "groupKey_of a = (da_RootCause a, da_Remediation a, DriftCategory_code (da_Category a), da_AdapterVersion a)"

definition matrix_key :: "Assertion \<Rightarrow> string \<times> string \<times> string \<times> string" where
  "matrix_key a = (da_Project a, da_Host a, da_EntityID a, da_Field a)"

definition computeImpact :: "Assertion list \<Rightarrow> Impact" where
  "computeImpact matrix =
     \<lparr>im_Projects = length (remdups (filter (\<lambda>p. p \<noteq> '''') (map da_Project matrix))),
      im_Hosts = length (remdups (filter (\<lambda>h. h \<noteq> '''') (map da_Host matrix))),
      im_Artifacts = length matrix\<rparr>"

definition computeEvidenceCounts :: "Assertion list \<Rightarrow> (EvidenceLevel \<times> nat) list" where
  "computeEvidenceCounts matrix =
     (let levels = filter (\<lambda>l. l \<noteq> EvOther '''') (map da_EvidenceLevel matrix)
      in map (\<lambda>l. (l, length (filter (\<lambda>l'. l' = l) levels))) (dedup_on id levels))"

fun representativeGuarantee_loop :: "GuaranteeLevel \<Rightarrow> Assertion list \<Rightarrow> GuaranteeLevel" where
  "representativeGuarantee_loop g [] = g"
| "representativeGuarantee_loop g (a # matrix) =
     (if da_Guarantee a = GuaranteeOther '''' then representativeGuarantee_loop g matrix
      else if g = GuaranteeOther '''' then representativeGuarantee_loop (da_Guarantee a) matrix
      else if g \<noteq> da_Guarantee a then GuaranteeOther ''''
      else representativeGuarantee_loop g matrix)"

definition representativeGuarantee :: "Assertion list \<Rightarrow> GuaranteeLevel" where
  "representativeGuarantee matrix = representativeGuarantee_loop (GuaranteeOther '''') matrix"

text \<open>The formatted key of \<^verbatim>\<open>outcomeBucketKey\<close> is the tuple of what it formats.\<close>

definition outcomeBucketKey :: "(json \<Rightarrow> string) \<Rightarrow> Assertion \<Rightarrow> string \<times> string \<times> bool" where
  "outcomeBucketKey dg a =
     (CanonicalDigest dg (da_Expected a), CanonicalDigest dg (da_Observed a), da_Category a = DriftException)"

text \<open>The first pass of \<^verbatim>\<open>selectSamples\<close>: the first assertion of every bucket, and the others.\<close>

fun split_buckets :: "('a \<Rightarrow> 'k) \<Rightarrow> 'k list \<Rightarrow> 'a list \<Rightarrow> 'a list \<times> 'a list" where
  "split_buckets k seen [] = ([], [])"
| "split_buckets k seen (a # xs) =
     (if k a \<in> set seen then (let (out, unused) = split_buckets k seen xs in (out, a # unused))
      else (let (out, unused) = split_buckets k (k a # seen) xs in (a # out, unused)))"

definition selectSamples :: "(json \<Rightarrow> string) \<Rightarrow> Assertion list \<Rightarrow> int \<Rightarrow> Assertion list" where
  "selectSamples dg matrix limit =
     (let lim = (if limit \<le> 0 \<or> int (length matrix) < limit then length matrix else nat limit);
          (out, unused) = split_buckets (outcomeBucketKey dg) [] matrix
      in if lim \<le> length out then take lim out else out @ take (lim - length out) unused)"

definition action_card :: "(json \<Rightarrow> string) \<Rightarrow> int \<Rightarrow> Assertion list \<Rightarrow> ActionCard" where
  "action_card dg sampleLimit bucket =
     (let matrix = sort_key matrix_key bucket; a = hd bucket
      in \<lparr>ac_RootCause = da_RootCause a, ac_Remediation = da_Remediation a, ac_Category = da_Category a,
          ac_AdapterVersion = da_AdapterVersion a, ac_Impact = computeImpact matrix,
          ac_EvidenceCounts = computeEvidenceCounts matrix, ac_Guarantee = representativeGuarantee matrix,
          ac_Samples = selectSamples dg matrix sampleLimit, ac_Matrix = matrix\<rparr>)"

definition GroupWithSampleLimit :: "(json \<Rightarrow> string) \<Rightarrow> Assertion list \<Rightarrow> int \<Rightarrow> ActionCard list" where
  "GroupWithSampleLimit dg assertions sampleLimit =
     (let keys = sort (dedup_on id (map groupKey_of assertions))
      in map (\<lambda>k. action_card dg sampleLimit (filter (\<lambda>a. groupKey_of a = k) assertions)) keys)"

definition Group :: "(json \<Rightarrow> string) \<Rightarrow> Assertion list \<Rightarrow> ActionCard list" where
  "Group dg assertions = GroupWithSampleLimit dg assertions DefaultSampleLimit"

section \<open>The Report document\<close>

record ReportPlanes =
  rl_Native :: int
  rl_Observed :: int
  rl_Desired :: int
  rl_Current :: int
  rl_Pending :: int
  rl_HostEffective :: int

record Report =
  rt_APIVersion :: string
  rt_Kind :: string
  rt_ID :: string
  rt_Worktree :: string
  rt_GeneratedAt :: string
  rt_Fingerprint :: string
  rt_Planes :: ReportPlanes
  rt_Drift :: "DriftAssertion list"
  rt_KnowledgeStatus :: "KnowledgeStatus gomap"

definition validateReportDrift :: "int \<Rightarrow> DriftAssertion \<Rightarrow> err option" where
  "validateReportDrift i d = first_err
     [require (da_EntityID d \<noteq> '''') (Errorf ''Report: spec.drift[%d]: entityId is required'' [AInt i]),
      require (da_Field d \<noteq> '''') (Errorf ''Report: spec.drift[%d]: field is required'' [AInt i]),
      require (da_RootCause d \<noteq> '''') (Errorf ''Report: spec.drift[%d]: rootCause is required'' [AInt i]),
      wrap_err ''Report: spec.drift[%d]: %w'' [AInt i] (ValidateDriftCategory (da_Category d)),
      (if da_EvidenceLevel d \<noteq> EvOther ''''
       then wrap_err ''Report: spec.drift[%d]: %w'' [AInt i] (ValidateEvidenceLevel (da_EvidenceLevel d)) else None),
      (if da_Guarantee d \<noteq> GuaranteeOther ''''
       then wrap_err ''Report: spec.drift[%d]: %w'' [AInt i] (ValidateGuaranteeLevel (da_Guarantee d)) else None)]"

definition ValidateReport :: "Report \<Rightarrow> err option" where
  "ValidateReport r = first_err
     ([ValidateAPIVersion ''Report'' (rt_APIVersion r),
       ValidateKind ''Report'' (rt_Kind r),
       require (rt_ID r \<noteq> '''') (Errorf ''Report: metadata.id is required'' []),
       require (rt_Worktree r \<noteq> '''') (Errorf ''Report: metadata.worktree is required'' []),
       require (rt_GeneratedAt r \<noteq> '''') (Errorf ''Report: metadata.generatedAt is required'' []),
       require (rt_Fingerprint r \<noteq> '''') (Errorf ''Report: spec.fingerprint is required'' []),
       require (IsCanonicalDigest (rt_Fingerprint r))
         (Errorf ''Report: spec.fingerprint %q is not a sha256 canonical digest'' [AStr (rt_Fingerprint r)])]
      @ map (\<lambda>(i, d). validateReportDrift (int i) d) (enumerate 0 (rt_Drift r))
      @ concat (map (\<lambda>(host, status).
          [wrap_err ''Report: spec.knowledgeStatus: %w'' [] (ValidateHostID host),
           wrap_err ''Report: spec.knowledgeStatus[%s]: %w'' [AStr host] (ValidateKnowledgeStatus status)])
        (rt_KnowledgeStatus r)))"

section \<open>The lookup of exceptions meets its contract\<close>

lemma drift_findException_loop_find:
  "drift_findException_loop exs aid scopes now = find (exception_applies aid scopes now) exs"
  by (induction exs) (auto simp: exception_applies_def)

lemma drift_findException_find:
  "drift_findException exs aid scopes now = find (exception_applies aid scopes now) exs"
proof -
  have scopes: "exception_applies aid (filter (\<lambda>s. s \<noteq> []) scopes) now = exception_applies aid scopes now"
    by (rule ext) (auto simp: exception_applies_def Exception_Valid_def)
  have "\<not> exception_applies aid scopes now e" if "aid = [] \<or> scopes = []" for e
    using that by (auto simp: exception_applies_def Exception_Valid_def)
  then have none: "find (exception_applies aid scopes now) exs = None" if "aid = [] \<or> scopes = []"
    using that by (simp add: find_None_iff)
  show ?thesis
  proof (cases "aid = [] \<or> scopes = []")
    case True
    with none show ?thesis by (simp add: drift_findException_def)
  next
    case False
    then show ?thesis by (simp add: drift_findException_def drift_findException_loop_find scopes)
  qed
qed

interpretation drift_ex: exception_lookup drift_findException
proof
  show "drift_findException exs aid scopes now = Some e \<Longrightarrow> e \<in> set exs \<and> exception_applies aid scopes now e"
    for exs aid scopes now e
    by (auto simp: drift_findException_find find_Some_iff)
  show "drift_findException exs aid scopes now = None \<Longrightarrow> e \<in> set exs \<Longrightarrow> \<not> exception_applies aid scopes now e"
    for exs aid scopes now e
    by (simp add: drift_findException_find find_None_iff)
qed (simp_all add: drift_findException_find)

section \<open>Lemmas\<close>



lemma split_buckets_keys: "k ` set (fst (split_buckets k seen xs)) = k ` set xs - set seen"
  by (induction xs arbitrary: seen) (auto simp: Let_def case_prod_beta)

lemma split_buckets_distinct: "distinct (map k (fst (split_buckets k seen xs)))"
proof (induction xs arbitrary: seen)
  case (Cons x xs)
  have "k x \<notin> k ` set (fst (split_buckets k (k x # seen) xs))" by (simp add: split_buckets_keys)
  with Cons show ?case by (auto simp: Let_def case_prod_beta)
qed simp

lemma split_buckets_mset:
  "mset (fst (split_buckets k seen xs)) + mset (snd (split_buckets k seen xs)) = mset xs"
  by (induction k seen xs rule: split_buckets.induct) (auto simp: Let_def case_prod_beta)

lemmas split_buckets_props = split_buckets_mset split_buckets_keys split_buckets_distinct

lemma selectSamples_props:
  assumes "selectSamples dg matrix limit = samples"
  defines "lim \<equiv> (if limit \<le> 0 \<or> int (length matrix) < limit then length matrix else nat limit)"
  shows "mset samples \<subseteq># mset matrix" and "length samples = lim"
    and "card (outcomeBucketKey dg ` set matrix) \<le> lim \<Longrightarrow> outcomeBucketKey dg ` set samples = outcomeBucketKey dg ` set matrix"
proof -
  obtain out unused where b: "split_buckets (outcomeBucketKey dg) [] matrix = (out, unused)"
    by (cases "split_buckets (outcomeBucketKey dg) [] matrix")
  note p = split_buckets_props [of "outcomeBucketKey dg" "[]" matrix, unfolded b fst_conv snd_conv]
  have s: "samples = (if lim \<le> length out then take lim out else out @ take (lim - length out) unused)"
    using assms(1) b by (auto simp: selectSamples_def lim_def Let_def)
  have take_sub: "mset (take n xs) \<subseteq># mset xs" for n and xs :: "Assertion list"
    by (metis append_take_drop_id mset_append mset_subset_eq_add_left)
  have lim_le: "lim \<le> length matrix" by (auto simp: lim_def)
  have len: "length out + length unused = length matrix" using p(1) by (metis size_mset size_union)
  show "mset samples \<subseteq># mset matrix"
  proof (cases "lim \<le> length out")
    case True
    have "mset (take lim out) \<subseteq># mset out + mset unused"
      using take_sub subset_mset.order_trans mset_subset_eq_add_left by blast
    with True s p(1) show ?thesis by simp
  next
    case False
    have "mset out + mset (take (lim - length out) unused) \<subseteq># mset out + mset unused"
      using take_sub by simp
    with False s p(1) show ?thesis by simp
  qed
  show "length samples = lim" using s len lim_le by auto
  show "outcomeBucketKey dg ` set samples = outcomeBucketKey dg ` set matrix"
    if c: "card (outcomeBucketKey dg ` set matrix) \<le> lim"
  proof -
    have "length out = card (outcomeBucketKey dg ` set matrix)"
      using p(2,3) distinct_card [OF p(3)] by simp
    then have "set out \<subseteq> set samples" using c s by auto
    moreover have "set samples \<subseteq> set matrix" using \<open>mset samples \<subseteq># mset matrix\<close> by (metis set_mset_mset set_mset_mono)
    ultimately show ?thesis using p(2) by (metis Diff_empty empty_set image_mono subset_antisym)
  qed
qed


lemma action_card_matrix [simp]: "ac_Matrix (action_card dg l b) = sort_key matrix_key b"
  by (simp add: action_card_def Let_def)

text \<open>Sample signals for the witnesses.\<close>

definition sample_signal :: "DriftCategory \<Rightarrow> string \<Rightarrow> json \<Rightarrow> Signal" where
  "sample_signal category host observed =
     \<lparr>sg_EntityID = ''web'', sg_Concept = ''skill'', sg_Field = ''digest'', sg_Category = category,
      sg_Expected = JStr ''a'', sg_Observed = observed, sg_RootCause = ''org'', sg_Remediation = '''',
      sg_Project = ''p'', sg_Host = host, sg_HostVersion = '''', sg_AdapterVersion = '''', sg_EvidenceLevel = EvParsed,
      sg_Guarantee = GuaranteeObserved, sg_AssetID = '''', sg_ExceptionScopes = []\<rparr>"

definition sample_exception_doc :: Exception where
  "sample_exception_doc = \<lparr>ex_APIVersion = SupportedAPIVersion, ex_Kind = ''Exception'', ex_ID = ''x'',
     ex_AssetID = ''web'', ex_Scope = ''org'', ex_Justification = ''j'', ex_ExpiresAt = 100\<rparr>"

definition sample_assertion :: "string \<Rightarrow> json \<Rightarrow> Assertion" where
  "sample_assertion host observed = the (projr (Classify (sample_signal DriftSourceDrift host observed) [] 0))"

fun sample_hash :: "json \<Rightarrow> string" where
  "sample_hash (JStr s) = s"
| "sample_hash _ = ''?''"

section \<open>Properties\<close>

text \<open>Classification. An assertion carries the signal's entity, field and values; its underlying category
is a valid base category (UNKNOWN where none was given), and its category is EXCEPTION exactly when the
underlying category is not UNKNOWN and a live exception applies to the asset in one of its scopes,
otherwise the underlying category itself.\<close>

theorem classify_category:
  assumes "Classify sig exs now = Inr (Some a)"
  shows "da_EntityID a = sg_EntityID sig \<and> da_Field a = sg_Field sig \<and>
     DriftCategory_Valid (da_UnderlyingCategory a) \<and> da_UnderlyingCategory a \<noteq> DriftException \<and>
     da_UnderlyingCategory a = (if sg_Category sig = DriftOther [] then DriftUnknown else sg_Category sig) \<and>
     (da_Category a = DriftException \<longleftrightarrow>
        da_UnderlyingCategory a \<noteq> DriftUnknown \<and>
        (\<exists>e \<in> set exs. exception_applies (if sg_AssetID sig = [] then sg_EntityID sig else sg_AssetID sig)
           (if sg_ExceptionScopes sig = [] then [sg_RootCause sig] else sg_ExceptionScopes sig) now e)) \<and>
     (da_Category a = DriftException \<or> da_Category a = da_UnderlyingCategory a)"
proof -
  let ?aid = "if sg_AssetID sig = [] then sg_EntityID sig else sg_AssetID sig"
    and ?scopes = "if sg_ExceptionScopes sig = [] then [sg_RootCause sig] else sg_ExceptionScopes sig"
  have none: "drift_findException exs ?aid ?scopes now = None \<longleftrightarrow> (\<forall>e \<in> set exs. \<not> exception_applies ?aid ?scopes now e)"
    by (rule drift_ex.lookup_None_iff)
  show ?thesis
    using assms none
    by (cases "drift_findException exs ?aid ?scopes now")
      (auto simp: Classify_def Let_def simp del: drift_ex.lookup_no_scopes split: if_splits)
qed

lemma classify_category_witness:
  "(let sig = sample_signal DriftSourceDrift ''codex'' (JStr ''b''); exs = [sample_exception_doc];
        a = the (projr (Classify sig exs 10))
    in da_Category a = DriftException \<and> da_EntityID a = sg_EntityID sig \<and> da_Field a = sg_Field sig \<and>
     DriftCategory_Valid (da_UnderlyingCategory a) \<and> da_UnderlyingCategory a \<noteq> DriftException \<and>
     da_UnderlyingCategory a = (if sg_Category sig = DriftOther [] then DriftUnknown else sg_Category sig) \<and>
     (da_Category a = DriftException \<longleftrightarrow>
        da_UnderlyingCategory a \<noteq> DriftUnknown \<and>
        (\<exists>e \<in> set exs. exception_applies (if sg_AssetID sig = [] then sg_EntityID sig else sg_AssetID sig)
           (if sg_ExceptionScopes sig = [] then [sg_RootCause sig] else sg_ExceptionScopes sig) 10 e)) \<and>
     (da_Category a = DriftException \<or> da_Category a = da_UnderlyingCategory a))"
  unfolding Let_def by (rule conjI, code_simp, rule classify_category) code_simp

text \<open>Agreement is not drift. A signal of a difference category whose expected and observed values agree
yields no assertion, and every well-formed signal of the other categories yields one.\<close>

theorem classify_reports_differences:
  assumes "sg_EntityID sig \<noteq> []" "sg_Field sig \<noteq> []" "sg_RootCause sig \<noteq> []"
    and "DriftCategory_Valid (sg_Category sig)" "sg_Category sig \<noteq> DriftException"
  shows "\<exists>r. Classify sig exs now = Inr r \<and>
     (r = None \<longleftrightarrow> isDiffCategory (sg_Category sig) \<and> canon (sg_Expected sig) = canon (sg_Observed sig))"
  using assms by (auto simp: Classify_def Let_def DeepEqual_def split: prod.splits)

lemma classify_reports_differences_witness:
  "(let sig = sample_signal DriftSourceDrift ''codex'' (JStr ''a'')
    in \<exists>r. Classify sig [] 10 = Inr r \<and>
     (r = None \<longleftrightarrow> isDiffCategory (sg_Category sig) \<and> canon (sg_Expected sig) = canon (sg_Observed sig)))"
  unfolding Let_def by (rule classify_reports_differences) code_simp+



text \<open>Samples. A card's samples are a sub-collection of its matrix of exactly the requested size (the
whole matrix where the limit is absent or larger), and when the limit admits every distinct outcome, every
distinct outcome of the matrix is among them.\<close>

theorem samples_cover_outcomes:
  "mset (selectSamples dg matrix limit) \<subseteq># mset matrix \<and>
   length (selectSamples dg matrix limit) = (if limit \<le> 0 \<or> int (length matrix) < limit then length matrix else nat limit) \<and>
   (card (outcomeBucketKey dg ` set matrix) \<le> length (selectSamples dg matrix limit) \<longrightarrow>
      outcomeBucketKey dg ` set (selectSamples dg matrix limit) = outcomeBucketKey dg ` set matrix)"
  using selectSamples_props [OF refl, of dg matrix limit] by simp

lemma samples_cover_outcomes_witness:
  "(let matrix = [sample_assertion ''codex'' (JStr ''b''), sample_assertion ''pi'' (JStr ''b''), sample_assertion ''pi'' (JStr ''c'')];
        samples = selectSamples sample_hash matrix 2
    in outcomeBucketKey sample_hash ` set samples = outcomeBucketKey sample_hash ` set matrix)"
proof -
  let ?m = "[sample_assertion ''codex'' (JStr ''b''), sample_assertion ''pi'' (JStr ''b''), sample_assertion ''pi'' (JStr ''c'')]"
  have "card (outcomeBucketKey sample_hash ` set ?m) \<le> length (selectSamples sample_hash ?m 2)" by code_simp
  with samples_cover_outcomes [of sample_hash ?m 2] show ?thesis unfolding Let_def by blast
qed

text \<open>The grouping depends on the order of its input. Two assertions about the same field of the same
entity in the same project and host are not ordered by the matrix comparator, so exchanging them in the
input exchanges them in the card.\<close>

theorem group_order_dependent:
  "(let a = sample_assertion ''codex'' (JStr ''b''); b = sample_assertion ''codex'' (JStr ''c'')
    in Group dg [a, b] \<noteq> Group dg [b, a])"
proof -
  have "map ac_Matrix (Group dg [sample_assertion ''codex'' (JStr ''b''), sample_assertion ''codex'' (JStr ''c'')]) =
      [[sample_assertion ''codex'' (JStr ''b''), sample_assertion ''codex'' (JStr ''c'')]]"
    "map ac_Matrix (Group dg [sample_assertion ''codex'' (JStr ''c''), sample_assertion ''codex'' (JStr ''b'')]) =
      [[sample_assertion ''codex'' (JStr ''c''), sample_assertion ''codex'' (JStr ''b'')]]"
    by (simp_all add: Group_def GroupWithSampleLimit_def Let_def sample_assertion_def Classify_def sample_signal_def
        groupKey_of_def matrix_key_def dedup_on_def DeepEqual_def drift_findException_find contextCell_def)
  moreover have "sample_assertion ''codex'' (JStr ''b'') \<noteq> sample_assertion ''codex'' (JStr ''c'')" by code_simp
  ultimately show ?thesis unfolding Let_def by (metis list.inject)
qed

end
