(* ===== verification/Go_Fmt.thy ===== *)
theory Go_Fmt
  imports Prelude
begin

text \<open>
  The rendering of \<^verbatim>\<open>fmt.Sprintf\<close> for the verbs the modelled packages use (\<^verbatim>\<open>%s\<close>, \<^verbatim>\<open>%q\<close>, \<^verbatim>\<open>%d\<close>, \<^verbatim>\<open>%v\<close>), over
  ASCII text. Where a rendered text is compared or digested the model renders it; elsewhere a message keeps
  its format and arguments.
\<close>

fun nat_dec :: "nat \<Rightarrow> string" where
  "nat_dec n = (if n < 10 then [char_of (48 + n)] else nat_dec (n div 10) @ [char_of (48 + n mod 10)])"

declare nat_dec.simps [simp del]

definition int_dec :: "int \<Rightarrow> string" where
  "int_dec i = (if i < 0 then CHR ''-'' # nat_dec (nat (- i)) else nat_dec (nat i))"

definition hex_digit :: "nat \<Rightarrow> char" where
  "hex_digit n = (if n < 10 then char_of (48 + n) else char_of (87 + n))"

text \<open>\<^verbatim>\<open>strconv.Quote\<close>.\<close>

definition quote_char :: "char \<Rightarrow> string" where
  "quote_char c =
     (let n = (of_char c :: nat) in
      if n = 34 then [CHR 0x5C, CHR 0x22]
      else if n = 92 then [CHR 0x5C, CHR 0x5C]
      else if n = 7 then [CHR 0x5C, CHR ''a'']
      else if n = 8 then [CHR 0x5C, CHR ''b'']
      else if n = 12 then [CHR 0x5C, CHR ''f'']
      else if n = 10 then [CHR 0x5C, CHR ''n'']
      else if n = 13 then [CHR 0x5C, CHR ''r'']
      else if n = 9 then [CHR 0x5C, CHR ''t'']
      else if n = 11 then [CHR 0x5C, CHR ''v'']
      else if n < 32 \<or> n = 127 then [CHR 0x5C, CHR ''x'', hex_digit (n div 16), hex_digit (n mod 16)]
      else [c])"

definition Quote :: "string \<Rightarrow> string" where
  "Quote s = CHR 0x22 # concat (map quote_char s) @ [CHR 0x22]"

fun fmt_arg :: "char \<Rightarrow> arg \<Rightarrow> string" where
  "fmt_arg v (AStr s) = (if v = CHR ''q'' then Quote s else s)"
| "fmt_arg v (AInt i) = int_dec i"
| "fmt_arg v (ABool b) = (if b then ''true'' else ''false'')"
| "fmt_arg v (AStrs ss) = ''['' @ join_with '' '' (map (\<lambda>s. if v = CHR ''q'' then Quote s else s) ss) @ '']''"

fun Sprintf :: "string \<Rightarrow> arg list \<Rightarrow> string" where
  "Sprintf [] as = []"
| "Sprintf [c] as = [c]"
| "Sprintf (c # v # f) as =
     (if c \<noteq> CHR ''%'' then c # Sprintf (v # f) as
      else if v = CHR ''%'' then CHR ''%'' # Sprintf f as
      else case as of a # as' \<Rightarrow> fmt_arg v a @ Sprintf f as'
                    | [] \<Rightarrow> ''%!'' @ [v] @ ''(MISSING)'' @ Sprintf f [])"

fun message_text :: "message \<Rightarrow> string" where
  "message_text (Msg f as) = Sprintf f as"

text \<open>\<^verbatim>\<open>strings.NewReplacer\<close> for one-byte keys with distinct keys: every byte is looked up once.\<close>

definition replace_bytes :: "(char \<times> string) list \<Rightarrow> string \<Rightarrow> string" where
  "replace_bytes rules s = concat (map (\<lambda>c. case map_of rules c of Some t \<Rightarrow> t | None \<Rightarrow> [c]) s)"

lemma replace_bytes_append [simp]: "replace_bytes r (s @ t) = replace_bytes r s @ replace_bytes r t"
  by (simp add: replace_bytes_def)

lemma Sprintf_sample: "Sprintf ''%s has %d of %q'' [AStr ''web'', AInt 12, AStr ''a b''] = ''web has 12 of \"a b\"''"
  by code_simp

section \<open>JSON text\<close>

text \<open>The string encoding of \<^verbatim>\<open>encoding/json\<close>, which also escapes the characters that HTML treats specially.\<close>

definition json_char :: "char \<Rightarrow> string" where
  "json_char c =
     (let n = (of_char c :: nat) in
      if n = 34 then [CHR 0x5C, CHR 0x22]
      else if n = 92 then [CHR 0x5C, CHR 0x5C]
      else if n = 8 then [CHR 0x5C, CHR ''b'']
      else if n = 12 then [CHR 0x5C, CHR ''f'']
      else if n = 10 then [CHR 0x5C, CHR ''n'']
      else if n = 13 then [CHR 0x5C, CHR ''r'']
      else if n = 9 then [CHR 0x5C, CHR ''t'']
      else if n < 32 \<or> n \<in> {38, 60, 62} then [CHR 0x5C, CHR ''u'', CHR ''0'', CHR ''0'', hex_digit (n div 16), hex_digit (n mod 16)]
      else [c])"

definition json_string :: "string \<Rightarrow> string" where
  "json_string s = CHR 0x22 # concat (map json_char s) @ [CHR 0x22]"

end
