(* ===== verification/Domain_Generation.thy ===== *)
theory Domain_Generation
  imports Domain_Docs
begin

text \<open>
  The Generation document of \<^verbatim>\<open>internal/domain/generation.go\<close>: one compiled, immutable runtime with its
  hosts, the decision about every source, the desired state it was compiled from, and its parent. A pointer
  that may be nil is an option; reasons are rendered text, because they are sorted and digested.
\<close>

definition CurrentOntologyVersion :: string where
  "CurrentOntologyVersion = ''v0.3''"

record GenerationMetadata =
  gm_ID :: string
  gm_Worktree :: string
  gm_Invocation :: string
  gm_Parent :: "string option"
  gm_CreatedAt :: string

record KnowledgePackRef =
  kp_ID :: string
  kp_Digest :: string

record GenerationArtifact =
  ga_Path :: string
  ga_Digest :: string

record GenerationHostEntry =
  gh_HostVersion :: string
  gh_Surface :: string
  gh_AdapterID :: string
  gh_AdapterVersion :: string
  gh_Ownership :: Ownership
  gh_Artifacts :: "GenerationArtifact list"

record GenerationSourceEntry =
  gs_Concept :: string
  gs_Source :: string
  gs_Scope :: string
  gs_Host :: string
  gs_Included :: bool
  gs_Reason :: string
  gs_CapabilityGap :: bool
  gs_TrackingIssue :: string

record ProfileRef =
  pr_ID :: string
  pr_Digest :: string

record DesiredStateRef =
  dr_Profiles :: "ProfileRef list"
  dr_Activation :: string
  dr_Exceptions :: "string list"

record GenerationDiffSummary =
  gd_NativeChanged :: "string list"
  gd_CurrentChanged :: "string list"

record ExpectedEvidenceEntry =
  xe_Host :: string
  xe_Evidence :: EvidenceLevel
  xe_Guarantee :: GuaranteeLevel

record GenerationSpec =
  gp_DesiredGraphDigest :: string
  gp_KnowledgePacks :: "KnowledgePackRef list"
  gp_Hosts :: "GenerationHostEntry gomap"
  gp_Sources :: "GenerationSourceEntry list"
  gp_Status :: string
  gp_OntologyVersion :: string
  gp_SourceDigest :: string
  gp_DesiredState :: "DesiredStateRef option"
  gp_Diff :: "GenerationDiffSummary option"
  gp_RiskConfirmations :: "string list"
  gp_ExpectedEvidence :: "ExpectedEvidenceEntry list"

record Generation =
  gn_APIVersion :: string
  gn_Kind :: string
  gn_Metadata :: GenerationMetadata
  gn_Spec :: GenerationSpec

abbreviation gen_id :: "Generation \<Rightarrow> string" where
  "gen_id g \<equiv> gm_ID (gn_Metadata g)"

abbreviation gen_parent :: "Generation \<Rightarrow> string option" where
  "gen_parent g \<equiv> gm_Parent (gn_Metadata g)"

section \<open>Validation\<close>

definition validateGenerationHost :: "string \<times> GenerationHostEntry \<Rightarrow> err option" where
  "validateGenerationHost he =
     (let (host, entry) = he in first_err
       [wrap_err ''Generation: spec.hosts: %w'' [] (ValidateHostID host),
        require (gh_AdapterID entry \<noteq> '''') (Errorf ''Generation: spec.hosts[%s]: adapterId is required'' [AStr host]),
        wrap_err ''Generation: spec.hosts[%s]: %w'' [AStr host] (ValidateOwnership (gh_Ownership entry))])"

definition validateGenerationSource :: "nat \<Rightarrow> GenerationSourceEntry \<Rightarrow> err option" where
  "validateGenerationSource i s = first_err
     [require (gs_Concept s \<noteq> '''') (Errorf ''Generation: spec.sources[%d]: concept is required'' [AInt (int i)]),
      require (gs_Reason s \<noteq> '''') (Errorf ''Generation: spec.sources[%d]: reason is required'' [AInt (int i)]),
      require (\<not> (gs_CapabilityGap s \<and> gs_TrackingIssue s = ''''))
        (Errorf ''Generation: spec.sources[%d]: capabilityGap is true but trackingIssue is empty -- capability-gap shipping is allowed, hiding is not (issue #13 round-2 audit)''
           [AInt (int i)])]"

definition validateDesiredState :: "DesiredStateRef \<Rightarrow> err option" where
  "validateDesiredState d = first_err
     (concat (map (\<lambda>(i, p).
          [require (pr_ID p \<noteq> '''') (Errorf ''Generation: spec.desiredState.profiles[%d]: id is required'' [AInt (int i)]),
           require (IsCanonicalDigest (pr_Digest p))
             (Errorf ''Generation: spec.desiredState.profiles[%d]: digest %q is not a sha256 canonical digest'' [AInt (int i), AStr (pr_Digest p)])])
        (enumerate 0 (dr_Profiles d)))
      @ [require (dr_Activation d = '''' \<or> IsCanonicalDigest (dr_Activation d))
           (Errorf ''Generation: spec.desiredState.activation %q is not a sha256 canonical digest'' [AStr (dr_Activation d)])]
      @ map (\<lambda>(i, x). require (IsCanonicalDigest x)
           (Errorf ''Generation: spec.desiredState.exceptions[%d]: %q is not a sha256 canonical digest'' [AInt (int i), AStr x]))
         (enumerate 0 (dr_Exceptions d)))"

definition validateExpectedEvidence :: "nat \<Rightarrow> ExpectedEvidenceEntry \<Rightarrow> err option" where
  "validateExpectedEvidence i e = first_err
     [require (xe_Host e \<noteq> '''') (Errorf ''Generation: spec.expectedEvidence[%d]: host is required'' [AInt (int i)]),
      wrap_err ''Generation: spec.expectedEvidence[%d]: %w'' [AInt (int i)] (ValidateHostID (xe_Host e)),
      (if xe_Evidence e = EvOther '''' then None
       else wrap_err ''Generation: spec.expectedEvidence[%d]: %w'' [AInt (int i)] (ValidateEvidenceLevel (xe_Evidence e))),
      (if xe_Guarantee e = GuaranteeOther '''' then None
       else wrap_err ''Generation: spec.expectedEvidence[%d]: %w'' [AInt (int i)] (ValidateGuaranteeLevel (xe_Guarantee e)))]"

definition ValidateGeneration :: "Generation \<Rightarrow> err option" where
  "ValidateGeneration g =
     (let m = gn_Metadata g; sp = gn_Spec g in first_err
       ([ValidateAPIVersion ''Generation'' (gn_APIVersion g),
         ValidateKind ''Generation'' (gn_Kind g),
         require (gm_ID m \<noteq> '''') (Errorf ''Generation: metadata.id is required'' []),
         require (gm_Worktree m \<noteq> '''') (Errorf ''Generation: metadata.worktree is required'' []),
         require (gm_CreatedAt m \<noteq> '''') (Errorf ''Generation: metadata.createdAt is required'' []),
         require (gp_DesiredGraphDigest sp \<noteq> '''') (Errorf ''Generation: spec.desiredGraphDigest is required'' []),
         require (IsCanonicalDigest (gp_DesiredGraphDigest sp))
           (Errorf ''Generation: spec.desiredGraphDigest %q is not a sha256 canonical digest'' [AStr (gp_DesiredGraphDigest sp)])]
        @ concat (map (\<lambda>(i, k).
            [require (kp_ID k \<noteq> '''') (Errorf ''Generation: spec.knowledgePacks[%d]: id is required'' [AInt (int i)]),
             require (IsCanonicalDigest (kp_Digest k))
               (Errorf ''Generation: spec.knowledgePacks[%d]: digest %q is not a sha256 canonical digest'' [AInt (int i), AStr (kp_Digest k)])])
           (enumerate 0 (gp_KnowledgePacks sp)))
        @ map validateGenerationHost (gp_Hosts sp)
        @ map (\<lambda>(i, s). validateGenerationSource i s) (enumerate 0 (gp_Sources sp))
        @ [case gp_DesiredState sp of None \<Rightarrow> None | Some d \<Rightarrow> validateDesiredState d]
        @ [require (gp_SourceDigest sp = '''' \<or> IsCanonicalDigest (gp_SourceDigest sp))
             (Errorf ''Generation: spec.sourceDigest %q is not a sha256 canonical digest'' [AStr (gp_SourceDigest sp)])]
        @ map (\<lambda>(i, e). validateExpectedEvidence i e) (enumerate 0 (gp_ExpectedEvidence sp))))"

section \<open>Lemmas\<close>

text \<open>Changing the parent of a generation, the one field that \<^verbatim>\<open>ReconcileGenerationParent\<close> rewrites, keeps it valid.\<close>

lemma ValidateGeneration_parent [simp]:
  "ValidateGeneration (g\<lparr>gn_Metadata := gn_Metadata g\<lparr>gm_Parent := p\<rparr>\<rparr>) = ValidateGeneration g"
  by (simp add: ValidateGeneration_def Let_def)

lemma ValidateGeneration_id: "ValidateGeneration g = None \<Longrightarrow> gen_id g \<noteq> []"
  by (simp add: ValidateGeneration_def Let_def go_check)

end
