(* ===== verification/Worktree_Store.thy ===== *)
theory Worktree_Store
  imports Go_Paths Go_Fmt Host_Context Domain_Generation
begin

text \<open>
  The worktree state directory of \<^verbatim>\<open>internal/runtime\<close> (\<^verbatim>\<open>current.go\<close>, \<^verbatim>\<open>pending.go\<close>, \<^verbatim>\<open>ledger.go\<close>,
  \<^verbatim>\<open>activationlock.go\<close>): one \<^verbatim>\<open>current\<close> and one \<^verbatim>\<open>pending\<close> pointer per host (a symlink and a record beside it), the
  files and manifests of the compiled generations, one append-only ledger and one advisory lock per host.

  A disk maps paths to the files the package reads back: symlinks, records, manifests and ledgers. Every system
  call may fail: \<open>dk_fault\<close> says which calls do, and nothing is assumed about it. A rename either happens or
  does not, which is what POSIX promises; temporary files, directories and modes are not part of the state, and
  a failed ledger write leaves the file as it was.
\<close>

section \<open>The disk\<close>

datatype sysop =
  MkdirAll | Symlink | Rename | Remove | WriteFile | ReadFile | Readlink | OpenAppend | OpenLock | Flock | Chmod

text \<open>What a JSON file holds: a document, or text that does not decode.\<close>

datatype 'a jsonfile = Garbled err | Doc 'a

record CurrentRecord =
  cr_GenerationID :: string
  cr_HostBinaryPath :: string
  cr_HostVersion :: string
  cr_RecordedAt :: string

record LedgerEntry =
  le_Host :: string
  le_GenerationID :: string
  le_Kind :: string
  le_RecordedAt :: string
  le_Detail :: string

record disk =
  dk_links :: "string \<rightharpoonup> string"
  dk_records :: "string \<rightharpoonup> CurrentRecord jsonfile"
  dk_manifests :: "string \<rightharpoonup> Generation jsonfile"
  dk_files :: "string \<rightharpoonup> string"
  dk_ledgers :: "string \<rightharpoonup> LedgerEntry jsonfile list"
  dk_locks :: "string list"
  dk_fault :: "sysop \<Rightarrow> string \<Rightarrow> err option"

text \<open>An error that \<^verbatim>\<open>os.IsNotExist\<close> recognises, or any other.\<close>

datatype ioerr = NotExist | IOErr err

fun ioerr_err :: "ioerr \<Rightarrow> err" where
  "ioerr_err NotExist = Errorf ''no such file or directory'' []"
| "ioerr_err (IOErr e) = e"

definition read_file :: "sysop \<Rightarrow> string \<Rightarrow> (string \<rightharpoonup> 'a) \<Rightarrow> disk \<Rightarrow> ioerr + 'a" where
  "read_file call path files dk =
     (case dk_fault dk call path of
        Some e \<Rightarrow> Inl (IOErr e)
      | None \<Rightarrow> (case files path of None \<Rightarrow> Inl NotExist | Some x \<Rightarrow> Inr x))"

section \<open>Identifiers and paths\<close>

definition DirSafeID :: "string \<Rightarrow> string" where
  "DirSafeID s = replace_bytes [(CHR '':'', ''-''), (CHR ''/'', ''-'')] s"

definition pointerLinkPath :: "string \<Rightarrow> string \<Rightarrow> string \<Rightarrow> string" where
  "pointerLinkPath worktreeStateDir pointerName host = Join [worktreeStateDir, pointerName, host]"

definition pointerRecordPath :: "string \<Rightarrow> string \<Rightarrow> string \<Rightarrow> string" where
  "pointerRecordPath worktreeStateDir pointerName host = pointerLinkPath worktreeStateDir pointerName host @ ''.json''"

definition ledgerPath :: "string \<Rightarrow> string \<Rightarrow> string" where
  "ledgerPath worktreeStateDir host = Join [worktreeStateDir, ''ledger'', host @ ''.jsonl'']"

definition activationLockPath :: "string \<Rightarrow> string \<Rightarrow> string" where
  "activationLockPath worktreeStateDir host = Join [worktreeStateDir, ''locks'', host @ ''.activate.lock'']"

definition manifestPath :: "string \<Rightarrow> string" where
  "manifestPath generationDir = Join [generationDir, ''manifest.json'']"

section \<open>Pointers\<close>

definition setGenerationPointer ::
  "string \<Rightarrow> string \<Rightarrow> string \<Rightarrow> string \<Rightarrow> Generation \<Rightarrow> HostDetection \<Rightarrow> gotime \<Rightarrow> disk \<Rightarrow> err option \<times> disk" where
  "setGenerationPointer worktreeStateDir pointerName host generationDir gen detection now dk =
     (let wrap = wrap_err ''runtime: setGenerationPointer(%s): %w'' [AStr pointerName];
          pointerDir = Join [worktreeStateDir, pointerName];
          linkPath = pointerLinkPath worktreeStateDir pointerName host;
          recordPath = pointerRecordPath worktreeStateDir pointerName host
      in case first_err
           [require (worktreeStateDir \<noteq> '''')
              (Errorf ''runtime: setGenerationPointer(%s): worktreeStateDir is required'' [AStr pointerName]),
            wrap (ValidateHostID host),
            wrap (dk_fault dk MkdirAll pointerDir)] of
        Some e \<Rightarrow> (Some e, dk)
      | None \<Rightarrow>
      (case Rel pointerDir generationDir of
        Inl e \<Rightarrow> (wrap (Some e), dk)
      | Inr rel \<Rightarrow>
      (case wrap (first_err [dk_fault dk Symlink linkPath, dk_fault dk Rename linkPath]) of
        Some e \<Rightarrow> (Some e, dk)
      | None \<Rightarrow>
         (let dk1 = dk\<lparr>dk_links := (dk_links dk)(linkPath \<mapsto> rel)\<rparr>;
              record = \<lparr>cr_GenerationID = gen_id gen, cr_HostBinaryPath = hd_BinaryPath detection,
                        cr_HostVersion = hd_Version detection, cr_RecordedAt = RFC3339 now\<rparr>
          in case wrap (first_err [dk_fault dk WriteFile recordPath, dk_fault dk Rename recordPath]) of
               Some e \<Rightarrow> (Some e, dk1)
             | None \<Rightarrow> (None, dk1\<lparr>dk_records := (dk_records dk)(recordPath \<mapsto> Doc record)\<rparr>)))))"

definition generationPointerDir :: "string \<Rightarrow> string \<Rightarrow> string \<Rightarrow> disk \<Rightarrow> ioerr + string" where
  "generationPointerDir worktreeStateDir pointerName host dk =
     (let linkPath = pointerLinkPath worktreeStateDir pointerName host
      in case read_file Readlink linkPath (dk_links dk) dk of
           Inl e \<Rightarrow> Inl e
         | Inr target \<Rightarrow> Inr (Clean (if \<not> IsAbs target then Join [Dir linkPath, target] else target)))"

definition readPointerRecord :: "string \<Rightarrow> string \<Rightarrow> string \<Rightarrow> disk \<Rightarrow> ioerr + CurrentRecord" where
  "readPointerRecord worktreeStateDir pointerName host dk =
     (let path = pointerRecordPath worktreeStateDir pointerName host
      in case read_file ReadFile path (dk_records dk) dk of
           Inl e \<Rightarrow> Inl e
         | Inr (Garbled e) \<Rightarrow> Inl (IOErr (Wrapf ''runtime: readPointerRecord(%s): %w'' [AStr pointerName] e))
         | Inr (Doc r) \<Rightarrow> Inr r)"

definition SetCurrentGeneration ::
  "string \<Rightarrow> string \<Rightarrow> string \<Rightarrow> Generation \<Rightarrow> HostDetection \<Rightarrow> gotime \<Rightarrow> disk \<Rightarrow> err option \<times> disk" where
  "SetCurrentGeneration worktreeStateDir host = setGenerationPointer worktreeStateDir ''current'' host"

definition CurrentGenerationDir :: "string \<Rightarrow> string \<Rightarrow> disk \<Rightarrow> ioerr + string" where
  "CurrentGenerationDir worktreeStateDir host = generationPointerDir worktreeStateDir ''current'' host"

definition ReadCurrentRecord :: "string \<Rightarrow> string \<Rightarrow> disk \<Rightarrow> ioerr + CurrentRecord" where
  "ReadCurrentRecord worktreeStateDir host = readPointerRecord worktreeStateDir ''current'' host"

definition SetPendingGeneration ::
  "string \<Rightarrow> string \<Rightarrow> string \<Rightarrow> Generation \<Rightarrow> HostDetection \<Rightarrow> gotime \<Rightarrow> disk \<Rightarrow> err option \<times> disk" where
  "SetPendingGeneration worktreeStateDir host = setGenerationPointer worktreeStateDir ''pending'' host"

definition PendingGenerationDir :: "string \<Rightarrow> string \<Rightarrow> disk \<Rightarrow> ioerr + string" where
  "PendingGenerationDir worktreeStateDir host = generationPointerDir worktreeStateDir ''pending'' host"

definition ReadPendingRecord :: "string \<Rightarrow> string \<Rightarrow> disk \<Rightarrow> ioerr + CurrentRecord" where
  "ReadPendingRecord worktreeStateDir host = readPointerRecord worktreeStateDir ''pending'' host"

text \<open>Removing the two files of the pending pointer; a failure to remove either is ignored.\<close>

definition clearPendingGeneration :: "string \<Rightarrow> string \<Rightarrow> disk \<Rightarrow> disk" where
  "clearPendingGeneration worktreeStateDir host dk =
     (let linkPath = pointerLinkPath worktreeStateDir ''pending'' host;
          recordPath = pointerRecordPath worktreeStateDir ''pending'' host
      in dk\<lparr>dk_links := (if dk_fault dk Remove linkPath = None then (dk_links dk)(linkPath := None) else dk_links dk),
            dk_records := (if dk_fault dk Remove recordPath = None then (dk_records dk)(recordPath := None) else dk_records dk)\<rparr>)"

section \<open>Manifests\<close>

definition ReadGenerationManifest :: "string \<Rightarrow> disk \<Rightarrow> ioerr + Generation" where
  "ReadGenerationManifest generationDir dk =
     (case read_file ReadFile (manifestPath generationDir) (dk_manifests dk) dk of
        Inl e \<Rightarrow> Inl e
      | Inr (Garbled e) \<Rightarrow> Inl (IOErr (Wrapf ''runtime: ReadGenerationManifest: %s: %w'' [AStr generationDir] e))
      | Inr (Doc gen) \<Rightarrow>
          (case ValidateGeneration gen of
             Some e \<Rightarrow> Inl (IOErr (Wrapf ''runtime: ReadGenerationManifest: %s: %w'' [AStr generationDir] e))
           | None \<Rightarrow> Inr gen))"

text \<open>
  Rewriting the parent of a manifest on disk. The write truncates the file first, so a failing write leaves it
  undecodable.
\<close>

definition ReconcileGenerationParent :: "string \<Rightarrow> string option \<Rightarrow> disk \<Rightarrow> (ioerr + Generation) \<times> disk" where
  "ReconcileGenerationParent outputDir freshParent dk =
     (case ReadGenerationManifest outputDir dk of
        Inl e \<Rightarrow> (Inl e, dk)
      | Inr gen \<Rightarrow>
          if gen_parent gen = freshParent then (Inr gen, dk)
          else
            (let gen' = gen\<lparr>gn_Metadata := gn_Metadata gen\<lparr>gm_Parent := freshParent\<rparr>\<rparr>;
                 wrap = Wrapf ''runtime: ReconcileGenerationParent: %s: %w'' [AStr outputDir];
                 path = manifestPath outputDir
             in case ValidateGeneration gen' of
                  Some e \<Rightarrow> (Inl (IOErr (wrap e)), dk)
                | None \<Rightarrow>
                (case dk_fault dk Chmod path of
                  Some e \<Rightarrow> (Inl (IOErr (wrap e)), dk)
                | None \<Rightarrow>
                (case dk_fault dk WriteFile path of
                  Some e \<Rightarrow> (Inl (IOErr (wrap e)), dk\<lparr>dk_manifests := (dk_manifests dk)(path \<mapsto> Garbled e)\<rparr>)
                | None \<Rightarrow> (Inr gen', dk\<lparr>dk_manifests := (dk_manifests dk)(path \<mapsto> Doc gen')\<rparr>)))))"

section \<open>The ledger\<close>

definition AppendLedgerEntry :: "string \<Rightarrow> string \<Rightarrow> LedgerEntry \<Rightarrow> disk \<Rightarrow> err option \<times> disk" where
  "AppendLedgerEntry worktreeStateDir host entry dk =
     (let wrap = wrap_err ''runtime: AppendLedgerEntry: %w'' []; path = ledgerPath worktreeStateDir host
      in case first_err
           [require (worktreeStateDir \<noteq> '''') (Errorf ''runtime: AppendLedgerEntry: worktreeStateDir is required'' []),
            wrap (ValidateHostID host),
            require (le_Host entry = host)
              (Errorf ''runtime: AppendLedgerEntry: entry.Host %q does not match host %q'' [AStr (le_Host entry), AStr host]),
            require (le_GenerationID entry \<noteq> '''') (Errorf ''runtime: AppendLedgerEntry: entry.GenerationID is required'' []),
            require (le_Kind entry \<noteq> '''') (Errorf ''runtime: AppendLedgerEntry: entry.Kind is required'' []),
            require (le_RecordedAt entry \<noteq> '''')
              (Errorf ''runtime: AppendLedgerEntry: entry.RecordedAt is required (this package never reads the clock implicitly)'' []),
            wrap (dk_fault dk MkdirAll (Join [worktreeStateDir, ''ledger''])),
            wrap (dk_fault dk OpenAppend path),
            wrap (dk_fault dk WriteFile path)] of
        Some e \<Rightarrow> (Some e, dk)
      | None \<Rightarrow>
          (None, dk\<lparr>dk_ledgers := (dk_ledgers dk)(path \<mapsto>
             (case dk_ledgers dk path of None \<Rightarrow> [] | Some es \<Rightarrow> es) @ [Doc entry])\<rparr>))"

fun ReadLedger_loop :: "nat \<Rightarrow> LedgerEntry jsonfile list \<Rightarrow> err + LedgerEntry list" where
  "ReadLedger_loop i [] = Inr []"
| "ReadLedger_loop i (Garbled e # lines) = Inl (Wrapf ''runtime: ReadLedger: line %d: %w'' [AInt (int i + 1)] e)"
| "ReadLedger_loop i (Doc entry # lines) =
     (case ReadLedger_loop (Suc i) lines of Inl e \<Rightarrow> Inl e | Inr es \<Rightarrow> Inr (entry # es))"

definition ReadLedger :: "string \<Rightarrow> string \<Rightarrow> disk \<Rightarrow> err + LedgerEntry list" where
  "ReadLedger worktreeStateDir host dk =
     (case read_file ReadFile (ledgerPath worktreeStateDir host) (dk_ledgers dk) dk of
        Inl NotExist \<Rightarrow> Inr []
      | Inl (IOErr e) \<Rightarrow> Inl (Wrapf ''runtime: ReadLedger: %w'' [] e)
      | Inr lines \<Rightarrow> ReadLedger_loop 0 lines)"

section \<open>The activation lock\<close>

datatype aerr =
    ActivationInProgress string string
  | CASMismatch string string string string
  | Fail err

definition acquireActivationLock :: "string \<Rightarrow> string \<Rightarrow> disk \<Rightarrow> aerr option \<times> disk" where
  "acquireActivationLock worktreeStateDir host dk =
     (let path = activationLockPath worktreeStateDir host
      in case wrap_err ''runtime: acquiring activation lock for %s: %w'' [AStr host]
           (first_err [dk_fault dk MkdirAll (Join [worktreeStateDir, ''locks'']), dk_fault dk OpenLock path]) of
        Some e \<Rightarrow> (Some (Fail e), dk)
      | None \<Rightarrow>
          if path \<in> set (dk_locks dk) then (Some (ActivationInProgress worktreeStateDir host), dk)
          else case dk_fault dk Flock path of
            Some e \<Rightarrow> (Some (Fail (Wrapf ''runtime: acquiring activation lock for %s: %w'' [AStr host] e)), dk)
          | None \<Rightarrow> (None, dk\<lparr>dk_locks := path # dk_locks dk\<rparr>))"

definition activationLock_release :: "string \<Rightarrow> string \<Rightarrow> disk \<Rightarrow> disk" where
  "activationLock_release worktreeStateDir host dk =
     dk\<lparr>dk_locks := removeAll (activationLockPath worktreeStateDir host) (dk_locks dk)\<rparr>"

section \<open>Lemmas\<close>

lemma KnownHost_plain: "ValidateHostID host = None \<Longrightarrow> plain_elems [host]"
  by (auto simp: ValidateHostID_def KnownHostIDs_def require_def split: if_splits)

lemma KnownHost_not_Nil: "ValidateHostID host = None \<Longrightarrow> host \<noteq> []"
  by (drule KnownHost_plain) simp

lemma pointerLinkPath_elems:
  "IsAbs w \<Longrightarrow> plain_elems [n, h] \<Longrightarrow> elems (pointerLinkPath w n h) = elems w @ [n, h]"
  unfolding pointerLinkPath_def by (rule elems_Join_plain)

lemma pointerLinkPath_inj:
  assumes "IsAbs w" "IsAbs w'" "plain_elems [n, h]" "plain_elems [n', h']"
    and "pointerLinkPath w n h = pointerLinkPath w' n' h'"
  shows "Clean w = Clean w' \<and> n = n' \<and> h = h'"
proof -
  have "elems w @ [n, h] = elems w' @ [n', h']"
    using pointerLinkPath_elems [OF assms(1,3)] pointerLinkPath_elems [OF assms(2,4)] assms(5) by simp
  then show ?thesis using elems_inj [OF assms(1,2)] by simp
qed

lemma wrap_err_simps [simp]: "wrap_err f as None = None" "wrap_err f as (Some e) = Some (Wrapf f as e)"
  by (simp_all add: wrap_err_def)

text \<open>What a pointer write does to the disk: nothing, or it replaces the link and perhaps the record.\<close>

lemma setGenerationPointer_cases:
  assumes "setGenerationPointer w name host gdir gen det now dk = (r, dk')"
  obtains (unchanged) e where "r = Some e" "dk' = dk"
  | (link_only) rel e where "Rel (Join [w, name]) gdir = Inr rel" "r = Some e" "ValidateHostID host = None"
      "dk' = dk\<lparr>dk_links := (dk_links dk)(pointerLinkPath w name host \<mapsto> rel)\<rparr>"
  | (both) rel where "Rel (Join [w, name]) gdir = Inr rel" "r = None" "ValidateHostID host = None" "w \<noteq> []"
      "dk' = dk\<lparr>dk_links := (dk_links dk)(pointerLinkPath w name host \<mapsto> rel),
                dk_records := (dk_records dk)(pointerRecordPath w name host \<mapsto>
                  Doc \<lparr>cr_GenerationID = gen_id gen, cr_HostBinaryPath = hd_BinaryPath det,
                       cr_HostVersion = hd_Version det, cr_RecordedAt = RFC3339 now\<rparr>)\<rparr>"
proof -
  let ?wrap = "wrap_err ''runtime: setGenerationPointer(%s): %w'' [AStr name]"
  let ?c1 = "first_err
     [require (w \<noteq> '''') (Errorf ''runtime: setGenerationPointer(%s): worktreeStateDir is required'' [AStr name]),
      ?wrap (ValidateHostID host), ?wrap (dk_fault dk MkdirAll (Join [w, name]))]"
  let ?c2 = "?wrap (first_err [dk_fault dk Symlink (pointerLinkPath w name host), dk_fault dk Rename (pointerLinkPath w name host)])"
  let ?c3 = "?wrap (first_err [dk_fault dk WriteFile (pointerRecordPath w name host), dk_fault dk Rename (pointerRecordPath w name host)])"
  note d = assms [unfolded setGenerationPointer_def Let_def]
  show thesis
  proof (cases ?c1)
    case None
    then have h: "ValidateHostID host = None" "w \<noteq> []"
      by (simp_all add: first_err_checks require_None_iff wrap_err_None_iff)
    show thesis
    proof (cases "Rel (Join [w, name]) gdir")
      case (Inl e)
      then show thesis using d None unchanged by auto
    next
      case (Inr rel)
      show thesis
      proof (cases ?c2)
        case c2: None
        show thesis
        proof (cases ?c3)
          case c3: None
          show thesis by (rule both [OF Inr _ h]) (use d None Inr c2 c3 in simp_all)
        next
          case (Some e)
          show thesis by (rule link_only [OF Inr _ h(1), of e]) (use d None Inr c2 Some in simp_all)
        qed
      next
        case (Some e)
        show thesis by (rule unchanged [of e]) (use d None Inr Some in simp_all)
      qed
    qed
  next
    case (Some e)
    show thesis by (rule unchanged [of e]) (use d Some in simp_all)
  qed
qed

lemma setGenerationPointer_frame:
  assumes "setGenerationPointer w name host gdir gen det now dk = (r, dk')"
  shows "dk_manifests dk' = dk_manifests dk" "dk_files dk' = dk_files dk" "dk_ledgers dk' = dk_ledgers dk" "dk_locks dk' = dk_locks dk"
    "dk_fault dk' = dk_fault dk"
  using assms by (cases rule: setGenerationPointer_cases; simp)+

text \<open>The link that a pointer write leaves leads back to the directory it was given.\<close>

lemma pointer_target:
  assumes w: "IsAbs w" and n: "plain_elems [name]" and h: "ValidateHostID host = None" and g: "IsAbs gdir"
    and rel: "Rel (Join [w, name]) gdir = Inr rel"
  shows "Clean (if \<not> IsAbs rel then Join [Dir (pointerLinkPath w name host), rel] else rel) = Clean gdir"
proof -
  have pl: "plain_elems ([name] @ [host])" using n KnownHost_plain [OF h] by simp
  have d: "Dir (pointerLinkPath w name host) = Join [w, name]"
    unfolding pointerLinkPath_def using Dir_Join [OF w pl] by simp
  have "Join [Join [w, name], rel] = Clean gdir" "\<not> IsAbs rel"
    by (rule Rel_back [OF IsAbs_Join [OF w] g rel])+
  with d g show ?thesis by simp
qed

lemma generationPointerDir_set:
  assumes "IsAbs w" "plain_elems [name]" "ValidateHostID host = None" "IsAbs gdir"
    and "Rel (Join [w, name]) gdir = Inr rel"
    and "dk_links dk (pointerLinkPath w name host) = Some rel"
    and "dk_fault dk Readlink (pointerLinkPath w name host) = None"
  shows "generationPointerDir w name host dk = Inr (Clean gdir)"
  using pointer_target [OF assms(1-5)] assms(6,7) by (simp add: generationPointerDir_def read_file_def Let_def)

lemma generationPointerDir_cong:
  "dk_links dk (pointerLinkPath w name host) = dk_links dk' (pointerLinkPath w name host) \<Longrightarrow> dk_fault dk = dk_fault dk' \<Longrightarrow>
   generationPointerDir w name host dk = generationPointerDir w name host dk'"
  by (cases "dk_fault dk' Readlink (pointerLinkPath w name host)") (simp_all add: generationPointerDir_def read_file_def Let_def)

section \<open>The contract of a pointer store\<close>

text \<open>
  What the operations above promise to the transactions: a successful write is what the next read finds, a
  failed one leaves the old value or the new one, and other pointers are not touched. \<open>ok k s\<close> says that the
  key is well-formed and its pointer readable, \<open>fit v\<close> that the value can be pointed at.
\<close>

locale pointer_store =
  fixes ok :: "'k \<Rightarrow> 's \<Rightarrow> bool"
    and fit :: "'v \<Rightarrow> bool"
    and dir :: "'v \<Rightarrow> 'd"
    and put :: "'k \<Rightarrow> 'v \<Rightarrow> 's \<Rightarrow> err option \<times> 's"
    and look :: "'k \<Rightarrow> 's \<Rightarrow> ioerr + 'd"
  assumes ok_put: "ok k s \<Longrightarrow> ok k (snd (put k' v s))"
    and read_written: "ok k s \<Longrightarrow> fit v \<Longrightarrow> put k v s = (None, s') \<Longrightarrow> look k s' = Inr (dir v)"
    and read_failed: "ok k s \<Longrightarrow> fit v \<Longrightarrow> look k (snd (put k v s)) \<in> {look k s, Inr (dir v)}"
    and read_other: "ok k s \<Longrightarrow> ok k' s \<Longrightarrow> k \<noteq> k' \<Longrightarrow> look k (snd (put k' v s)) = look k s"
begin

definition run :: "('k \<times> 'v) list \<Rightarrow> 's \<Rightarrow> 's" where
  "run ops s = foldl (\<lambda>s (k, v). snd (put k v s)) s ops"

lemma run_simps [simp]: "run [] s = s" "run ((k, v) # ops) s = run ops (snd (put k v s))"
  by (simp_all add: run_def)

lemma ok_run: "ok k s \<Longrightarrow> ok k (run ops s)"
  by (induction ops arbitrary: s) (auto simp: ok_put)

lemma read_run:
  "ok k s \<Longrightarrow> \<forall>(k', v) \<in> set ops. ok k' s \<and> fit v \<Longrightarrow>
   look k (run ops s) \<in> insert (look k s) {Inr (dir v) | v. (k, v) \<in> set ops}"
proof (induction ops arbitrary: s)
  case (Cons op ops)
  obtain k' v where op: "op = (k', v)" by force
  let ?s = "snd (put k' v s)"
  have "look k (run ops ?s) \<in> insert (look k ?s) {Inr (dir v) | v. (k, v) \<in> set ops}"
    by (rule Cons.IH) (use Cons.prems ok_put in auto)
  moreover have "look k ?s = look k s \<or> k = k' \<and> look k ?s = Inr (dir v)"
    using read_other [of k s k' v] read_failed [of k s v] Cons.prems op by fastforce
  ultimately show ?case using op by auto
qed simp

lemma read_run_untouched: "ok k s \<Longrightarrow> \<forall>(k', v) \<in> set ops. ok k' s \<and> k' \<noteq> k \<Longrightarrow> look k (run ops s) = look k s"
proof (induction ops arbitrary: s)
  case (Cons op ops)
  obtain k' v where op: "op = (k', v)" by force
  have "look k (run ops (snd (put k' v s))) = look k (snd (put k' v s))"
    by (rule Cons.IH) (use Cons.prems ok_put in auto)
  then show ?case using read_other [of k s k' v] Cons.prems op by auto
qed simp

lemma read_last:
  assumes "ok k s" "fit v" "\<forall>(k', v') \<in> set after. ok k' s \<and> k' \<noteq> k"
    and "put k v (run before s) = (None, s')"
  shows "look k (run (before @ (k, v) # after) s) = Inr (dir v)"
proof -
  have okr: "ok k'' (run before s)" if "ok k'' s" for k'' using that by (rule ok_run)
  have "run (before @ (k, v) # after) s = run after s'"
    using assms(4) by (simp add: run_def)
  moreover have "look k (run after s') = look k s'"
  proof (rule read_run_untouched)
    show "ok k s'" using ok_put [OF okr [OF assms(1)], of k v] assms(4) by simp
    show "\<forall>(k', v') \<in> set after. ok k' s' \<and> k' \<noteq> k"
      using ok_put [OF okr, of _ k v] assms(3,4) by auto
  qed
  moreover have "look k s' = Inr (dir v)" by (rule read_written [OF okr [OF assms(1)] assms(2,4)])
  ultimately show ?thesis by simp
qed

end

text \<open>The model's store: a key is a state directory, a pointer name and a host; a value is what is recorded.\<close>

type_synonym pointer = "string \<times> string \<times> string"
type_synonym pointee = "string \<times> Generation \<times> HostDetection \<times> gotime"

fun pointer_ok :: "pointer \<Rightarrow> disk \<Rightarrow> bool" where
  "pointer_ok (w, name, host) dk \<longleftrightarrow>
     IsAbs w \<and> Clean w = w \<and> plain_elems [name] \<and> ValidateHostID host = None \<and>
     dk_fault dk Readlink (pointerLinkPath w name host) = None"

fun write_pointer :: "pointer \<Rightarrow> pointee \<Rightarrow> disk \<Rightarrow> err option \<times> disk" where
  "write_pointer (w, name, host) (gdir, gen, det, now) dk = setGenerationPointer w name host gdir gen det now dk"

fun read_pointer :: "pointer \<Rightarrow> disk \<Rightarrow> ioerr + string" where
  "read_pointer (w, name, host) dk = generationPointerDir w name host dk"

interpretation store: pointer_store pointer_ok "\<lambda>v. IsAbs (fst v)" "\<lambda>v. Clean (fst v)" write_pointer read_pointer
proof
  fix k k' :: pointer and v :: pointee and dk dk' :: disk
  obtain w name host where k: "k = (w, name, host)" by (cases k)
  obtain w' name' host' where k': "k' = (w', name', host')" by (cases k')
  obtain gdir gen det now where v: "v = (gdir, gen, det, now)" by (cases v)
  show "pointer_ok k dk \<Longrightarrow> pointer_ok k (snd (write_pointer k' v dk))"
    using setGenerationPointer_frame(5) [of w' name' host' gdir gen det now dk]
    by (cases "setGenerationPointer w' name' host' gdir gen det now dk") (simp add: k k' v)
  show "read_pointer k dk' = Inr (Clean (fst v))"
    if "pointer_ok k dk" "IsAbs (fst v)" "write_pointer k v dk = (None, dk')"
  proof -
    from that(3) have "setGenerationPointer w name host gdir gen det now dk = (None, dk')" by (simp add: k v)
    then show ?thesis
      by (cases rule: setGenerationPointer_cases)
        (use that generationPointerDir_set [of w name host gdir] in \<open>auto simp: k v\<close>)
  qed
  show "read_pointer k (snd (write_pointer k v dk)) \<in> {read_pointer k dk, Inr (Clean (fst v))}"
    if "pointer_ok k dk" "IsAbs (fst v)"
  proof -
    obtain r dk' where s: "setGenerationPointer w name host gdir gen det now dk = (r, dk')" by force
    then show ?thesis
      by (cases rule: setGenerationPointer_cases)
        (use that generationPointerDir_set [of w name host gdir] in \<open>auto simp: k v s\<close>)
  qed
  show "read_pointer k (snd (write_pointer k' v dk)) = read_pointer k dk"
    if "pointer_ok k dk" "pointer_ok k' dk" "k \<noteq> k'"
  proof -
    obtain r dk' where s: "setGenerationPointer w' name' host' gdir gen det now dk = (r, dk')" by force
    have ne: "pointerLinkPath w name host \<noteq> pointerLinkPath w' name' host'"
      using pointerLinkPath_inj [of w w' name host name' host'] that KnownHost_plain [of host] KnownHost_plain [of host']
      by (auto simp: k k')
    have "dk_links dk' (pointerLinkPath w name host) = dk_links dk (pointerLinkPath w name host)" "dk_fault dk' = dk_fault dk"
      using s by (cases rule: setGenerationPointer_cases; use ne in simp)+
    then show ?thesis using s by (auto simp: k k' v intro: generationPointerDir_cong)
  qed
qed

end
