(* ===== verification/Runtime_Request.thy ===== *)
theory Runtime_Request
  imports Worktree_Store Resolve
begin

text \<open>
  The inputs of the runtime compiler and what identifies a generation (\<^verbatim>\<open>internal/runtime\<close>: \<^verbatim>\<open>request.go\<close>,
  \<^verbatim>\<open>policy.go\<close>, \<^verbatim>\<open>generationid.go\<close>, and the request, digest and identity part of \<^verbatim>\<open>compile_full.go\<close>). Digested
  documents are written out as the JSON objects that \<^verbatim>\<open>encoding/json\<close> makes of the Go structs: the tag names,
  and members marked \<^verbatim>\<open>omitempty\<close> left out when empty.
\<close>

section \<open>Requests\<close>

record BootstrapRequest =
  bq_Detection :: HostDetection
  bq_Worktree :: Worktree
  bq_Observations :: "Observation list"
  bq_Now :: gotime
  bq_Parent :: "string option"
  bq_OMCABinaryPath :: string

record HostCompileInput =
  hc_Detection :: HostDetection
  hc_Observations :: "Observation list"
  hc_OMCABinaryPath :: string

record CompileRequest =
  cq_Worktree :: Worktree
  cq_Hosts :: "HostCompileInput list"
  cq_Profiles :: "Profile list"
  cq_Activation :: Activation
  cq_Exceptions :: "Exception list"
  cq_KnowledgePacks :: "KnowledgePackRef list"
  cq_Now :: gotime
  cq_Parent :: "string option"
  cq_Invocation :: string

definition NativeHomeDirName :: "string \<Rightarrow> err + string" where
  "NativeHomeDirName host =
     (if host = ''codex'' then Inr ''codex-home''
      else if host = ''claude-code'' then Inr ''claude-config''
      else Inl (Errorf ''runtime: NativeHomeDirName: unsupported host %q (only codex, claude-code)'' [AStr host]))"

definition err_of :: "err + 'a \<Rightarrow> err option" where
  "err_of r = (case r of Inl e \<Rightarrow> Some e | Inr _ \<Rightarrow> None)"

definition defaultSurface :: string where
  "defaultSurface = ''cli''"

definition surfaceOf :: "HostDetection \<Rightarrow> string" where
  "surfaceOf det = (if hd_Surface det \<noteq> '''' then hd_Surface det else defaultSurface)"

fun validateObservationsBelongToHost_loop :: "nat \<Rightarrow> Observation list \<Rightarrow> string \<Rightarrow> string \<Rightarrow> string \<Rightarrow> err option" where
  "validateObservationsBelongToHost_loop i [] host version surface = None"
| "validateObservationsBelongToHost_loop i (ob # obs) host version surface =
     (case first_err
        [require (oh_ID (ob_Host ob) = host)
           (Errorf ''Observations[%d] is for host %q, want %q (every observation must belong to the host this generation is being compiled for)''
              [AInt (int i), AStr (oh_ID (ob_Host ob)), AStr host]),
         require (oh_Version (ob_Host ob) = version)
           (Errorf ''Observations[%d] was gathered under host version %q, want %q (every observation must match the version this generation is being compiled for)''
              [AInt (int i), AStr (oh_Version (ob_Host ob)), AStr version]),
         require (ob_Surface ob = surface)
           (Errorf ''Observations[%d] is for surface %q, want %q (every observation must match the surface this generation is being compiled for)''
              [AInt (int i), AStr (ob_Surface ob), AStr surface])] of
        Some e \<Rightarrow> Some e
      | None \<Rightarrow> validateObservationsBelongToHost_loop (Suc i) obs host version surface)"

definition validateObservationsBelongToHost :: "Observation list \<Rightarrow> string \<Rightarrow> string \<Rightarrow> string \<Rightarrow> err option" where
  "validateObservationsBelongToHost obs = validateObservationsBelongToHost_loop 0 obs"

definition BootstrapRequest_validate :: "BootstrapRequest \<Rightarrow> err option" where
  "BootstrapRequest_validate req =
     (let det = bq_Detection req; wrap = wrap_err ''runtime: BootstrapRequest: %w'' [] in first_err
       [wrap (ValidateHostID (hd_Host det)),
        wrap (err_of (NativeHomeDirName (hd_Host det))),
        require (wt_ID (bq_Worktree req) \<noteq> '''') (Errorf ''runtime: BootstrapRequest: Worktree.ID is required'' []),
        require (wt_Root (bq_Worktree req) \<noteq> '''') (Errorf ''runtime: BootstrapRequest: Worktree.Root is required'' []),
        require (bq_Now req \<noteq> 0)
          (Errorf ''runtime: BootstrapRequest: Now is required (this package never reads the clock implicitly)'' []),
        require (\<not> (bq_OMCABinaryPath req \<noteq> '''' \<and> \<not> IsAbs (bq_OMCABinaryPath req)))
          (Errorf ''runtime: BootstrapRequest: OMCABinaryPath %q is not absolute'' [AStr (bq_OMCABinaryPath req)]),
        wrap (validateObservationsBelongToHost (bq_Observations req) (hd_Host det) (hd_Version det) (surfaceOf det))])"

fun CompileRequest_validate_hosts :: "nat \<Rightarrow> string list \<Rightarrow> HostCompileInput list \<Rightarrow> err option" where
  "CompileRequest_validate_hosts i seen [] = None"
| "CompileRequest_validate_hosts i seen (h # hs) =
     (let det = hc_Detection h; wrap = wrap_err ''runtime: CompileRequest: Hosts[%d]: %w'' [AInt (int i)]
      in case first_err
        [wrap (ValidateHostID (hd_Host det)),
         require (hd_Host det \<notin> set seen)
           (Errorf ''runtime: CompileRequest: Hosts[%d]: duplicate host %q'' [AInt (int i), AStr (hd_Host det)]),
         wrap (err_of (NativeHomeDirName (hd_Host det))),
         require (\<not> (hc_OMCABinaryPath h \<noteq> '''' \<and> \<not> IsAbs (hc_OMCABinaryPath h)))
           (Errorf ''runtime: CompileRequest: Hosts[%d]: OMCABinaryPath %q is not absolute'' [AInt (int i), AStr (hc_OMCABinaryPath h)]),
         wrap (validateObservationsBelongToHost (hc_Observations h) (hd_Host det) (hd_Version det) (surfaceOf det))] of
        Some e \<Rightarrow> Some e
      | None \<Rightarrow> CompileRequest_validate_hosts (Suc i) (hd_Host det # seen) hs)"

definition CompileRequest_validate :: "CompileRequest \<Rightarrow> err option" where
  "CompileRequest_validate req = first_err
     [require (cq_Hosts req \<noteq> []) (Errorf ''runtime: CompileRequest: Hosts is required (at least one host)'' []),
      require (wt_ID (cq_Worktree req) \<noteq> '''') (Errorf ''runtime: CompileRequest: Worktree.ID is required'' []),
      require (wt_Root (cq_Worktree req) \<noteq> '''') (Errorf ''runtime: CompileRequest: Worktree.Root is required'' []),
      require (cq_Now req \<noteq> 0)
        (Errorf ''runtime: CompileRequest: Now is required (this package never reads the clock implicitly)'' []),
      CompileRequest_validate_hosts 0 [] (cq_Hosts req)]"

section \<open>Permissions\<close>

text \<open>One step of the loop over a profile's permissions: a denial stays, and only a denial replaces a requirement.\<close>

definition mergePermissions_step :: "PermissionRef gomap \<Rightarrow> string \<times> PermissionRef \<Rightarrow> PermissionRef gomap" where
  "mergePermissions_step merged kr =
     (case map_of merged (fst kr) of
        Some existing \<Rightarrow>
          if pm_Intent existing = IntentDenied then merged
          else if pm_Intent existing = IntentRequired \<and> pm_Intent (snd kr) \<noteq> IntentDenied then merged
          else map_put (fst kr) (snd kr) merged
      | None \<Rightarrow> map_put (fst kr) (snd kr) merged)"

definition mergePermissions :: "Profile list \<Rightarrow> PermissionRef gomap" where
  "mergePermissions profiles = foldl (\<lambda>m p. foldl mergePermissions_step m (pf_Permissions p)) [] profiles"

section \<open>The JSON of what is digested\<close>

definition opt_str :: "string \<Rightarrow> string \<Rightarrow> (string \<times> json) list" where
  "opt_str k v = (if v = '''' then [] else [(k, JStr v)])"

definition opt_arr :: "string \<Rightarrow> json list \<Rightarrow> (string \<times> json) list" where
  "opt_arr k vs = (if vs = [] then [] else [(k, JArr vs)])"

definition opt_bool :: "string \<Rightarrow> bool \<Rightarrow> (string \<times> json) list" where
  "opt_bool k b = (if b then [(k, JBool True)] else [])"

definition opt_obj :: "string \<Rightarrow> json gomap \<Rightarrow> (string \<times> json) list" where
  "opt_obj k m = (if m = [] then [] else [(k, JObj m)])"

definition AssetRef_json :: "AssetRef \<Rightarrow> json" where
  "AssetRef_json r = JObj ([(''id'', JStr (ar_ID r)), (''intent'', JStr (Intent_code (ar_Intent r)))]
     @ opt_arr ''hosts'' (map JStr (ar_Hosts r)))"

definition PermissionRef_json :: "PermissionRef \<Rightarrow> json" where
  "PermissionRef_json p = JObj ((''intent'', JStr (Intent_code (pm_Intent p))) # opt_str ''value'' (pm_Value p))"

definition Profile_json :: "Profile \<Rightarrow> json" where
  "Profile_json p = JObj
     [(''apiVersion'', JStr (pf_APIVersion p)), (''kind'', JStr (pf_Kind p)),
      (''metadata'', JObj [(''id'', JStr (pf_ID p))]),
      (''spec'', JObj
        [(''assets'', JObj (opt_arr ''skills'' (map AssetRef_json (pf_Skills p))
            @ opt_arr ''mcpServers'' (map AssetRef_json (pf_MCPServers p))
            @ opt_arr ''instructions'' (map AssetRef_json (pf_Instructions p)))),
         (''policy'', JObj (opt_obj ''permissions'' (map (\<lambda>(k, r). (k, PermissionRef_json r)) (pf_Permissions p))))])]"

definition ActivationSelection_json :: "ActivationSelection \<Rightarrow> json" where
  "ActivationSelection_json a = JObj (opt_arr ''skills'' (map JStr (as_Skills a)) @ opt_arr ''mcpServers'' (map JStr (as_MCPServers a)))"

definition Activation_json :: "Activation \<Rightarrow> json" where
  "Activation_json a = JObj
     [(''apiVersion'', JStr (ac_APIVersion a)), (''kind'', JStr (ac_Kind a)),
      (''metadata'', JObj [(''worktree'', JStr (ac_Worktree a))]),
      (''spec'', JObj ([(''enable'', ActivationSelection_json (ac_Enable a)),
                       (''disable'', ActivationSelection_json (ac_Disable a))]
        @ opt_obj ''hosts'' (map (\<lambda>(k, h). (k, JObj [(''enable'', ActivationSelection_json (ha_Enable h)),
              (''disable'', ActivationSelection_json (ha_Disable h))])) (ac_Hosts a))))]"

text \<open>\<^verbatim>\<open>time.Time\<close> in UTC as \<^verbatim>\<open>RFC3339Nano\<close>: the fraction without its trailing zeros.\<close>

definition RFC3339Nano :: "gotime \<Rightarrow> string" where
  "RFC3339Nano t =
     (let base = butlast (RFC3339 t);
          fraction = rev (dropWhile (\<lambda>c. c = CHR ''0'') (rev (digits 9 (t mod 1000000000))))
      in base @ (if fraction = [] then [] else CHR ''.'' # fraction) @ ''Z'')"

definition Exception_json :: "Exception \<Rightarrow> json" where
  "Exception_json e = JObj
     [(''apiVersion'', JStr (ex_APIVersion e)), (''kind'', JStr (ex_Kind e)),
      (''metadata'', JObj [(''id'', JStr (ex_ID e))]), (''assetId'', JStr (ex_AssetID e)), (''scope'', JStr (ex_Scope e)),
      (''justification'', JStr (ex_Justification e)), (''expiresAt'', JStr (RFC3339Nano (ex_ExpiresAt e)))]"

definition GenerationSourceEntry_json :: "GenerationSourceEntry \<Rightarrow> json" where
  "GenerationSourceEntry_json s = JObj
     ([(''concept'', JStr (gs_Concept s))] @ opt_str ''source'' (gs_Source s) @ opt_str ''scope'' (gs_Scope s)
      @ opt_str ''host'' (gs_Host s)
      @ [(''included'', JBool (gs_Included s)), (''reason'', JStr (gs_Reason s))]
      @ opt_bool ''capabilityGap'' (gs_CapabilityGap s) @ opt_str ''trackingIssue'' (gs_TrackingIssue s))"

section \<open>Digests and identities\<close>

definition BootstrapPolicyVersion :: string where
  "BootstrapPolicyVersion = ''bootstrap-policy/v1''"

definition HostCompilerVersion :: string where
  "HostCompilerVersion = ''host-compiler/v3''"

definition AdapterID :: string where
  "AdapterID = ''runtime.bootstrap-compiler''"

definition bootstrapPolicyValue :: json where
  "bootstrapPolicyValue = JObj
     [(''version'', JStr BootstrapPolicyVersion),
      (''rules'', JArr
        [JStr ''exclude every native user-global Instructions, Skill, MCP server, Hook, and Plugin source'',
         JStr ''include the repository-scope Instructions chain'',
         JStr ''exclude repository-scope Skill and MCP sources: not yet activated by any desired state'',
         JStr ''apply conservative default permissions'',
         JStr ''activate no MCP servers: no real Desired Graph exists before PR-12''])]"

definition BootstrapPolicyDigest :: "(json \<Rightarrow> string) \<Rightarrow> string" where
  "BootstrapPolicyDigest dg = CanonicalDigest dg bootstrapPolicyValue"

definition observationFingerprint :: "Observation \<Rightarrow> string" where
  "observationFingerprint ob = ob_ID ob @ ''|'' @ ob_RawDigest ob @ ''|'' @ ob_ParsedDigest ob"

definition GenerationID :: "(json \<Rightarrow> string) \<Rightarrow> BootstrapRequest \<Rightarrow> err + string" where
  "GenerationID dg req =
     (case BootstrapRequest_validate req of
        Some e \<Rightarrow> Inl e
      | None \<Rightarrow> Inr (''generation:'' @ CanonicalDigest dg (JObj
          [(''hostCompiler'', JStr HostCompilerVersion), (''host'', JStr (hd_Host (bq_Detection req))),
           (''hostVersion'', JStr (hd_Version (bq_Detection req))), (''worktree'', JStr (wt_ID (bq_Worktree req))),
           (''bootstrapPolicy'', JStr (BootstrapPolicyDigest dg)),
           (''observations'', JArr (map JStr (sort (map observationFingerprint (bq_Observations req)))))])))"

text \<open>An empty slice is a nil one, which is encoded as \<^verbatim>\<open>null\<close>.\<close>

definition slice_json :: "json list \<Rightarrow> json" where
  "slice_json xs = (if xs = [] then JNull else JArr xs)"

definition desiredGraphDigestFor :: "(json \<Rightarrow> string) \<Rightarrow> Profile list \<Rightarrow> Activation \<Rightarrow> Exception list \<Rightarrow> string" where
  "desiredGraphDigestFor dg profiles activation exceptions = CanonicalDigest dg (JObj
     [(''profiles'', slice_json (map Profile_json profiles)), (''activation'', Activation_json activation),
      (''exceptions'', slice_json (map Exception_json exceptions))])"

definition desiredStateRef :: "(json \<Rightarrow> string) \<Rightarrow> Profile list \<Rightarrow> Activation \<Rightarrow> Exception list \<Rightarrow> DesiredStateRef" where
  "desiredStateRef dg profiles activation exceptions =
     \<lparr>dr_Profiles = map (\<lambda>p. \<lparr>pr_ID = pf_ID p, pr_Digest = CanonicalDigest dg (Profile_json p)\<rparr>) profiles,
      dr_Activation = CanonicalDigest dg (Activation_json activation),
      dr_Exceptions = sort (map (\<lambda>e. CanonicalDigest dg (Exception_json e)) exceptions)\<rparr>"

definition exceptionLivenessFingerprints :: "Exception list \<Rightarrow> gotime \<Rightarrow> string list" where
  "exceptionLivenessFingerprints exceptions now =
     sort (map (\<lambda>e. Sprintf ''%s|%s|%v'' [AStr (ex_AssetID e), AStr (ex_Scope e), ABool (now < ex_ExpiresAt e)]) exceptions)"

definition compileHostIDInputs_of :: "HostCompileInput \<Rightarrow> string \<times> string \<times> string list" where
  "compileHostIDInputs_of h =
     (hd_Host (hc_Detection h), hd_Version (hc_Detection h), sort (map observationFingerprint (hc_Observations h)))"

definition compileGenerationIDInputs_json :: "(json \<Rightarrow> string) \<Rightarrow> CompileRequest \<Rightarrow> json" where
  "compileGenerationIDInputs_json dg req = JObj
     [(''hostCompiler'', JStr HostCompilerVersion), (''worktree'', JStr (wt_ID (cq_Worktree req))),
      (''desiredGraphDigest'', JStr (desiredGraphDigestFor dg (cq_Profiles req) (cq_Activation req) (cq_Exceptions req))),
      (''exceptionLiveness'', JArr (map JStr (exceptionLivenessFingerprints (cq_Exceptions req) (cq_Now req)))),
      (''permissionsDigest'', JStr (CanonicalDigest dg
         (JObj (map (\<lambda>(k, r). (k, PermissionRef_json r)) (mergePermissions (cq_Profiles req)))))),
      (''knowledgePacks'', JArr (map JStr (sort (map (\<lambda>k. kp_ID k @ ''@'' @ kp_Digest k) (cq_KnowledgePacks req))))),
      (''hosts'', JArr (map (\<lambda>(h, v, obs). JObj [(''host'', JStr h), (''hostVersion'', JStr v), (''observations'', JArr (map JStr obs))])
         (sort_key fst (map compileHostIDInputs_of (cq_Hosts req)))))]"

definition CompileGenerationID :: "(json \<Rightarrow> string) \<Rightarrow> CompileRequest \<Rightarrow> err + string" where
  "CompileGenerationID dg req =
     (case CompileRequest_validate req of
        Some e \<Rightarrow> Inl e
      | None \<Rightarrow> Inr (''generation:'' @ CanonicalDigest dg (compileGenerationIDInputs_json dg req)))"

section \<open>Lemmas on permissions\<close>

text \<open>The references to one permission key, in the order of the profiles.\<close>

definition permission_refs :: "string \<Rightarrow> Profile list \<Rightarrow> PermissionRef list" where
  "permission_refs k ps = map snd (filter (\<lambda>e. fst e = k) (concat (map pf_Permissions ps)))"

text \<open>What the merge promises: the first denial, else the first requirement, else the last reference.\<close>

definition strongest_ref :: "PermissionRef list \<Rightarrow> PermissionRef option" where
  "strongest_ref refs =
     (case find (\<lambda>r. pm_Intent r = IntentDenied) refs of
        Some r \<Rightarrow> Some r
      | None \<Rightarrow> (case find (\<lambda>r. pm_Intent r = IntentRequired) refs of
                   Some r \<Rightarrow> Some r
                 | None \<Rightarrow> if refs = [] then None else Some (last refs)))"

lemma mergePermissions_flat: "mergePermissions ps = foldl mergePermissions_step [] (concat (map pf_Permissions ps))"
proof -
  have "foldl (\<lambda>m p. foldl mergePermissions_step m (pf_Permissions p)) m ps = foldl mergePermissions_step m (concat (map pf_Permissions ps))" for m
    by (induction ps arbitrary: m) simp_all
  then show ?thesis by (simp add: mergePermissions_def)
qed

lemma mergePermissions_step_other: "k \<noteq> fst e \<Longrightarrow> map_of (mergePermissions_step m e) k = map_of m k"
  by (auto simp: mergePermissions_step_def split: option.splits)

lemma find_append: "find P (xs @ ys) = (case find P xs of Some x \<Rightarrow> Some x | None \<Rightarrow> find P ys)"
  by (induction xs) auto

lemma find_SomeD: "find P xs = Some x \<Longrightarrow> P x"
  by (induction xs) (auto split: if_splits)

lemma strongest_ref_snoc:
  "strongest_ref (refs @ [r]) =
     (case strongest_ref refs of
        None \<Rightarrow> Some r
      | Some x \<Rightarrow> Some (if pm_Intent x = IntentDenied then x
                        else if pm_Intent x = IntentRequired \<and> pm_Intent r \<noteq> IntentDenied then x else r))"
proof (cases "find (\<lambda>r. pm_Intent r = IntentDenied) refs")
  case (Some x)
  then have "pm_Intent x = IntentDenied" by (rule find_SomeD)
  with Some show ?thesis by (simp add: strongest_ref_def find_append)
next
  case d: None
  show ?thesis
  proof (cases "find (\<lambda>r. pm_Intent r = IntentRequired) refs")
    case (Some x)
    then have "pm_Intent x = IntentRequired" by (rule find_SomeD)
    with d Some show ?thesis by (simp add: strongest_ref_def find_append)
  next
    case None
    have "refs \<noteq> [] \<Longrightarrow> pm_Intent (last refs) \<noteq> IntentDenied \<and> pm_Intent (last refs) \<noteq> IntentRequired"
      using d None by (simp add: find_None_iff)
    with d None show ?thesis by (simp add: strongest_ref_def find_append)
  qed
qed

lemma map_of_mergePermissions: "map_of (mergePermissions ps) k = strongest_ref (permission_refs k ps)"
proof -
  have "map_of (foldl mergePermissions_step [] es) k = strongest_ref (map snd (filter (\<lambda>e. fst e = k) es))" for es
  proof (induction es rule: rev_induct)
    case Nil
    then show ?case by (simp add: strongest_ref_def)
  next
    case (snoc e es)
    show ?case
    proof (cases "fst e = k")
      case True
      then show ?thesis using snoc by (auto simp: strongest_ref_snoc mergePermissions_step_def split: option.splits)
    next
      case False
      then show ?thesis using snoc by (simp add: mergePermissions_step_other)
    qed
  qed
  then show ?thesis by (simp add: mergePermissions_flat permission_refs_def)
qed

lemma strongest_ref_mem: "strongest_ref refs = Some r \<Longrightarrow> r \<in> set refs"
  by (auto simp: strongest_ref_def find_Some_iff split: option.splits if_splits)

lemma strongest_ref_denied:
  "strongest_ref refs = Some r \<Longrightarrow> \<exists>x \<in> set refs. pm_Intent x = IntentDenied \<Longrightarrow> pm_Intent r = IntentDenied"
  by (auto simp: strongest_ref_def find_None_iff dest: find_SomeD split: option.splits)

end
