(* ===== verification/Runtime_Compile.thy ===== *)
theory Runtime_Compile
  imports Runtime_Request
begin

text \<open>
  The host compiler of \<^verbatim>\<open>internal/runtime\<close> (\<^verbatim>\<open>compile.go\<close>, \<^verbatim>\<open>bootstrap.go\<close>, the rest of \<^verbatim>\<open>compile_full.go\<close>,
  \<^verbatim>\<open>bisect.go\<close> and \<^verbatim>\<open>EnsureGeneration\<close> of \<^verbatim>\<open>current.go\<close>): which sources a generation includes and why, the
  files it consists of, and the writes that put it on disk, the manifest last.
\<close>

section \<open>The artifact tree of one host\<close>

record generatedFile =
  gf_RelPath :: string
  gf_Content :: string

definition VirtualHomeDirName :: string where
  "VirtualHomeDirName = ''virtual-home''"

definition NativeHomeEnvVar :: "string \<Rightarrow> err + string" where
  "NativeHomeEnvVar host =
     (if host = ''codex'' then Inr ''CODEX_HOME''
      else if host = ''claude-code'' then Inr ''CLAUDE_CONFIG_DIR''
      else Inl (Errorf ''runtime: NativeHomeEnvVar: unsupported host %q (only codex, claude-code)'' [AStr host]))"

definition classify :: "Observation \<Rightarrow> bool \<times> string" where
  "classify ob =
     (let kind = osc_Kind (ob_Scope ob) in
      if kind = ''user'' then
        (False, ''excluded: native user-global source; the M1 bootstrap policy never inherits user-global config (docs/architecture/runtime.md '' @ section_sign @ ''3, docs/project/roadmap.md M1)'')
      else if kind = ''workspace'' then
        (if ob_Concept ob = ''instruction''
         then (True, ''included: repository-scope Instructions chain, project-loadable per the M1 bootstrap policy (docs/project/roadmap.md M1)'')
         else (False, ''excluded: repository-scope Skill/MCP source, not yet activated by any desired state (no Profile exists before PR-12)''))
      else (False, Sprintf ''excluded: scope %q is outside the M1 bootstrap policy's understood user/workspace scopes'' [AStr kind]))"

definition instructionContent :: "Observation \<Rightarrow> string option" where
  "instructionContent ob =
     (case map_of (ob_OpaqueVendorFields ob) ''content'' of Some (JStr s) \<Rightarrow> Some s | _ \<Rightarrow> None)"

definition mcpServerID :: string where
  "mcpServerID = ''omca''"

definition newline :: string where
  "newline = [CHR 0x0A]"

definition tomlString :: "string \<Rightarrow> string" where
  "tomlString s = CHR 0x22 # replace_bytes [(CHR 0x5C, [CHR 0x5C, CHR 0x5C]), (CHR 0x22, [CHR 0x5C, CHR 0x22])] s @ [CHR 0x22]"

definition codexMCPRegistrationTOML :: "string \<Rightarrow> string" where
  "codexMCPRegistrationTOML omcaBinaryPath =
     newline @ ''[mcp_servers.'' @ mcpServerID @ '']'' @ newline @ ''command = '' @ tomlString omcaBinaryPath @ newline
     @ ''args = [\"mcp\", \"serve\"]'' @ newline"

definition claudeMCPRegistrationJSON :: "string \<Rightarrow> string" where
  "claudeMCPRegistrationJSON omcaBinaryPath =
     ''{'' @ newline @ ''  \"mcpServers\": {'' @ newline @ ''    '' @ json_string mcpServerID @ '': {'' @ newline
     @ ''      \"command\": '' @ json_string omcaBinaryPath @ '','' @ newline
     @ ''      \"args\": ['' @ newline @ ''        \"mcp\",'' @ newline @ ''        \"serve\"'' @ newline @ ''      ]'' @ newline
     @ ''    }'' @ newline @ ''  }'' @ newline @ ''}'' @ newline"

definition sandboxPermissionValues :: "string list gomap" where
  "sandboxPermissionValues =
     [(''codex'', [''read-only'', ''workspace-write'', ''danger-full-access'']),
      (''claude-code'', [''plan'', ''default'', ''acceptEdits'', ''bypassPermissions''])]"

definition knownSandboxValue :: "string \<Rightarrow> string \<Rightarrow> bool" where
  "knownSandboxValue host v \<longleftrightarrow> v \<in> set (map_get [] sandboxPermissionValues host)"

definition conservativeSandbox :: "string \<Rightarrow> string" where
  "conservativeSandbox host = (case map_get [] sandboxPermissionValues host of [] \<Rightarrow> '''' | v # _ \<Rightarrow> v)"

definition sandbox_entry :: "bool \<Rightarrow> string \<Rightarrow> GenerationSourceEntry" where
  "sandbox_entry included reason =
     \<lparr>gs_Concept = ''permission'', gs_Source = ''sandbox'', gs_Scope = '''', gs_Host = '''', gs_Included = included,
      gs_Reason = reason, gs_CapabilityGap = False, gs_TrackingIssue = ''''\<rparr>"

definition resolveSandboxPermission :: "string \<Rightarrow> PermissionRef gomap \<Rightarrow> string \<times> GenerationSourceEntry option" where
  "resolveSandboxPermission host permissions =
     (let conservative = conservativeSandbox host in
      case map_of permissions ''sandbox'' of
        None \<Rightarrow> (conservative, None)
      | Some ref \<Rightarrow>
          (let known = knownSandboxValue host (pm_Value ref) in
           case pm_Intent ref of
             IntentDenied \<Rightarrow> (conservative, Some (sandbox_entry False
               (Sprintf ''excluded: DENIED by profile policy -- value %q is denied; compiled artifact keeps the conservative default %q rather than weakening the deny (issue #18 round-2 AC)''
                  [AStr (pm_Value ref), AStr conservative])))
           | IntentRequired \<Rightarrow>
               if \<not> known then (conservative, Some (sandbox_entry False
                 (Sprintf ''excluded: REQUIRED permission value %q is not a value this compiler recognizes for %s's sandbox permission; compiled artifact keeps the conservative default %q rather than guessing at an unverified native value''
                    [AStr (pm_Value ref), AStr host, AStr conservative])))
               else (pm_Value ref, Some (sandbox_entry True
                 (Sprintf ''included: REQUIRED by profile policy, compiled value %q'' [AStr (pm_Value ref)])))
           | IntentOther s \<Rightarrow> (conservative, Some (sandbox_entry False
               (Sprintf ''excluded: unrecognized intent %q for permission \"sandbox\"; compiled artifact keeps the conservative default %q''
                  [AStr s, AStr conservative])))
           | intent \<Rightarrow>
               if \<not> known then (conservative, Some (sandbox_entry False
                 (Sprintf ''excluded: %s permission value %q is not a value this compiler recognizes for %s's sandbox permission; compiled artifact keeps the conservative default %q''
                    [AStr (Intent_code intent), AStr (pm_Value ref), AStr host, AStr conservative])))
               else (pm_Value ref, Some (sandbox_entry True
                 (Sprintf ''included: %s by profile policy, compiled value %q'' [AStr (Intent_code intent), AStr (pm_Value ref)])))))"

definition hostConfigFiles ::
  "string \<Rightarrow> string \<Rightarrow> string \<Rightarrow> string \<Rightarrow> PermissionRef gomap \<Rightarrow> err + generatedFile list \<times> GenerationSourceEntry list" where
  "hostConfigFiles host nativeHomeDir omcaBinaryPath worktreeRoot permissions =
     (let (sandboxValue, permEntry) = resolveSandboxPermission host permissions;
          permSources = (case permEntry of None \<Rightarrow> [] | Some e \<Rightarrow> [e])
      in if host = ''codex'' then
           Inr ([\<lparr>gf_RelPath = Join [nativeHomeDir, ''config.toml''],
                  gf_Content =
                    ''# OMCA generation: permission defaults (docs/project/roadmap.md M1 conservative'' @ newline
                    @ ''# baseline, or a resolved policy.permissions value where recognized -- issue #18).'' @ newline
                    @ ''sandbox_mode = '' @ tomlString sandboxValue @ newline
                    @ (if omcaBinaryPath \<noteq> '''' then codexMCPRegistrationTOML omcaBinaryPath else '''')
                    @ newline @ ''[projects.'' @ tomlString worktreeRoot @ '']'' @ newline
                    @ ''trust_level = \"untrusted\"'' @ newline\<rparr>], permSources)
         else if host = ''claude-code'' then
           Inr (\<lparr>gf_RelPath = Join [nativeHomeDir, ''settings.json''],
                 gf_Content = ''{\"permissions\":{\"defaultMode\":'' @ json_string sandboxValue @ ''}}'' @ newline\<rparr>
                # (if omcaBinaryPath \<noteq> ''''
                   then [\<lparr>gf_RelPath = Join [nativeHomeDir, ''.claude.json''], gf_Content = claudeMCPRegistrationJSON omcaBinaryPath\<rparr>]
                   else []), permSources)
         else Inl (Errorf ''runtime: hostConfigFiles: unsupported host %q'' [AStr host]))"

definition ClaudeConfigDirExclusionGapIssueURL :: string where
  "ClaudeConfigDirExclusionGapIssueURL = ''https://github.com/wangzitian0/oh-my-code-agent/issues/47''"

definition claudeConfigDirExclusionGapSources :: "GenerationSourceEntry list" where
  "claudeConfigDirExclusionGapSources =
     (let reason = (\<lambda>what. Sprintf
            ''capability gap: whether CLAUDE_CONFIG_DIR relocation completely excludes every native user-global %s was only established by static, read-only binary inspection (E1 evidence), never behaviorally confirmed by an actual launch (see knowledge/hosts/claude-code/cli/2.1/manifest.json's knownUnknowns and fixtures/README.md); reported explicitly rather than silently assumed clean, per issue #13's policy: capability-gap shipping is allowed, hiding is not''
            [AStr what]);
          entry = (\<lambda>concept what. \<lparr>gs_Concept = concept, gs_Source = '''', gs_Scope = ''user'', gs_Host = '''',
            gs_Included = False, gs_Reason = reason what, gs_CapabilityGap = True,
            gs_TrackingIssue = ClaudeConfigDirExclusionGapIssueURL\<rparr>)
      in [entry ''mcp_server'' ''MCP server registration'', entry ''skill'' ''Skill''])"

record hostTreeInput =
  ht_Host :: string
  ht_Surface :: string
  ht_WorktreeRoot :: string
  ht_Observations :: "Observation list"
  ht_OMCABinaryPath :: string
  ht_Permissions :: "PermissionRef gomap"
  ht_Classify :: "Observation \<Rightarrow> bool \<times> string"

definition observation_entry :: "Observation \<Rightarrow> bool \<Rightarrow> string \<Rightarrow> GenerationSourceEntry" where
  "observation_entry ob included reason =
     \<lparr>gs_Concept = ob_Concept ob, gs_Source = os_Path (ob_Source ob), gs_Scope = osc_Kind (ob_Scope ob), gs_Host = '''',
      gs_Included = included, gs_Reason = reason, gs_CapabilityGap = False, gs_TrackingIssue = ''''\<rparr>"

text \<open>One iteration over the observations: the source entry, and the file of an included instruction.\<close>

definition compile_observation :: "hostTreeInput \<Rightarrow> Observation \<Rightarrow> err + GenerationSourceEntry \<times> generatedFile list" where
  "compile_observation inp ob =
     (let (included, reason) = ht_Classify inp ob in
      if \<not> included then Inr (observation_entry ob False reason, [])
      else case instructionContent ob of
        None \<Rightarrow> Inr (observation_entry ob False
          ''excluded: repository Instructions source was discovered but its content could not be read (E0); a generation artifact cannot be produced without content'', [])
      | Some content \<Rightarrow>
          (case Rel (ht_WorktreeRoot inp) (os_Path (ob_Source ob)) of
             Inl e \<Rightarrow> Inl (Wrapf ''runtime: compileHostTree: %w'' [] e)
           | Inr rel \<Rightarrow>
               if rel = ''..'' \<or> has_prefix ''../'' rel
               then Inl (Errorf ''runtime: compileHostTree: repository Instructions source %s resolves outside the worktree root %s''
                      [AStr (os_Path (ob_Source ob)), AStr (ht_WorktreeRoot inp)])
               else Inr (observation_entry ob True reason,
                 [\<lparr>gf_RelPath = Join [Join [''hosts'', ht_Host inp, ht_Surface inp], ''instructions'', rel],
                   gf_Content = content\<rparr>])))"

fun compile_observations :: "hostTreeInput \<Rightarrow> Observation list \<Rightarrow> err + GenerationSourceEntry list \<times> generatedFile list" where
  "compile_observations inp [] = Inr ([], [])"
| "compile_observations inp (ob # obs) =
     (case compile_observation inp ob of
        Inl e \<Rightarrow> Inl e
      | Inr (entry, files) \<Rightarrow>
          (case compile_observations inp obs of
             Inl e \<Rightarrow> Inl e
           | Inr (entries, files1) \<Rightarrow> Inr (entry # entries, files @ files1)))"

definition compileHostTree :: "hostTreeInput \<Rightarrow> err + generatedFile list \<times> GenerationSourceEntry list" where
  "compileHostTree inp =
     (case NativeHomeDirName (ht_Host inp) of
        Inl e \<Rightarrow> Inl e
      | Inr nativeHomeDir \<Rightarrow>
      (case compile_observations inp (ht_Observations inp) of
        Inl e \<Rightarrow> Inl e
      | Inr (entries, files) \<Rightarrow>
      (case hostConfigFiles (ht_Host inp) nativeHomeDir (ht_OMCABinaryPath inp) (ht_WorktreeRoot inp) (ht_Permissions inp) of
        Inl e \<Rightarrow> Inl e
      | Inr (configFiles, permSources) \<Rightarrow>
         (let hostPrefix = Join [''hosts'', ht_Host inp, ht_Surface inp];
              allFiles = files @ map (\<lambda>f. f\<lparr>gf_RelPath := Join [hostPrefix, gf_RelPath f]\<rparr>) configFiles;
              sources = entries @ permSources @ (if ht_Host inp = ''claude-code'' then claudeConfigDirExclusionGapSources else [])
          in Inr (sort_key gf_RelPath allFiles,
                  sort_key (\<lambda>s. (gs_Concept s, gs_Source s, gs_Reason s)) (map (\<lambda>s. s\<lparr>gs_Host := ht_Host inp\<rparr>) sources))))))"

section \<open>The sources of a full generation\<close>

definition desiredStateScope :: string where
  "desiredStateScope = ''desired-state''"

definition resolvedAssetSources :: "ResolvedState \<Rightarrow> GenerationSourceEntry list" where
  "resolvedAssetSources resolved =
     map (\<lambda>a. \<lparr>gs_Concept = AssetKind_code (ra_Kind a), gs_Source = ra_ID a, gs_Scope = desiredStateScope,
           gs_Host = rs_Host resolved, gs_Included = ra_Active a,
           gs_Reason = Sprintf ''resolved desired state (intent=%q): %s'' [AStr (Intent_code (ra_Intent a)), AStr (message_text (ra_Reason a))],
           gs_CapabilityGap = False, gs_TrackingIssue = ''''\<rparr>) (rs_Assets resolved)
     @ map (\<lambda>c. \<lparr>gs_Concept = AssetKind_code (cf_Kind c), gs_Source = cf_AssetID c, gs_Scope = desiredStateScope,
           gs_Host = rs_Host resolved, gs_Included = False,
           gs_Reason = Sprintf
             (''resolved desired state: unresolved conflict among candidate intents %v; excluded from generation until resolved (docs/product/requirements.md '' @ section_sign @ ''4.3: 'ambiguous conflicts remain visible and block unsafe generation')'')
             [AStrs (map Intent_code (cf_CandidateIntents c))],
           gs_CapabilityGap = False, gs_TrackingIssue = ''''\<rparr>) (rs_Conflicts resolved)"

definition sourceEntryFingerprint :: "(json \<Rightarrow> string) \<Rightarrow> string \<Rightarrow> GenerationSourceEntry \<Rightarrow> string" where
  "sourceEntryFingerprint dg host entry =
     CanonicalDigest dg (JObj [(''host'', JStr host), (''entry'', GenerationSourceEntry_json entry)])"

definition hostSourcesFor ::
  "CompileRequest \<Rightarrow> HostCompileInput \<Rightarrow> PermissionRef gomap \<Rightarrow> err + generatedFile list \<times> GenerationSourceEntry list" where
  "hostSourcesFor req h permissions =
     (case Resolve (cq_Profiles req) (cq_Activation req) (cq_Exceptions req) (hd_Host (hc_Detection h)) (cq_Now req) of
        Inl e \<Rightarrow> Inl (Wrapf ''runtime: hostSourcesFor: %w'' [] e)
      | Inr resolved \<Rightarrow>
      (case compileHostTree \<lparr>ht_Host = hd_Host (hc_Detection h), ht_Surface = surfaceOf (hc_Detection h),
              ht_WorktreeRoot = wt_Root (cq_Worktree req), ht_Observations = hc_Observations h,
              ht_OMCABinaryPath = hc_OMCABinaryPath h, ht_Permissions = permissions, ht_Classify = classify\<rparr> of
        Inl e \<Rightarrow> Inl e
      | Inr (files, sources) \<Rightarrow> Inr (files, sources @ resolvedAssetSources resolved)))"

type_synonym hostSourceEntry = "string \<times> GenerationSourceEntry list"

definition aggregateSources :: "(json \<Rightarrow> string) \<Rightarrow> hostSourceEntry list \<Rightarrow> GenerationSourceEntry list \<times> string" where
  "aggregateSources dg perHost =
     (sort_key (\<lambda>s. (gs_Concept s, gs_Source s, gs_Reason s, gs_Host s)) (concat (map snd perHost)),
      CanonicalDigest dg (slice_json (map JStr (sort
        (concat (map (\<lambda>(host, sources). map (sourceEntryFingerprint dg host) sources) perHost))))))"

text \<open>The digest that activation recomputes, from the same functions and without writing anything.\<close>

fun freshSourceDigest_hosts ::
  "CompileRequest \<Rightarrow> PermissionRef gomap \<Rightarrow> HostCompileInput list \<Rightarrow> err + hostSourceEntry list" where
  "freshSourceDigest_hosts req permissions [] = Inr []"
| "freshSourceDigest_hosts req permissions (h # hs) =
     (case hostSourcesFor req h permissions of
        Inl e \<Rightarrow> Inl e
      | Inr (files, sources) \<Rightarrow>
          (case freshSourceDigest_hosts req permissions hs of
             Inl e \<Rightarrow> Inl e
           | Inr perHost \<Rightarrow> Inr ((hd_Host (hc_Detection h), sources) # perHost)))"

definition freshSourceDigest :: "(json \<Rightarrow> string) \<Rightarrow> CompileRequest \<Rightarrow> err + string" where
  "freshSourceDigest dg req =
     (case CompileRequest_validate req of
        Some e \<Rightarrow> Inl e
      | None \<Rightarrow>
          (case freshSourceDigest_hosts req (mergePermissions (cq_Profiles req)) (cq_Hosts req) of
             Inl e \<Rightarrow> Inl e
           | Inr perHost \<Rightarrow> Inr (snd (aggregateSources dg perHost))))"

section \<open>Lemmas\<close>

lemma NativeHomeDirName_Inr: "NativeHomeDirName host = Inr home \<Longrightarrow> plain_elems [host] \<and> plain_elems [home]"
  by (auto simp: NativeHomeDirName_def split: if_splits)

lemma hostConfigFiles_names:
  "hostConfigFiles host home bin root permissions = Inr (files, sources) \<Longrightarrow> f \<in> set files \<Longrightarrow>
   \<exists>name \<in> {''config.toml'', ''settings.json'', ''.claude.json''}. gf_RelPath f = Join [home, name]"
  unfolding hostConfigFiles_def Let_def by (simp split: prod.splits if_splits) auto

lemma hostConfigFiles_Inr:
  assumes "hostConfigFiles host home bin root permissions = Inr (files, sources)" "plain_elems [home]" "f \<in> set files"
  shows "\<exists>name. plain_elems [name] \<and> gf_RelPath f = join_with ''/'' [home, name]"
proof -
  obtain name where n: "name \<in> {''config.toml'', ''settings.json'', ''.claude.json''}" "gf_RelPath f = Join [home, name]"
    using hostConfigFiles_names [OF assms(1,3)] by blast
  then have "plain_elems [name]" by auto
  moreover from this have "Join [home, name] = join_with ''/'' [home, name]" by (intro Join_plain) (use assms(2) in simp_all)
  ultimately show ?thesis using n(2) by auto
qed

lemma clean_split_plain:
  "plain_elems es \<Longrightarrow> clean_elems rooted out (split_on CHR ''/'' (join_with ''/'' es)) = clean_elems rooted out es"
  by (simp add: split_slash_join)

text \<open>Where the files of a host tree may be: below the directory of the host and its surface.\<close>

definition below :: "string list \<Rightarrow> generatedFile \<Rightarrow> bool" where
  "below prefix f \<longleftrightarrow> (\<exists>ts. plain_elems ts \<and> gf_RelPath f = join_with ''/'' (prefix @ ts))"

lemma compile_observation_below:
  assumes c: "compile_observation inp ob = Inr (entry, files)" and pl: "plain_elems [ht_Host inp, ht_Surface inp]" and f: "f \<in> set files"
  shows "below [''hosts'', ht_Host inp, ht_Surface inp] f"
proof -
  let ?pre = "[''hosts'', ht_Host inp, ht_Surface inp]"
  from c f obtain rel content where rel: "Rel (ht_WorktreeRoot inp) (os_Path (ob_Source ob)) = Inr rel"
    and up: "rel \<noteq> ''..''" "\<not> has_prefix ''../'' rel"
    and fe: "gf_RelPath f = Join [Join ?pre, ''instructions'', rel]"
    by (auto simp: compile_observation_def split: prod.splits if_splits option.splits sum.splits)
  obtain ts where ts: "plain_elems ts" "\<And>rooted out. clean_elems rooted out (split_on CHR ''/'' rel) = clean_elems rooted out ts"
    using Rel_inside [OF rel up] by blast
  have p: "Join ?pre = join_with ''/'' ?pre" by (rule Join_plain) (use pl in simp_all)
  have "Join [Join ?pre, ''instructions'', rel] = Join [join_with ''/'' (?pre @ [''instructions'']), rel]"
    unfolding p using pl by (simp add: Join_def)
  also have "\<dots> = join_with ''/'' ((?pre @ [''instructions'']) @ ts)"
    by (rule Join_below) (use pl ts in simp_all)
  finally have "gf_RelPath f = join_with ''/'' (?pre @ ''instructions'' # ts)" using fe by simp
  moreover have "plain_elems (''instructions'' # ts)" using ts by simp
  ultimately show ?thesis unfolding below_def by blast
qed

lemma compile_observations_below:
  assumes "plain_elems [ht_Host inp, ht_Surface inp]"
  shows "compile_observations inp obs = Inr (entries, files) \<Longrightarrow> f \<in> set files \<Longrightarrow> below [''hosts'', ht_Host inp, ht_Surface inp] f"
proof (induction obs arbitrary: entries files)
  case (Cons ob obs)
  then show ?case using compile_observation_below [OF _ assms, of ob]
    by (fastforce split: sum.splits prod.splits)
qed simp

lemma compileHostTree_below:
  assumes c: "compileHostTree inp = Inr (files, sources)" and s: "plain_elems [ht_Surface inp]" and f: "f \<in> set files"
  shows "below [''hosts'', ht_Host inp, ht_Surface inp] f"
proof -
  let ?pre = "[''hosts'', ht_Host inp, ht_Surface inp]"
  from c obtain home entries ofiles cfiles permSources where
    h: "NativeHomeDirName (ht_Host inp) = Inr home" and
    o1: "compile_observations inp (ht_Observations inp) = Inr (entries, ofiles)" and
    hc: "hostConfigFiles (ht_Host inp) home (ht_OMCABinaryPath inp) (ht_WorktreeRoot inp) (ht_Permissions inp) = Inr (cfiles, permSources)" and
    fs: "set files = set ofiles \<union> (\<lambda>f. f\<lparr>gf_RelPath := Join [Join ?pre, gf_RelPath f]\<rparr>) ` set cfiles"
    by (auto simp: compileHostTree_def Let_def split: sum.splits prod.splits)
  have pl: "plain_elems ?pre" "plain_elems [home]" using NativeHomeDirName_Inr [OF h] s by simp_all
  from f fs consider "f \<in> set ofiles" | f0 where "f0 \<in> set cfiles" "f = f0\<lparr>gf_RelPath := Join [Join ?pre, gf_RelPath f0]\<rparr>" by auto
  then show ?thesis
  proof cases
    case 1
    then show ?thesis using compile_observations_below [OF _ o1] pl by simp
  next
    case (2 f0)
    obtain name where n: "plain_elems [name]" "gf_RelPath f0 = join_with ''/'' [home, name]"
      using hostConfigFiles_Inr [OF hc pl(2) 2(1)] by blast
    then have hn: "plain_elems [home, name]" using pl(2) by simp
    have p: "Join ?pre = join_with ''/'' ?pre" by (rule Join_plain [OF pl(1)]) simp
    have "Join [join_with ''/'' ?pre, join_with ''/'' [home, name]] = join_with ''/'' (?pre @ [home, name])"
      by (rule Join_below [OF pl(1) _ clean_split_plain [OF hn] hn]) simp
    with p n 2 hn show ?thesis unfolding below_def by (intro exI [of _ "[home, name]"]) simp
  qed
qed

lemma resolveSandboxPermission_None: "resolveSandboxPermission host [] = (conservativeSandbox host, None)"
  by (simp add: resolveSandboxPermission_def Let_def)
section \<open>Sample inputs for the witnesses\<close>

definition sample_instruction :: "string \<Rightarrow> string \<Rightarrow> Observation" where
  "sample_instruction path content =
     \<lparr>ob_APIVersion = SupportedAPIVersion, ob_Kind = ''Observation'', ob_ID = ''codex:instruction:'' @ path,
      ob_Host = \<lparr>oh_ID = ''codex'', oh_Version = ''1.0.0''\<rparr>, ob_Surface = ''cli'', ob_Concept = ''instruction'',
      ob_Source = \<lparr>os_Kind = ''file'', os_Path = path, os_Digest = ''''\<rparr>,
      ob_Scope = \<lparr>osc_Kind = ''workspace'', osc_Root = '''', osc_Selector = '''', osc_Shared = False, osc_TrustRequired = False\<rparr>,
      ob_Disposition = DispDiscovered, ob_EvidenceLevel = EvParsed, ob_RawDigest = '''', ob_ParsedDigest = '''',
      ob_OpaqueVendorFields = [(''content'', JStr content)]\<rparr>"

definition sample_tree :: "PermissionRef gomap \<Rightarrow> hostTreeInput" where
  "sample_tree permissions =
     \<lparr>ht_Host = ''codex'', ht_Surface = ''cli'', ht_WorktreeRoot = ''/w'',
      ht_Observations = [sample_instruction ''/w/docs/AGENTS.md'' ''be careful''], ht_OMCABinaryPath = ''/s/omca'',
      ht_Permissions = permissions, ht_Classify = classify\<rparr>"

definition sample_policy :: "string \<Rightarrow> Intent \<Rightarrow> string \<Rightarrow> Profile" where
  "sample_policy pid intent v =
     \<lparr>pf_APIVersion = SupportedAPIVersion, pf_Kind = ''Profile'', pf_ID = pid, pf_Skills = [], pf_MCPServers = [],
      pf_Instructions = [], pf_Permissions = [(''sandbox'', \<lparr>pm_Intent = intent, pm_Value = v\<rparr>)]\<rparr>"

section \<open>Properties\<close>

text \<open>A denied sandbox permission is never weakened. When some profile denies the permission, the sandbox value
is the host's most conservative one and the decision is recorded as excluded; any other value than the
conservative one was asked for by a profile that does not deny, is known to the host, and is recorded as
included.\<close>

theorem sandbox_permission_sound:
  "(let (v, entry) = resolveSandboxPermission host (mergePermissions ps); refs = permission_refs ''sandbox'' ps
    in ((\<exists>r \<in> set refs. pm_Intent r = IntentDenied) \<longrightarrow>
          v = conservativeSandbox host \<and> (\<exists>reason. entry = Some (sandbox_entry False reason))) \<and>
       (v \<noteq> conservativeSandbox host \<longrightarrow>
          (\<exists>r \<in> set refs. pm_Value r = v \<and> knownSandboxValue host v \<and>
             pm_Intent r \<in> {IntentRequired, IntentDefault, IntentAvailable}) \<and>
          (\<exists>reason. entry = Some (sandbox_entry True reason))))"
proof (cases "strongest_ref (permission_refs ''sandbox'' ps)")
  case None
  then have "permission_refs ''sandbox'' ps = []" by (auto simp: strongest_ref_def split: option.splits if_splits)
  with None show ?thesis by (simp add: resolveSandboxPermission_def map_of_mergePermissions Let_def)
next
  case (Some r)
  have mem: "r \<in> set (permission_refs ''sandbox'' ps)" by (rule strongest_ref_mem [OF Some])
  have den: "pm_Intent r = IntentDenied" if "\<exists>r \<in> set (permission_refs ''sandbox'' ps). pm_Intent r = IntentDenied"
    by (rule strongest_ref_denied [OF Some that])
  show ?thesis
    using mem den Some
    by (cases "pm_Intent r"; cases "knownSandboxValue host (pm_Value r)")
      (auto simp: resolveSandboxPermission_def map_of_mergePermissions Let_def)
qed

lemma sandbox_permission_sound_witness:
  "(let ps = [sample_policy ''team'' IntentRequired ''danger-full-access'', sample_policy ''org'' IntentDenied ''danger-full-access'']
    in fst (resolveSandboxPermission ''codex'' (mergePermissions ps)) = ''read-only'' \<and>
       fst (resolveSandboxPermission ''codex'' (mergePermissions (take 1 ps))) = ''danger-full-access'')"
proof -
  let ?ps = "[sample_policy ''team'' IntentRequired ''danger-full-access'', sample_policy ''org'' IntentDenied ''danger-full-access'']"
  have "\<exists>r \<in> set (permission_refs ''sandbox'' ?ps). pm_Intent r = IntentDenied" by code_simp
  then have "fst (resolveSandboxPermission ''codex'' (mergePermissions ?ps)) = conservativeSandbox ''codex''"
    using sandbox_permission_sound [of "''codex''" ?ps] by (auto simp: Let_def split: prod.splits)
  moreover have "conservativeSandbox ''codex'' = ''read-only''" by code_simp
  moreover have "fst (resolveSandboxPermission ''codex'' (mergePermissions (take 1 ?ps))) = ''danger-full-access''" by code_simp
  ultimately show ?thesis unfolding Let_def by (simp only: simp_thms)
qed

text \<open>Confinement. Every file of a compiled host tree lies below \<^verbatim>\<open>hosts/<host>/<surface>\<close>: its path is those
three elements followed by elements without separators, dots or empty names, wherever the instructions come
from.\<close>

theorem compiled_files_confined:
  assumes "compileHostTree inp = Inr (files, sources)" "plain_elems [ht_Surface inp]"
  shows "\<forall>f \<in> set files. \<exists>ts. plain_elems ts \<and> gf_RelPath f = join_with ''/'' ([''hosts'', ht_Host inp, ht_Surface inp] @ ts)"
  using compileHostTree_below [OF assms] by (simp add: below_def)

lemma compiled_files_confined_witness:
  "(let (files, sources) = projr (compileHostTree (sample_tree []))
    in map gf_RelPath files = [''hosts/codex/cli/codex-home/config.toml'', ''hosts/codex/cli/instructions/docs/AGENTS.md''] \<and>
       (\<forall>f \<in> set files. \<exists>ts. plain_elems ts \<and> gf_RelPath f = join_with ''/'' ([''hosts'', ''codex'', ''cli''] @ ts)))"
proof -
  obtain files sources where fs: "compileHostTree (sample_tree []) = Inr (files, sources)"
    "map gf_RelPath files = [''hosts/codex/cli/codex-home/config.toml'', ''hosts/codex/cli/instructions/docs/AGENTS.md'']"
  proof
    show "compileHostTree (sample_tree []) = Inr (fst (projr (compileHostTree (sample_tree []))), snd (projr (compileHostTree (sample_tree []))))"
      by code_simp
    show "map gf_RelPath (fst (projr (compileHostTree (sample_tree [])))) =
      [''hosts/codex/cli/codex-home/config.toml'', ''hosts/codex/cli/instructions/docs/AGENTS.md'']" by code_simp
  qed
  have "plain_elems [ht_Surface (sample_tree [])]" by (simp add: sample_tree_def)
  from compiled_files_confined [OF fs(1) this] fs show ?thesis by (simp add: sample_tree_def)
qed

end
