(* ===== verification/Runtime_Generations.thy ===== *)
theory Runtime_Generations
  imports Runtime_Compile
begin

text \<open>
  Putting generations on disk (\<^verbatim>\<open>bootstrap.go\<close>, \<^verbatim>\<open>Compile\<close> of \<^verbatim>\<open>compile_full.go\<close>, \<^verbatim>\<open>bisect.go\<close>, and
  \<^verbatim>\<open>EnsureGeneration\<close> of \<^verbatim>\<open>current.go\<close>): the files of every host, then the manifest, then the read-only modes
  (of which the model keeps only whether setting them failed).
\<close>

fun write_files :: "string \<Rightarrow> generatedFile list \<Rightarrow> disk \<Rightarrow> err option \<times> disk" where
  "write_files outputDir [] dk = (None, dk)"
| "write_files outputDir (f # files) dk =
     (let fullPath = Join [outputDir, gf_RelPath f]
      in case first_err [dk_fault dk MkdirAll (Dir fullPath), dk_fault dk WriteFile fullPath] of
           Some e \<Rightarrow> (Some e, dk)
         | None \<Rightarrow> write_files outputDir files (dk\<lparr>dk_files := (dk_files dk)(fullPath \<mapsto> gf_Content f)\<rparr>))"

definition artifacts_of :: "(json \<Rightarrow> string) \<Rightarrow> generatedFile list \<Rightarrow> GenerationArtifact list" where
  "artifacts_of dg files =
     map (\<lambda>f. \<lparr>ga_Path = gf_RelPath f, ga_Digest = CanonicalDigest dg (JStr (gf_Content f))\<rparr>) files"

text \<open>The end of both compilers: validate, write the manifest, make the tree read-only.\<close>

definition finish_generation :: "string \<Rightarrow> string \<Rightarrow> Generation \<Rightarrow> disk \<Rightarrow> (err + Generation) \<times> disk" where
  "finish_generation compiler outputDir gen dk =
     (let wrap = (\<lambda>e. Inl (Wrapf (''runtime: '' @ compiler @ '': %w'') [] e)); path = manifestPath outputDir
      in case ValidateGeneration gen of
        Some e \<Rightarrow> (Inl (Wrapf (''runtime: '' @ compiler @ '': compiled an invalid Generation: %w'') [] e), dk)
      | None \<Rightarrow>
      (case dk_fault dk WriteFile path of
        Some e \<Rightarrow> (wrap e, dk\<lparr>dk_manifests := (dk_manifests dk)(path \<mapsto> Garbled e)\<rparr>)
      | None \<Rightarrow>
         (let dk' = dk\<lparr>dk_manifests := (dk_manifests dk)(path \<mapsto> Doc gen)\<rparr>
          in case dk_fault dk Chmod outputDir of Some e \<Rightarrow> (wrap e, dk') | None \<Rightarrow> (Inr gen, dk'))))"

definition virtualHomeDir :: "string \<Rightarrow> HostDetection \<Rightarrow> string" where
  "virtualHomeDir outputDir det = Join [outputDir, ''hosts'', hd_Host det, surfaceOf det, VirtualHomeDirName]"

definition host_entry :: "(json \<Rightarrow> string) \<Rightarrow> HostDetection \<Rightarrow> generatedFile list \<Rightarrow> GenerationHostEntry" where
  "host_entry dg det files =
     \<lparr>gh_HostVersion = hd_Version det, gh_Surface = surfaceOf det, gh_AdapterID = AdapterID, gh_AdapterVersion = '''',
      gh_Ownership = OwnershipManaged, gh_Artifacts = artifacts_of dg files\<rparr>"

definition bootstrap_generation ::
  "(json \<Rightarrow> string) \<Rightarrow> BootstrapRequest \<Rightarrow> string \<Rightarrow> generatedFile list \<Rightarrow> GenerationSourceEntry list \<Rightarrow> Generation" where
  "bootstrap_generation dg req genID files sources =
     (let det = bq_Detection req in
      \<lparr>gn_APIVersion = SupportedAPIVersion, gn_Kind = ''Generation'',
      gn_Metadata = \<lparr>gm_ID = genID, gm_Worktree = wt_ID (bq_Worktree req), gm_Invocation = '''',
        gm_Parent = bq_Parent req, gm_CreatedAt = RFC3339 (bq_Now req)\<rparr>,
      gn_Spec = \<lparr>gp_DesiredGraphDigest = BootstrapPolicyDigest dg, gp_KnowledgePacks = [],
        gp_Hosts = [(hd_Host det, host_entry dg det files)], gp_Sources = sources, gp_Status = ''pending'',
        gp_OntologyVersion = CurrentOntologyVersion, gp_SourceDigest = '''', gp_DesiredState = None, gp_Diff = None,
        gp_RiskConfirmations = [], gp_ExpectedEvidence = []\<rparr>\<rparr>)"

definition Bootstrap :: "(json \<Rightarrow> string) \<Rightarrow> BootstrapRequest \<Rightarrow> string \<Rightarrow> disk \<Rightarrow> (err + Generation) \<times> disk" where
  "Bootstrap dg req outputDir dk =
     (let det = bq_Detection req; wrap = (\<lambda>e. Inl (Wrapf ''runtime: Bootstrap: %w'' [] e)) in
      case first_err
        [BootstrapRequest_validate req,
         require (outputDir \<noteq> '''') (Errorf ''runtime: Bootstrap: outputDir is required'' []),
         require (IsAbs outputDir) (Errorf ''runtime: Bootstrap: outputDir %q is not absolute'' [AStr outputDir])] of
        Some e \<Rightarrow> (Inl e, dk)
      | None \<Rightarrow>
      (case GenerationID dg req of
        Inl e \<Rightarrow> (Inl e, dk)
      | Inr genID \<Rightarrow>
      (case compileHostTree \<lparr>ht_Host = hd_Host det, ht_Surface = surfaceOf det, ht_WorktreeRoot = wt_Root (bq_Worktree req),
              ht_Observations = bq_Observations req, ht_OMCABinaryPath = bq_OMCABinaryPath req, ht_Permissions = [],
              ht_Classify = classify\<rparr> of
        Inl e \<Rightarrow> (Inl e, dk)
      | Inr (files, sources) \<Rightarrow>
      (case dk_fault dk MkdirAll outputDir of
        Some e \<Rightarrow> (wrap e, dk)
      | None \<Rightarrow>
      (case write_files outputDir files dk of
        (Some e, dk1) \<Rightarrow> (wrap e, dk1)
      | (None, dk1) \<Rightarrow>
      (case dk_fault dk1 MkdirAll (virtualHomeDir outputDir det) of
        Some e \<Rightarrow> (wrap e, dk1)
      | None \<Rightarrow> finish_generation ''Bootstrap'' outputDir (bootstrap_generation dg req genID files sources) dk1))))))"

text \<open>The loop over the hosts of a full compilation.\<close>

fun compile_hosts ::
  "(json \<Rightarrow> string) \<Rightarrow> CompileRequest \<Rightarrow> PermissionRef gomap \<Rightarrow> string \<Rightarrow> HostCompileInput list \<Rightarrow> disk \<Rightarrow>
   (err + GenerationHostEntry gomap \<times> hostSourceEntry list) \<times> disk" where
  "compile_hosts dg req permissions outputDir [] dk = (Inr ([], []), dk)"
| "compile_hosts dg req permissions outputDir (h # hs) dk =
     (let det = hc_Detection h; wrap = (\<lambda>e. Inl (Wrapf ''runtime: Compile: %w'' [] e)) in
      case hostSourcesFor req h permissions of
        Inl e \<Rightarrow> (wrap e, dk)
      | Inr (files, sources) \<Rightarrow>
      (case write_files outputDir files dk of
        (Some e, dk1) \<Rightarrow> (wrap e, dk1)
      | (None, dk1) \<Rightarrow>
      (case dk_fault dk1 MkdirAll (virtualHomeDir outputDir det) of
        Some e \<Rightarrow> (wrap e, dk1)
      | None \<Rightarrow>
      (case compile_hosts dg req permissions outputDir hs dk1 of
        (Inl e, dk2) \<Rightarrow> (Inl e, dk2)
      | (Inr (hosts, perHost), dk2) \<Rightarrow>
          (Inr ((hd_Host det, host_entry dg det files) # hosts, (hd_Host det, sources) # perHost), dk2)))))"

definition compiled_generation ::
  "(json \<Rightarrow> string) \<Rightarrow> CompileRequest \<Rightarrow> string \<Rightarrow> GenerationHostEntry gomap \<Rightarrow> hostSourceEntry list \<Rightarrow> Generation" where
  "compiled_generation dg req genID hosts perHost =
     (let (allSources, sourceDigest) = aggregateSources dg perHost in
      \<lparr>gn_APIVersion = SupportedAPIVersion, gn_Kind = ''Generation'',
      gn_Metadata = \<lparr>gm_ID = genID, gm_Worktree = wt_ID (cq_Worktree req), gm_Invocation = cq_Invocation req,
        gm_Parent = cq_Parent req, gm_CreatedAt = RFC3339 (cq_Now req)\<rparr>,
      gn_Spec = \<lparr>gp_DesiredGraphDigest = desiredGraphDigestFor dg (cq_Profiles req) (cq_Activation req) (cq_Exceptions req),
        gp_KnowledgePacks = cq_KnowledgePacks req, gp_Hosts = hosts, gp_Sources = allSources, gp_Status = ''pending'',
        gp_OntologyVersion = CurrentOntologyVersion, gp_SourceDigest = sourceDigest,
        gp_DesiredState = Some (desiredStateRef dg (cq_Profiles req) (cq_Activation req) (cq_Exceptions req)),
        gp_Diff = None, gp_RiskConfirmations = [], gp_ExpectedEvidence = []\<rparr>\<rparr>)"

definition Compile :: "(json \<Rightarrow> string) \<Rightarrow> CompileRequest \<Rightarrow> string \<Rightarrow> disk \<Rightarrow> (err + Generation) \<times> disk" where
  "Compile dg req outputDir dk =
     (case first_err
        [CompileRequest_validate req,
         require (outputDir \<noteq> '''') (Errorf ''runtime: Compile: outputDir is required'' []),
         require (IsAbs outputDir) (Errorf ''runtime: Compile: outputDir %q is not absolute'' [AStr outputDir])] of
        Some e \<Rightarrow> (Inl e, dk)
      | None \<Rightarrow>
      (case CompileGenerationID dg req of
        Inl e \<Rightarrow> (Inl e, dk)
      | Inr genID \<Rightarrow>
      (case dk_fault dk MkdirAll outputDir of
        Some e \<Rightarrow> (Inl (Wrapf ''runtime: Compile: %w'' [] e), dk)
      | None \<Rightarrow>
      (case compile_hosts dg req (mergePermissions (cq_Profiles req)) outputDir (cq_Hosts req) dk of
        (Inl e, dk1) \<Rightarrow> (Inl e, dk1)
      | (Inr (hosts, perHost), dk1) \<Rightarrow>
          finish_generation ''Compile'' outputDir (compiled_generation dg req genID hosts perHost) dk1))))"

section \<open>Reusing what is already compiled\<close>

definition generationDirFor :: "string \<Rightarrow> string \<Rightarrow> string" where
  "generationDirFor generationsRoot gid = Join [generationsRoot, DirSafeID gid]"

definition EnsureGeneration ::
  "(json \<Rightarrow> string) \<Rightarrow> BootstrapRequest \<Rightarrow> string \<Rightarrow> disk \<Rightarrow> (err + Generation \<times> string) \<times> disk" where
  "EnsureGeneration dg req generationsRoot dk =
     (case first_err
        [require (generationsRoot \<noteq> '''') (Errorf ''runtime: EnsureGeneration: generationsRoot is required'' []),
         require (IsAbs generationsRoot)
           (Errorf ''runtime: EnsureGeneration: generationsRoot %q is not absolute'' [AStr generationsRoot])] of
        Some e \<Rightarrow> (Inl e, dk)
      | None \<Rightarrow>
      (case GenerationID dg req of
        Inl e \<Rightarrow> (Inl e, dk)
      | Inr gid \<Rightarrow>
         (let outputDir = generationDirFor generationsRoot gid in
          case ReadGenerationManifest outputDir dk of
            Inr gen \<Rightarrow>
              if gen_id gen \<noteq> gid
              then (Inl (Errorf ''runtime: EnsureGeneration: %s contains a manifest for generation %q, expected %q''
                      [AStr outputDir, AStr (gen_id gen), AStr gid]), dk)
              else (Inr (gen, outputDir), dk)
          | Inl (IOErr e) \<Rightarrow>
              (Inl (Wrapf ''runtime: EnsureGeneration: existing generation directory %s is present but its manifest failed validation, refusing to overwrite a content-addressed path: %w''
                 [AStr outputDir] e), dk)
          | Inl NotExist \<Rightarrow>
              (case Bootstrap dg req outputDir dk of
                 (Inl e, dk1) \<Rightarrow> (Inl e, dk1)
               | (Inr gen, dk1) \<Rightarrow> (Inr (gen, outputDir), dk1)))))"

definition ensureCompiled :: "(json \<Rightarrow> string) \<Rightarrow> CompileRequest \<Rightarrow> string \<Rightarrow> disk \<Rightarrow> (err + Generation) \<times> disk" where
  "ensureCompiled dg req outputDir dk =
     (case ReadGenerationManifest outputDir dk of
        Inr gen \<Rightarrow> (Inr gen, dk)
      | Inl (IOErr e) \<Rightarrow>
          (Inl (Wrapf ''existing generation directory %s is present but its manifest failed validation, refusing to overwrite a content-addressed path: %w''
             [AStr outputDir] e), dk)
      | Inl NotExist \<Rightarrow> Compile dg req outputDir dk)"

section \<open>Bisection\<close>

record BisectStep =
  bs_Index :: nat
  bs_CandidateID :: string
  bs_GenerationID :: string
  bs_OutputDir :: string
  bs_Compiled :: bool

record BisectPlan =
  bp_Host :: string
  bp_DryRun :: bool
  bp_Steps :: "BisectStep list"

record BisectRequest =
  br_Compile :: CompileRequest
  br_GenerationsRoot :: string
  br_DryRun :: bool

definition bisect_request :: "CompileRequest \<Rightarrow> HostCompileInput \<Rightarrow> Observation list \<Rightarrow> nat \<Rightarrow> CompileRequest" where
  "bisect_request req base candidates i =
     req\<lparr>cq_Hosts := [base\<lparr>hc_Observations := take i candidates\<rparr>],
         cq_Invocation := Sprintf ''omca bisect %s (step %d/%d)''
           [AStr (hd_Host (hc_Detection base)), AInt (int i), AInt (int (length candidates))]\<rparr>"

fun bisect_steps ::
  "(json \<Rightarrow> string) \<Rightarrow> BisectRequest \<Rightarrow> HostCompileInput \<Rightarrow> Observation list \<Rightarrow> nat list \<Rightarrow> disk \<Rightarrow>
   (err + BisectStep list) \<times> disk" where
  "bisect_steps dg breq base candidates [] dk = (Inr [], dk)"
| "bisect_steps dg breq base candidates (i # is) dk =
     (let stepReq = bisect_request (br_Compile breq) base candidates i;
          wrap = (\<lambda>e. Inl (Wrapf ''runtime: Bisect: step %d/%d: %w'' [AInt (int i), AInt (int (length candidates))] e)) in
      case CompileGenerationID dg stepReq of
        Inl e \<Rightarrow> (wrap e, dk)
      | Inr genID \<Rightarrow>
         (let outputDir = generationDirFor (br_GenerationsRoot breq) genID;
              (r, dk1) = (if br_DryRun breq then (None, dk)
                          else case ensureCompiled dg stepReq outputDir dk of
                                 (Inl e, dk1) \<Rightarrow> (Some e, dk1) | (Inr gen, dk1) \<Rightarrow> (None, dk1)) in
          case r of
            Some e \<Rightarrow> (wrap e, dk1)
          | None \<Rightarrow>
              (case bisect_steps dg breq base candidates is dk1 of
                 (Inl e, dk2) \<Rightarrow> (Inl e, dk2)
               | (Inr steps, dk2) \<Rightarrow>
                   (Inr (\<lparr>bs_Index = i, bs_CandidateID = ob_ID (candidates ! (i - 1)), bs_GenerationID = genID,
                      bs_OutputDir = (if br_DryRun breq then '''' else outputDir), bs_Compiled = (\<not> br_DryRun breq)\<rparr> # steps), dk2))))"

definition Bisect :: "(json \<Rightarrow> string) \<Rightarrow> BisectRequest \<Rightarrow> disk \<Rightarrow> (err + BisectPlan) \<times> disk" where
  "Bisect dg breq dk =
     (case cq_Hosts (br_Compile breq) of
        [base] \<Rightarrow>
         (let host = hd_Host (hc_Detection base) in
          case first_err
            [wrap_err ''runtime: Bisect: %w'' [] (ValidateHostID host),
             require (br_DryRun breq \<or> br_GenerationsRoot breq \<noteq> '''')
               (Errorf ''runtime: Bisect: GenerationsRoot is required unless DryRun'' []),
             require (br_DryRun breq \<or> IsAbs (br_GenerationsRoot breq))
               (Errorf ''runtime: Bisect: GenerationsRoot %q is not absolute'' [AStr (br_GenerationsRoot breq)])] of
            Some e \<Rightarrow> (Inl e, dk)
          | None \<Rightarrow>
             (let candidates = sort_key ob_ID (hc_Observations base) in
              case bisect_steps dg breq base candidates [1..<Suc (length candidates)] dk of
                (Inl e, dk1) \<Rightarrow> (Inl e, dk1)
              | (Inr steps, dk1) \<Rightarrow> (Inr \<lparr>bp_Host = host, bp_DryRun = br_DryRun breq, bp_Steps = steps\<rparr>, dk1)))
      | hosts \<Rightarrow> (Inl (Errorf ''runtime: Bisect: Compile.Hosts must name exactly one host (bisect is single-host), got %d''
                    [AInt (int (length hosts))]), dk))"

section \<open>Lemmas\<close>

text \<open>What the writers touch: files, and the manifest of the output directory.\<close>

definition same_pointers :: "disk \<Rightarrow> disk \<Rightarrow> bool" where
  "same_pointers dk dk' \<longleftrightarrow> dk_links dk' = dk_links dk \<and> dk_records dk' = dk_records dk \<and>
     dk_ledgers dk' = dk_ledgers dk \<and> dk_locks dk' = dk_locks dk \<and> dk_fault dk' = dk_fault dk"

lemma same_pointers_refl [simp]: "same_pointers dk dk"
  by (simp add: same_pointers_def)

lemma same_pointers_trans: "same_pointers dk dk' \<Longrightarrow> same_pointers dk' dk'' \<Longrightarrow> same_pointers dk dk''"
  by (simp add: same_pointers_def)

lemma write_files_frame:
  "write_files out files dk = (r, dk') \<Longrightarrow> same_pointers dk dk' \<and> dk_manifests dk' = dk_manifests dk \<and>
     (\<forall>path. dk_files dk' path \<noteq> dk_files dk path \<longrightarrow> (\<exists>f \<in> set files. path = Join [out, gf_RelPath f]))"
proof (induction files arbitrary: dk)
  case (Cons f files)
  let ?p = "Join [out, gf_RelPath f]"
  show ?case
  proof (cases "first_err [dk_fault dk MkdirAll (Dir ?p), dk_fault dk WriteFile ?p]")
    case None
    then have "write_files out files (dk\<lparr>dk_files := (dk_files dk)(?p \<mapsto> gf_Content f)\<rparr>) = (r, dk')"
      using Cons.prems by (simp add: Let_def)
    from Cons.IH [OF this] show ?thesis by (auto simp: same_pointers_def fun_upd_def split: if_splits)
  next
    case (Some e)
    then show ?thesis using Cons.prems by (simp add: Let_def)
  qed
qed simp

lemma finish_generation_cases:
  assumes "finish_generation compiler out gen dk = (r, dk')"
  obtains (invalid) e where "r = Inl e" "dk' = dk"
  | (broken) e e' where "r = Inl e" "dk' = dk\<lparr>dk_manifests := (dk_manifests dk)(manifestPath out \<mapsto> Garbled e')\<rparr>"
  | (writable) e where "r = Inl e" "ValidateGeneration gen = None" "dk' = dk\<lparr>dk_manifests := (dk_manifests dk)(manifestPath out \<mapsto> Doc gen)\<rparr>"
  | (compiled) "r = Inr gen" "ValidateGeneration gen = None" "dk' = dk\<lparr>dk_manifests := (dk_manifests dk)(manifestPath out \<mapsto> Doc gen)\<rparr>"
proof (cases "ValidateGeneration gen")
  case None
  note v = this
  show thesis
  proof (cases "dk_fault dk WriteFile (manifestPath out)")
    case None
    then show thesis using assms v writable compiled
      by (cases "dk_fault dk Chmod out") (auto simp: finish_generation_def Let_def)
  next
    case (Some e)
    then show thesis using assms v broken by (auto simp: finish_generation_def Let_def)
  qed
next
  case (Some e)
  then show thesis using assms invalid by (auto simp: finish_generation_def Let_def)
qed

lemma finish_generation_frame:
  assumes "finish_generation compiler out gen dk = (r, dk')"
  shows "same_pointers dk dk'" "dk_files dk' = dk_files dk" "\<forall>p. p \<noteq> manifestPath out \<longrightarrow> dk_manifests dk' p = dk_manifests dk p"
  using assms by (cases rule: finish_generation_cases; simp add: same_pointers_def)+

lemma hostSourcesFor_below:
  assumes "hostSourcesFor req h permissions = Inr (files, sources)" "plain_elems [surfaceOf (hc_Detection h)]" "f \<in> set files"
  shows "below [''hosts'', hd_Host (hc_Detection h), surfaceOf (hc_Detection h)] f"
  using assms compileHostTree_below [of "\<lparr>ht_Host = hd_Host (hc_Detection h), ht_Surface = surfaceOf (hc_Detection h),
              ht_WorktreeRoot = wt_Root (cq_Worktree req), ht_Observations = hc_Observations h,
              ht_OMCABinaryPath = hc_OMCABinaryPath h, ht_Permissions = permissions, ht_Classify = classify\<rparr>"]
  by (auto simp: hostSourcesFor_def split: sum.splits prod.splits)

definition artifact_path :: "string \<Rightarrow> string \<Rightarrow> bool" where
  "artifact_path out path \<longleftrightarrow> (\<exists>ts. plain_elems ts \<and> path = Join [out, join_with ''/'' (''hosts'' # ts)])"

lemma below_artifact: "below (''hosts'' # pre) f \<Longrightarrow> plain_elems pre \<Longrightarrow> artifact_path out (Join [out, gf_RelPath f])"
  unfolding below_def artifact_path_def by (metis append_Cons plain_elems_simps(3))

text \<open>A host that the request's validation accepts has a plain name.\<close>

lemma validate_hosts_plain:
  "CompileRequest_validate_hosts i seen hs = None \<Longrightarrow> h \<in> set hs \<Longrightarrow>
     ValidateHostID (hd_Host (hc_Detection h)) = None \<and> hd_Host (hc_Detection h) \<notin> set seen"
proof (induction i seen hs rule: CompileRequest_validate_hosts.induct)
  case (2 i seen h' hs)
  then show ?case
    by (auto simp: Let_def first_err_checks require_None_iff wrap_err_None_iff split: option.splits)
qed simp

lemma compile_hosts_frame:
  assumes "\<forall>h \<in> set hs. plain_elems [hd_Host (hc_Detection h), surfaceOf (hc_Detection h)]"
  shows "compile_hosts dg req permissions out hs dk = (r, dk') \<Longrightarrow>
    same_pointers dk dk' \<and> dk_manifests dk' = dk_manifests dk \<and>
    (\<forall>path. dk_files dk' path \<noteq> dk_files dk path \<longrightarrow> artifact_path out path)"
  using assms
proof (induction hs arbitrary: dk r dk')
  case (Cons h hs)
  let ?det = "hc_Detection h"
  have pl: "plain_elems [surfaceOf ?det]" "plain_elems [hd_Host ?det, surfaceOf ?det]" using Cons.prems(2) by simp_all
  show ?case
  proof (cases "hostSourcesFor req h permissions")
    case (Inl e)
    then show ?thesis using Cons.prems(1) by (simp add: Let_def)
  next
    case (Inr fs)
    then obtain files sources where hs: "hostSourcesFor req h permissions = Inr (files, sources)" by (cases fs) auto
    obtain r1 dk1 where w: "write_files out files dk = (r1, dk1)" by force
    note wf = write_files_frame [OF w]
    have fp: "artifact_path out path" if "dk_files dk1 path \<noteq> dk_files dk path" for path
      using wf that hostSourcesFor_below [OF hs pl(1)] below_artifact [OF _ pl(2)] by metis
    show ?thesis
    proof (cases "r1 = None \<and> dk_fault dk1 MkdirAll (virtualHomeDir out ?det) = None")
      case False
      then have "dk' = dk1" using Cons.prems(1) hs w by (auto simp: Let_def split: option.splits)
      with wf fp show ?thesis by blast
    next
      case True
      obtain r2 dk2 where c: "compile_hosts dg req permissions out hs dk1 = (r2, dk2)" by force
      then have d: "dk' = dk2" using Cons.prems(1) hs w True by (auto simp: Let_def split: sum.splits prod.splits)
      have "same_pointers dk1 dk2 \<and> dk_manifests dk2 = dk_manifests dk1 \<and>
          (\<forall>path. dk_files dk2 path \<noteq> dk_files dk1 path \<longrightarrow> artifact_path out path)"
        by (rule Cons.IH [OF c]) (use Cons.prems(2) in simp)
      with wf fp d show ?thesis by (metis same_pointers_trans)
    qed
  qed
qed simp

lemma compile_hosts_fresh:
  "compile_hosts dg req permissions out hs dk = (Inr (hosts, perHost), dk') \<Longrightarrow> freshSourceDigest_hosts req permissions hs = Inr perHost"
proof (induction hs arbitrary: dk hosts perHost dk')
  case (Cons h hs)
  then show ?case by (auto simp: Let_def split: sum.splits prod.splits option.splits)
qed simp

lemma compile_hosts_pointers: "compile_hosts dg req permissions out hs dk = (r, dk') \<Longrightarrow> same_pointers dk dk' \<and> dk_manifests dk' = dk_manifests dk"
proof (induction hs arbitrary: dk r dk')
  case (Cons h hs)
  show ?case
  proof (cases "hostSourcesFor req h permissions")
    case (Inl e)
    then show ?thesis using Cons.prems by (simp add: Let_def)
  next
    case (Inr fs)
    then obtain files sources where hs: "hostSourcesFor req h permissions = Inr (files, sources)" by (cases fs) auto
    obtain r1 dk1 where w: "write_files out files dk = (r1, dk1)" by force
    note wf = write_files_frame [OF w]
    obtain r2 dk2 where c: "compile_hosts dg req permissions out hs dk1 = (r2, dk2)" by force
    have "dk' = dk1 \<or> dk' = dk2"
      using Cons.prems hs w c by (auto simp: Let_def split: option.splits sum.splits prod.splits)
    with wf Cons.IH [OF c] show ?thesis by (metis same_pointers_trans)
  qed
qed simp

text \<open>The ways through a full compilation: refused, stopped at a host, or finished.\<close>

lemma Compile_cases:
  assumes "Compile dg req out dk = (r, dk')"
  obtains (refused) e where "r = Inl e" "dk' = dk"
  | (stopped) e e' where "r = Inl e" "CompileRequest_validate req = None" "IsAbs out"
      "compile_hosts dg req (mergePermissions (cq_Profiles req)) out (cq_Hosts req) dk = (Inl e', dk')"
  | (compiled) genID hosts perHost dk1 where "CompileRequest_validate req = None" "IsAbs out" "CompileGenerationID dg req = Inr genID"
      "compile_hosts dg req (mergePermissions (cq_Profiles req)) out (cq_Hosts req) dk = (Inr (hosts, perHost), dk1)"
      "finish_generation ''Compile'' out (compiled_generation dg req genID hosts perHost) dk1 = (r, dk')"
proof -
  let ?c = "first_err
        [CompileRequest_validate req,
         require (out \<noteq> '''') (Errorf ''runtime: Compile: outputDir is required'' []),
         require (IsAbs out) (Errorf ''runtime: Compile: outputDir %q is not absolute'' [AStr out])]"
  note d = assms [unfolded Compile_def]
  show thesis
  proof (cases ?c)
    case (Some e)
    show thesis by (rule refused [of e]) (use d Some in simp_all)
  next
    case c: None
    then have v: "CompileRequest_validate req = None" "IsAbs out" by (simp_all add: first_err_checks require_None_iff)
    obtain genID where g: "CompileGenerationID dg req = Inr genID" using v by (simp add: CompileGenerationID_def)
    show thesis
    proof (cases "dk_fault dk MkdirAll out")
      case (Some e)
      show thesis by (rule refused [of "Wrapf ''runtime: Compile: %w'' [] e"]) (use d c g Some in simp_all)
    next
      case m: None
      obtain r1 dk1 where h: "compile_hosts dg req (mergePermissions (cq_Profiles req)) out (cq_Hosts req) dk = (r1, dk1)" by force
      show thesis
      proof (cases r1)
        case (Inl e)
        show thesis by (rule stopped [OF _ v, of e]) (use d c g m h Inl in simp_all)
      next
        case (Inr hp)
        then obtain hosts perHost where "r1 = Inr (hosts, perHost)" by (cases hp) auto
        then show thesis by (intro compiled [OF v g]) (use d c g m h in simp_all)
      qed
    qed
  qed
qed

lemma compiled_generation_simps [simp]:
  "gen_id (compiled_generation dg req genID hosts perHost) = genID"
  "gen_parent (compiled_generation dg req genID hosts perHost) = cq_Parent req"
  "gp_Sources (gn_Spec (compiled_generation dg req genID hosts perHost)) = fst (aggregateSources dg perHost)"
  "gp_SourceDigest (gn_Spec (compiled_generation dg req genID hosts perHost)) = snd (aggregateSources dg perHost)"
  by (simp_all add: compiled_generation_def case_prod_beta)

lemma Compile_Inr:
  assumes "Compile dg req out dk = (Inr gen, dk')"
  obtains perHost where "CompileRequest_validate req = None" "IsAbs out" "CompileGenerationID dg req = Inr (gen_id gen)"
    "freshSourceDigest_hosts req (mergePermissions (cq_Profiles req)) (cq_Hosts req) = Inr perHost"
    "gp_Sources (gn_Spec gen) = fst (aggregateSources dg perHost)" "gp_SourceDigest (gn_Spec gen) = snd (aggregateSources dg perHost)"
    "gen_parent gen = cq_Parent req" "ValidateGeneration gen = None" "dk_manifests dk' (manifestPath out) = Some (Doc gen)"
  using assms
proof (cases rule: Compile_cases)
  case (compiled genID hosts perHost dk1)
  from compiled(5) show thesis
    by (cases rule: finish_generation_cases) (use compiled that [of perHost] compile_hosts_fresh in auto)
qed simp_all

lemma Compile_frame:
  assumes "Compile dg req out dk = (r, dk')"
  shows "same_pointers dk dk'" "\<forall>p. p \<noteq> manifestPath out \<longrightarrow> dk_manifests dk' p = dk_manifests dk p"
proof -
  have "same_pointers dk dk' \<and> (\<forall>p. p \<noteq> manifestPath out \<longrightarrow> dk_manifests dk' p = dk_manifests dk p)"
    using assms
  proof (cases rule: Compile_cases)
    case (stopped e e')
    then show ?thesis using compile_hosts_pointers [OF stopped(4)] by simp
  next
    case (compiled genID hosts perHost dk1)
    then show ?thesis using compile_hosts_pointers [OF compiled(4)] finish_generation_frame [OF compiled(5)]
      by (auto intro: same_pointers_trans)
  qed simp
  then show "same_pointers dk dk'" "\<forall>p. p \<noteq> manifestPath out \<longrightarrow> dk_manifests dk' p = dk_manifests dk p" by simp_all
qed

lemma validate_request_hosts:
  "CompileRequest_validate req = None \<Longrightarrow> h \<in> set (cq_Hosts req) \<Longrightarrow> plain_elems [hd_Host (hc_Detection h)]"
  unfolding CompileRequest_validate_def first_err_checks
  by (blast intro: KnownHost_plain dest: validate_hosts_plain)

lemma Compile_files:
  assumes "Compile dg req out dk = (r, dk')" "\<forall>h \<in> set (cq_Hosts req). plain_elems [surfaceOf (hc_Detection h)]"
    and d: "dk_files dk' path \<noteq> dk_files dk path"
  shows "artifact_path out path"
proof -
  have hosts: "artifact_path out path"
    if "CompileRequest_validate req = None" "compile_hosts dg req (mergePermissions (cq_Profiles req)) out (cq_Hosts req) dk = (r1, dk1)"
      "dk_files dk1 path \<noteq> dk_files dk path" for r1 dk1
  proof -
    have "\<forall>h \<in> set (cq_Hosts req). plain_elems [hd_Host (hc_Detection h), surfaceOf (hc_Detection h)]"
      using assms(2) validate_request_hosts [OF that(1)] by simp
    from compile_hosts_frame [OF this that(2)] that(3) show ?thesis by blast
  qed
  from assms(1) show ?thesis
  proof (cases rule: Compile_cases)
    case (stopped e e')
    then show ?thesis using hosts [OF stopped(2,4)] d by simp
  next
    case (compiled genID hosts' perHost dk1)
    then show ?thesis using hosts [OF compiled(1,4)] finish_generation_frame(2) [OF compiled(5)] d by simp
  qed (use d in simp)
qed

lemma ReadGenerationManifest_written:
  "dk_manifests dk (manifestPath d) = Some (Doc gen) \<Longrightarrow> ValidateGeneration gen = None \<Longrightarrow>
   dk_fault dk ReadFile (manifestPath d) = None \<Longrightarrow> ReadGenerationManifest d dk = Inr gen"
  by (simp add: ReadGenerationManifest_def read_file_def)

lemma ReadGenerationManifest_Inr:
  "ReadGenerationManifest d dk = Inr gen \<longleftrightarrow>
   dk_fault dk ReadFile (manifestPath d) = None \<and> dk_manifests dk (manifestPath d) = Some (Doc gen) \<and> ValidateGeneration gen = None"
  by (auto simp: ReadGenerationManifest_def read_file_def split: option.splits jsonfile.splits)

lemma ensureCompiled_frame:
  assumes "ensureCompiled dg req out dk = (r, dk')"
  shows "same_pointers dk dk'"
proof (cases "ReadGenerationManifest out dk")
  case (Inl e)
  then show ?thesis using assms Compile_frame(1) by (cases e) (auto simp: ensureCompiled_def)
qed (use assms in \<open>auto simp: ensureCompiled_def\<close>)

lemma bisect_steps_frame:
  "bisect_steps dg breq base cands is dk = (r, dk') \<Longrightarrow> same_pointers dk dk' \<and> (br_DryRun breq \<longrightarrow> dk' = dk)"
proof (induction "is" arbitrary: dk r dk')
  case (Cons i "is")
  let ?req = "bisect_request (br_Compile breq) base cands i"
  show ?case
  proof (cases "CompileGenerationID dg ?req")
    case (Inl e)
    then show ?thesis using Cons.prems by (simp add: Let_def)
  next
    case (Inr genID)
    let ?out = "generationDirFor (br_GenerationsRoot breq) genID"
    obtain r1 dk1 where e: "ensureCompiled dg ?req ?out dk = (r1, dk1)" by force
    let ?dk = "if br_DryRun breq then dk else dk1"
    have s: "same_pointers dk ?dk" using ensureCompiled_frame [OF e] by simp
    obtain r2 dk2 where b: "bisect_steps dg breq base cands is ?dk = (r2, dk2)" by force
    have "dk' = ?dk \<or> dk' = dk2"
    proof (cases r1)
      case (Inl e')
      then show ?thesis using Cons.prems Inr e b by (cases r2; cases "br_DryRun breq") (auto simp: Let_def)
    next
      case r1: (Inr gen)
      then show ?thesis using Cons.prems Inr e b by (cases r2; cases "br_DryRun breq") (auto simp: Let_def)
    qed
    then show ?thesis
    proof
      assume "dk' = ?dk"
      then show ?thesis using s by simp
    next
      assume d: "dk' = dk2"
      have i: "same_pointers ?dk dk2 \<and> (br_DryRun breq \<longrightarrow> dk2 = ?dk)" by (rule Cons.IH [OF b])
      then have "same_pointers dk dk2" using same_pointers_trans [OF s] by blast
      with i d show ?thesis by auto
    qed
  qed
qed simp

lemma bisect_steps_plan:
  "bisect_steps dg breq base cands is dk = (Inr steps, dk') \<Longrightarrow>
     map bs_Index steps = is \<and> map bs_CandidateID steps = map (\<lambda>i. ob_ID (cands ! (i - 1))) is \<and>
     (\<forall>s \<in> set steps. CompileGenerationID dg (bisect_request (br_Compile breq) base cands (bs_Index s)) = Inr (bs_GenerationID s))"
proof (induction "is" arbitrary: dk steps dk')
  case (Cons i "is")
  from Cons.prems obtain genID dk1 steps' where
    "CompileGenerationID dg (bisect_request (br_Compile breq) base cands i) = Inr genID"
    "bisect_steps dg breq base cands is dk1 = (Inr steps', dk')"
    "\<exists>s. steps = s # steps' \<and> bs_Index s = i \<and> bs_CandidateID s = ob_ID (cands ! (i - 1)) \<and> bs_GenerationID s = genID"
    by (auto simp: Let_def split: sum.splits option.splits prod.splits if_splits)
  with Cons.IH show ?case by fastforce
qed simp

section \<open>A working disk\<close>

definition ok_source :: "GenerationSourceEntry \<Rightarrow> bool" where
  "ok_source s \<longleftrightarrow> gs_Concept s \<noteq> [] \<and> gs_Reason s \<noteq> [] \<and> (gs_CapabilityGap s \<longrightarrow> gs_TrackingIssue s \<noteq> [])"

lemma ok_source_valid: "validateGenerationSource i s = None \<longleftrightarrow> ok_source s"
  by (auto simp: validateGenerationSource_def ok_source_def first_err_checks require_None_iff)

lemma ok_source_simps [simp]:
  "ok_source (sandbox_entry b reason) \<longleftrightarrow> reason \<noteq> []"
  "ok_source (observation_entry ob b reason) \<longleftrightarrow> ob_Concept ob \<noteq> [] \<and> reason \<noteq> []"
  "ok_source (s\<lparr>gs_Host := h\<rparr>) \<longleftrightarrow> ok_source s"
  by (simp_all add: ok_source_def sandbox_entry_def observation_entry_def)

lemma classify_reason: "snd (classify ob) \<noteq> []"
  by (simp add: classify_def Let_def)

lemma compile_observations_ok:
  "compile_observations inp obs = Inr (entries, files) \<Longrightarrow> ht_Classify inp = classify \<Longrightarrow> \<forall>ob \<in> set obs. ob_Concept ob \<noteq> [] \<Longrightarrow>
   \<forall>s \<in> set entries. ok_source s"
proof (induction obs arbitrary: entries files)
  case (Cons ob obs)
  obtain entry fs es fs' where 1: "compile_observation inp ob = Inr (entry, fs)" "compile_observations inp obs = Inr (es, fs')" "entries = entry # es"
    using Cons.prems(1) by (auto split: sum.splits prod.splits)
  have "ok_source entry"
    using 1(1) Cons.prems(2,3) classify_reason [of ob]
    by (auto simp: compile_observation_def split: prod.splits if_splits option.splits sum.splits)
  with 1 Cons show ?case by auto
qed simp

lemma sandbox_ok: "resolveSandboxPermission host permissions = (v, Some e) \<Longrightarrow> ok_source e"
  by (auto simp: resolveSandboxPermission_def Let_def split: option.splits Intent.splits if_splits)

lemma hostConfigFiles_ok: "hostConfigFiles host home bin root permissions = Inr (files, sources) \<Longrightarrow> \<forall>s \<in> set sources. ok_source s"
  using sandbox_ok [of host permissions]
  by (cases "resolveSandboxPermission host permissions") (auto simp: hostConfigFiles_def Let_def split: if_splits option.splits)

lemma gap_sources_ok: "\<forall>s \<in> set claudeConfigDirExclusionGapSources. ok_source s"
  by (simp add: claudeConfigDirExclusionGapSources_def Let_def ok_source_def ClaudeConfigDirExclusionGapIssueURL_def)

lemma universe_kinds: "key \<in> set (universe_of ps act host) \<Longrightarrow> AssetKind_code (fst key) \<noteq> []"
  by (auto simp: universe_of_def collectUniverse_def collectProfileCandidates_def add_refs_def addSelection_def split: option.splits)

lemma resolved_kinds:
  assumes "Resolve ps act exs host now = Inr rs"
  shows "a \<in> set (rs_Assets rs) \<Longrightarrow> AssetKind_code (ra_Kind a) \<noteq> []" "c \<in> set (rs_Conflicts rs) \<Longrightarrow> AssetKind_code (cf_Kind c) \<noteq> []"
  using Resolve_assets [OF assms] decide_key universe_kinds by metis+

lemma resolvedAssetSources_ok:
  "Resolve ps act exs host now = Inr rs \<Longrightarrow> \<forall>s \<in> set (resolvedAssetSources rs). ok_source s"
  by (auto simp: resolvedAssetSources_def ok_source_def dest: resolved_kinds)

lemma compileHostTree_ok:
  assumes "compileHostTree inp = Inr (files, sources)" "ht_Classify inp = classify" "\<forall>ob \<in> set (ht_Observations inp). ob_Concept ob \<noteq> []"
  shows "\<forall>s \<in> set sources. ok_source s"
proof -
  obtain home where h: "NativeHomeDirName (ht_Host inp) = Inr home"
    using assms(1) by (cases "NativeHomeDirName (ht_Host inp)") (simp_all add: compileHostTree_def)
  obtain entries ofiles where o: "compile_observations inp (ht_Observations inp) = Inr (entries, ofiles)"
    using assms(1) h by (cases "compile_observations inp (ht_Observations inp)") (auto simp: compileHostTree_def)
  obtain cfiles perms where p: "hostConfigFiles (ht_Host inp) home (ht_OMCABinaryPath inp) (ht_WorktreeRoot inp) (ht_Permissions inp) = Inr (cfiles, perms)"
    using assms(1) h o by (cases "hostConfigFiles (ht_Host inp) home (ht_OMCABinaryPath inp) (ht_WorktreeRoot inp) (ht_Permissions inp)")
      (auto simp: compileHostTree_def)
  note c = o p
  have c3: "set sources \<subseteq> (\<lambda>s. s\<lparr>gs_Host := ht_Host inp\<rparr>) ` (set entries \<union> set perms \<union> set claudeConfigDirExclusionGapSources)"
    using assms(1) h o p by (auto simp: compileHostTree_def Let_def split: if_splits)
  have "\<forall>s \<in> set entries \<union> set perms \<union> set claudeConfigDirExclusionGapSources. ok_source s"
    using compile_observations_ok [OF c(1) assms(2,3)] hostConfigFiles_ok [OF c(2)] gap_sources_ok by blast
  with c3 show ?thesis by fastforce
qed

lemma hostSourcesFor_ok:
  assumes "hostSourcesFor req h permissions = Inr (files, sources)" "\<forall>ob \<in> set (hc_Observations h). ob_Concept ob \<noteq> []"
  shows "\<forall>s \<in> set sources. ok_source s"
proof -
  let ?inp = "\<lparr>ht_Host = hd_Host (hc_Detection h), ht_Surface = surfaceOf (hc_Detection h),
              ht_WorktreeRoot = wt_Root (cq_Worktree req), ht_Observations = hc_Observations h,
              ht_OMCABinaryPath = hc_OMCABinaryPath h, ht_Permissions = permissions, ht_Classify = classify\<rparr>"
  obtain rs ss where "Resolve (cq_Profiles req) (cq_Activation req) (cq_Exceptions req) (hd_Host (hc_Detection h)) (cq_Now req) = Inr rs"
    "compileHostTree ?inp = Inr (files, ss)" "sources = ss @ resolvedAssetSources rs"
    using assms(1) by (auto simp: hostSourcesFor_def split: sum.splits prod.splits)
  then show ?thesis using compileHostTree_ok [of ?inp files ss] resolvedAssetSources_ok assms(2) by auto
qed

lemma write_files_ok:
  "\<forall>call path. dk_fault dk call path = None \<Longrightarrow> \<exists>dk'. write_files out files dk = (None, dk') \<and> dk_fault dk' = dk_fault dk"
proof (induction files arbitrary: dk)
  case (Cons f files)
  let ?dk = "dk\<lparr>dk_files := (dk_files dk)(Join [out, gf_RelPath f] \<mapsto> gf_Content f)\<rparr>"
  have "\<forall>call path. dk_fault ?dk call path = None" using Cons.prems by simp
  from Cons.IH [OF this] obtain dk' where "write_files out files ?dk = (None, dk')" "dk_fault dk' = dk_fault ?dk" by blast
  moreover have "write_files out (f # files) dk = write_files out files ?dk" using Cons.prems by (simp add: Let_def)
  ultimately show ?case by simp
qed simp

lemma compile_hosts_ok:
  "freshSourceDigest_hosts req permissions hs = Inr perHost \<Longrightarrow> \<forall>call path. dk_fault dk call path = None \<Longrightarrow>
   \<exists>hosts dk'. compile_hosts dg req permissions out hs dk = (Inr (hosts, perHost), dk') \<and> dk_fault dk' = dk_fault dk \<and>
     (\<forall>p \<in> set hosts. \<exists>h \<in> set hs. \<exists>files. p = (hd_Host (hc_Detection h), host_entry dg (hc_Detection h) files)) \<and>
     (\<forall>p \<in> set perHost. \<exists>h \<in> set hs. \<exists>files. hostSourcesFor req h permissions = Inr (files, snd p))"
proof (induction hs arbitrary: dk perHost)
  case (Cons h hs)
  obtain files sources perHost' where s: "hostSourcesFor req h permissions = Inr (files, sources)"
    "freshSourceDigest_hosts req permissions hs = Inr perHost'" "perHost = (hd_Host (hc_Detection h), sources) # perHost'"
    using Cons.prems(1) by (auto split: sum.splits prod.splits)
  obtain dk1 where w: "write_files out files dk = (None, dk1)" "dk_fault dk1 = dk_fault dk"
    using write_files_ok [OF Cons.prems(2)] by blast
  then have f1: "\<forall>call path. dk_fault dk1 call path = None" using Cons.prems(2) by simp
  from Cons.IH [OF s(2) f1] obtain hosts dk' where ih:
    "compile_hosts dg req permissions out hs dk1 = (Inr (hosts, perHost'), dk')" "dk_fault dk' = dk_fault dk1"
    "\<forall>p \<in> set hosts. \<exists>h \<in> set hs. \<exists>files. p = (hd_Host (hc_Detection h), host_entry dg (hc_Detection h) files)"
    "\<forall>p \<in> set perHost'. \<exists>h \<in> set hs. \<exists>files. hostSourcesFor req h permissions = Inr (files, snd p)" by blast
  then have "compile_hosts dg req permissions out (h # hs) dk =
      (Inr ((hd_Host (hc_Detection h), host_entry dg (hc_Detection h) files) # hosts, perHost), dk')"
    using s w f1 by (simp add: Let_def)
  with ih s w show ?case by fastforce
qed simp

text \<open>What the validator of a generation asks of one compiled from good parts.\<close>

definition hex_digest :: "(json \<Rightarrow> string) \<Rightarrow> bool" where
  "hex_digest dg \<longleftrightarrow> (\<forall>v. length (dg v) = 64 \<and> set (dg v) \<subseteq> set lower_hex)"

lemma canonical_digest: "hex_digest dg \<Longrightarrow> IsCanonicalDigest (CanonicalDigest dg v)"
  unfolding CanonicalDigest_def IsCanonicalDigest_append by (auto simp: hex_digest_def)

lemma first_err_concat [go_check]: "first_err (concat rss) = None \<longleftrightarrow> (\<forall>rs \<in> set rss. first_err rs = None)"
  by (auto simp: first_err_None_iff)

lemma in_enumerate: "(i, x) \<in> set (enumerate n xs) \<Longrightarrow> x \<in> set xs"
  using set_zip_rightD by (fastforce simp: enumerate_eq_zip)

lemma compiled_generation_valid:
  assumes dg: "hex_digest dg" and req: "CompileRequest_validate req = None" and gid: "genID \<noteq> []"
    and packs: "\<forall>k \<in> set (cq_KnowledgePacks req). kp_ID k \<noteq> [] \<and> IsCanonicalDigest (kp_Digest k)"
    and hosts: "\<forall>p \<in> set hosts. \<exists>h \<in> set (cq_Hosts req). \<exists>files. p = (hd_Host (hc_Detection h), host_entry dg (hc_Detection h) files)"
    and src: "\<forall>p \<in> set perHost. \<forall>s \<in> set (snd p). ok_source s"
    and prof: "\<forall>p \<in> set (cq_Profiles req). pf_ID p \<noteq> []"
  shows "ValidateGeneration (compiled_generation dg req genID hosts perHost) = None"
proof -
  have h: "validateGenerationHost p = None" if "p \<in> set hosts" for p
  proof -
    from hosts that obtain h files where p: "h \<in> set (cq_Hosts req)" "p = (hd_Host (hc_Detection h), host_entry dg (hc_Detection h) files)" by blast
    have "ValidateHostID (hd_Host (hc_Detection h)) = None"
      using req p(1) validate_hosts_plain unfolding CompileRequest_validate_def first_err_checks by blast
    then show ?thesis
      by (simp add: p validateGenerationHost_def host_entry_def AdapterID_def ValidateOwnership_def first_err_checks require_None_iff wrap_err_None_iff)
  qed
  have w: "wt_ID (cq_Worktree req) \<noteq> []" using req by (simp add: CompileRequest_validate_def first_err_checks require_None_iff)
  obtain allSources sd where a: "aggregateSources dg perHost = (allSources, sd)" by force
  have s: "validateGenerationSource i s = None" if "(i, s) \<in> set (enumerate 0 allSources)" for i s
    using in_enumerate [OF that] src a by (auto simp: aggregateSources_def ok_source_valid)
  have sd: "IsCanonicalDigest sd" using a canonical_digest [OF dg] by (auto simp: aggregateSources_def)
  have ds: "validateDesiredState (desiredStateRef dg ps act exs) = None" if "\<forall>p \<in> set ps. pf_ID p \<noteq> []" for ps act exs
    using that canonical_digest [OF dg]
    by (auto simp: validateDesiredState_def desiredStateRef_def first_err_checks first_err_concat require_None_iff dest!: in_enumerate)
  have k: "kp_ID k \<noteq> [] \<and> IsCanonicalDigest (kp_Digest k)" if "(i, k) \<in> set (enumerate 0 (cq_KnowledgePacks req))" for i k
    using in_enumerate [OF that] packs by blast
  have gd: "IsCanonicalDigest (desiredGraphDigestFor dg ps act exs)" for ps act exs
    unfolding desiredGraphDigestFor_def by (rule canonical_digest [OF dg])
  then have gd': "desiredGraphDigestFor dg ps act exs \<noteq> []" for ps act exs using Empty_not_digest by metis
  show ?thesis
    unfolding ValidateGeneration_def compiled_generation_def a Let_def case_prod_conv
    using gid w h s sd k ds [OF prof]
    by (auto simp: gd gd' first_err_checks first_err_concat require_None_iff wrap_err_None_iff ValidateAPIVersion_def ValidateKind_def)
qed

text \<open>
  What a request needs beyond its own validator for a generation compiled from it to be valid: identifiers and
  digests where the manifest's validator wants them.
\<close>

definition compilable :: "CompileRequest \<Rightarrow> bool" where
  "compilable req \<longleftrightarrow>
     (\<forall>k \<in> set (cq_KnowledgePacks req). kp_ID k \<noteq> [] \<and> IsCanonicalDigest (kp_Digest k)) \<and>
     (\<forall>p \<in> set (cq_Profiles req). pf_ID p \<noteq> []) \<and>
     (\<forall>h \<in> set (cq_Hosts req). \<forall>ob \<in> set (hc_Observations h). ob_Concept ob \<noteq> [])"

lemma Compile_ok:
  assumes dg: "hex_digest dg" and d: "freshSourceDigest dg req = Inr d" and c: "compilable req"
    and disk: "\<forall>call path. dk_fault dk call path = None" and out: "IsAbs out"
  shows "\<exists>gen dk'. Compile dg req out dk = (Inr gen, dk') \<and> gp_SourceDigest (gn_Spec gen) = d"
proof -
  let ?perms = "mergePermissions (cq_Profiles req)"
  have v: "CompileRequest_validate req = None" using d by (simp add: freshSourceDigest_def split: option.splits)
  obtain perHost where p: "freshSourceDigest_hosts req ?perms (cq_Hosts req) = Inr perHost" "d = snd (aggregateSources dg perHost)"
    using d v by (auto simp: freshSourceDigest_def split: sum.splits)
  from compile_hosts_ok [OF p(1) disk] obtain hosts dk1 where h:
    "compile_hosts dg req ?perms out (cq_Hosts req) dk = (Inr (hosts, perHost), dk1)" "dk_fault dk1 = dk_fault dk"
    "\<forall>p \<in> set hosts. \<exists>h \<in> set (cq_Hosts req). \<exists>files. p = (hd_Host (hc_Detection h), host_entry dg (hc_Detection h) files)"
    "\<forall>p \<in> set perHost. \<exists>h \<in> set (cq_Hosts req). \<exists>files. hostSourcesFor req h ?perms = Inr (files, snd p)" by blast
  have src: "\<forall>p \<in> set perHost. \<forall>s \<in> set (snd p). ok_source s"
    using h(4) hostSourcesFor_ok c unfolding compilable_def by blast
  obtain genID where g: "CompileGenerationID dg req = Inr genID" "genID \<noteq> []" using v by (auto simp: CompileGenerationID_def)
  let ?gen = "compiled_generation dg req genID hosts perHost"
  have "ValidateGeneration ?gen = None"
    by (rule compiled_generation_valid [OF dg v g(2) _ h(3) src]) (use c in \<open>simp_all add: compilable_def\<close>)
  then obtain dk' where f: "finish_generation ''Compile'' out ?gen dk1 = (Inr ?gen, dk')"
    using h(2) disk by (simp add: finish_generation_def Let_def)
  have "out \<noteq> []" using out by auto
  then have "Compile dg req out dk = (Inr ?gen, dk')"
    using v out g(1) disk h(1) f by (simp add: Compile_def require_def)
  with p(2) show ?thesis by auto
qed

lemma freshSourceDigest_of_hosts:
  "CompileRequest_validate req = None \<Longrightarrow> freshSourceDigest_hosts req (mergePermissions (cq_Profiles req)) (cq_Hosts req) = Inr perHost \<Longrightarrow>
   freshSourceDigest dg req = Inr (snd (aggregateSources dg perHost))"
  by (simp add: freshSourceDigest_def)

section \<open>Sample inputs\<close>

fun sample_sha :: "json \<Rightarrow> string" where
  "sample_sha v = replicate 64 CHR ''0''"

definition sample_disk :: disk where
  "sample_disk = \<lparr>dk_links = Map.empty, dk_records = Map.empty, dk_manifests = Map.empty, dk_files = Map.empty,
     dk_ledgers = Map.empty, dk_locks = [], dk_fault = (\<lambda>_ _. None)\<rparr>"

definition sample_detection :: HostDetection where
  "sample_detection = \<lparr>hd_Host = ''codex'', hd_Surface = '''', hd_Platform = ''linux-amd64'', hd_Installed = True,
     hd_BinaryPath = ''/bin/codex'', hd_Version = ''1.0.0'', hd_NativeHomes = [], hd_Error = ''''\<rparr>"

definition sample_request :: "Observation list \<Rightarrow> string option \<Rightarrow> CompileRequest" where
  "sample_request obs parent =
     \<lparr>cq_Worktree = \<lparr>wt_ID = ''worktree:w'', wt_Root = ''/w'', wt_GitDir = '''', wt_MainRoot = ''''\<rparr>,
      cq_Hosts = [\<lparr>hc_Detection = sample_detection, hc_Observations = obs, hc_OMCABinaryPath = ''''\<rparr>],
      cq_Profiles = [],
      cq_Activation = \<lparr>ac_APIVersion = '''', ac_Kind = '''', ac_Worktree = ''w'', ac_Enable = \<lparr>as_Skills = [], as_MCPServers = []\<rparr>,
        ac_Disable = \<lparr>as_Skills = [], as_MCPServers = []\<rparr>, ac_Hosts = []\<rparr>,
      cq_Exceptions = [], cq_KnowledgePacks = [], cq_Now = 1000000000, cq_Parent = parent, cq_Invocation = ''''\<rparr>"

definition sample_instructions :: "Observation list" where
  "sample_instructions = [sample_instruction ''/w/b.md'' ''two'', sample_instruction ''/w/a.md'' ''one'']"

section \<open>Properties\<close>

text \<open>C31: compiling records what activation will recompute. The source digest of a freshly compiled generation is
the digest that \<^verbatim>\<open>freshSourceDigest\<close> computes from the same request, its identity is the request's, and the
manifest can be read back: asking for the same generation again returns it and writes nothing.\<close>

theorem compile_roundtrip:
  assumes "Compile dg req out dk = (Inr gen, dk')" "dk_fault dk ReadFile (manifestPath out) = None"
  shows "freshSourceDigest dg req = Inr (gp_SourceDigest (gn_Spec gen)) \<and> CompileGenerationID dg req = Inr (gen_id gen) \<and>
     gen_parent gen = cq_Parent req \<and> ReadGenerationManifest out dk' = Inr gen \<and> ensureCompiled dg req out dk' = (Inr gen, dk')"
  using assms(1)
proof (cases rule: Compile_Inr)
  case (1 perHost)
  have "dk_fault dk' = dk_fault dk" using Compile_frame(1) [OF assms(1)] by (simp add: same_pointers_def)
  then have "ReadGenerationManifest out dk' = Inr gen" using 1 assms(2) by (intro ReadGenerationManifest_written) simp_all
  then show ?thesis using 1 by (simp add: freshSourceDigest_def ensureCompiled_def)
qed

text \<open>C32: compilation is complete. On a disk where every call works, and with a digest that yields sixty-four
hexadecimal digits, a full compilation of a request with well-formed identifiers succeeds exactly when the source
digest of the request can be computed at all: no host tree that was assembled is refused by the manifest's
validator.\<close>

theorem compile_succeeds_iff:
  assumes "hex_digest dg" "compilable req" "\<forall>call path. dk_fault dk call path = None" "IsAbs out"
  shows "(\<exists>gen dk'. Compile dg req out dk = (Inr gen, dk')) \<longleftrightarrow> (\<exists>d. freshSourceDigest dg req = Inr d)"
  using Compile_ok [OF assms(1) _ assms(2-4)] by (blast elim: Compile_Inr dest: freshSourceDigest_of_hosts)

text \<open>A compilation writes only its own output directory: files at \<^verbatim>\<open>hosts/...\<close> below it and its manifest. No
pointer, record, ledger or lock changes, and no other generation's manifest.\<close>

theorem compile_confined:
  assumes "Compile dg req out dk = (r, dk')" "\<forall>h \<in> set (cq_Hosts req). plain_elems [surfaceOf (hc_Detection h)]"
  shows "dk_links dk' = dk_links dk \<and> dk_records dk' = dk_records dk \<and> dk_ledgers dk' = dk_ledgers dk \<and> dk_locks dk' = dk_locks dk \<and>
     (\<forall>path. dk_manifests dk' path \<noteq> dk_manifests dk path \<longrightarrow> path = manifestPath out) \<and>
     (\<forall>path. dk_files dk' path \<noteq> dk_files dk path \<longrightarrow>
        (\<exists>ts. plain_elems ts \<and> path = Join [out, join_with ''/'' (''hosts'' # ts)]))"
  using Compile_frame [OF assms(1)] Compile_files [OF assms] by (auto simp: same_pointers_def artifact_path_def)

text \<open>Bisection inspects. It never touches a pointer, record, ledger or lock, a dry run writes nothing at all,
and a plan has one step per candidate in the order of the candidates' identifiers, each naming the generation
compiled from the candidates up to it.\<close>

theorem bisect_is_inspection:
  assumes "Bisect dg breq dk = (r, dk')"
  shows "dk_links dk' = dk_links dk \<and> dk_records dk' = dk_records dk \<and> dk_ledgers dk' = dk_ledgers dk \<and> dk_locks dk' = dk_locks dk \<and>
     (br_DryRun breq \<longrightarrow> dk' = dk) \<and>
     (\<forall>plan. r = Inr plan \<longrightarrow>
        (\<exists>base. cq_Hosts (br_Compile breq) = [base] \<and>
          map bs_Index (bp_Steps plan) = [1..<Suc (length (hc_Observations base))] \<and>
          map bs_CandidateID (bp_Steps plan) = sort (map ob_ID (hc_Observations base)) \<and>
          (\<forall>s \<in> set (bp_Steps plan).
             CompileGenerationID dg (bisect_request (br_Compile breq) base (sort_key ob_ID (hc_Observations base)) (bs_Index s))
             = Inr (bs_GenerationID s))))"
proof (cases "\<exists>base. cq_Hosts (br_Compile breq) = [base]")
  case False
  then have "dk' = dk \<and> (\<exists>e. r = Inl e)" using assms by (auto simp: Bisect_def split: list.splits)
  then show ?thesis by auto
next
  case True
  then obtain base where b: "cq_Hosts (br_Compile breq) = [base]" by blast
  let ?c = "sort_key ob_ID (hc_Observations base)"
  obtain r1 dk1 where s: "bisect_steps dg breq base ?c [1..<Suc (length ?c)] dk = (r1, dk1)" by force
  have m: "map (\<lambda>i. ob_ID (?c ! (i - 1))) [1..<Suc (length ?c)] = sort (map ob_ID (hc_Observations base))"
  proof -
    have u: "[1..<Suc (length ?c)] = map Suc [0..<length ?c]" by (simp only: map_Suc_upt One_nat_def)
    have "map (\<lambda>i. ob_ID (?c ! (i - 1))) [1..<Suc (length ?c)] = map ob_ID ?c"
      unfolding u map_map o_def diff_Suc_1 by (rule nth_equalityI) simp_all
    also have "\<dots> = sort (map ob_ID (hc_Observations base))"
      by (rule properties_for_sort [symmetric]) simp_all
    finally show ?thesis .
  qed
  have "dk' = dk \<and> (\<exists>e. r = Inl e) \<or> dk' = dk1 \<and> ((\<exists>e. r = Inl e) \<or>
      (\<exists>steps. r1 = Inr steps \<and> r = Inr \<lparr>bp_Host = hd_Host (hc_Detection base), bp_DryRun = br_DryRun breq, bp_Steps = steps\<rparr>))"
    using assms b s by (cases r1) (auto simp: Bisect_def Let_def simp del: upt_Suc split: option.splits)
  then show ?thesis
  proof (elim disjE conjE exE)
    fix e assume "dk' = dk" "r = Inl e"
    then show ?thesis by simp
  next
    fix e assume "dk' = dk1" "r = Inl e"
    then show ?thesis using bisect_steps_frame [OF s] by (simp add: same_pointers_def)
  next
    fix steps assume d: "dk' = dk1" "r1 = Inr steps"
      and r: "r = Inr \<lparr>bp_Host = hd_Host (hc_Detection base), bp_DryRun = br_DryRun breq, bp_Steps = steps\<rparr>"
    show ?thesis
      using bisect_steps_frame [OF s] bisect_steps_plan [of dg breq base ?c _ dk steps dk1] s d r b m
      by (simp add: same_pointers_def del: upt_Suc)
  qed
qed

section \<open>Witnesses\<close>

lemma sample_sha_hex: "hex_digest sample_sha"
  by (auto simp: hex_digest_def lower_hex_def)

lemma sample_fresh: "\<exists>d. freshSourceDigest sample_sha (sample_request sample_instructions None) = Inr d"
proof -
  have "case freshSourceDigest sample_sha (sample_request sample_instructions None) of Inr d \<Rightarrow> True | Inl e \<Rightarrow> False" by code_simp
  then show ?thesis by (auto split: sum.splits)
qed

lemma sample_compilable: "compilable (sample_request sample_instructions None)"
  by (simp add: compilable_def sample_request_def sample_instructions_def sample_instruction_def)

lemma sample_compile: "\<exists>gen dk'. Compile sample_sha (sample_request sample_instructions None) ''/out'' sample_disk = (Inr gen, dk')"
proof -
  from sample_fresh obtain d where d: "freshSourceDigest sample_sha (sample_request sample_instructions None) = Inr d" by blast
  have w: "\<forall>call path. dk_fault sample_disk call path = None" "IsAbs ''/out''" by (simp_all add: sample_disk_def)
  from Compile_ok [OF sample_sha_hex d sample_compilable w] show ?thesis by blast
qed

lemma compile_roundtrip_witness:
  "\<exists>gen dk'. Compile sample_sha (sample_request sample_instructions None) ''/out'' sample_disk = (Inr gen, dk') \<and>
     ReadGenerationManifest ''/out'' dk' = Inr gen \<and>
     freshSourceDigest sample_sha (sample_request sample_instructions None) = Inr (gp_SourceDigest (gn_Spec gen))"
proof -
  from sample_compile obtain gen dk' where
    c: "Compile sample_sha (sample_request sample_instructions None) ''/out'' sample_disk = (Inr gen, dk')" by blast
  have "dk_fault sample_disk ReadFile (manifestPath ''/out'') = None" by (simp add: sample_disk_def)
  from compile_roundtrip [OF c this] c show ?thesis by blast
qed

lemma compile_succeeds_iff_witness:
  "\<exists>gen dk'. Compile sample_sha (sample_request sample_instructions None) ''/out'' sample_disk = (Inr gen, dk')"
proof -
  have w: "\<forall>call path. dk_fault sample_disk call path = None" "IsAbs ''/out''" by (simp_all add: sample_disk_def)
  from compile_succeeds_iff [OF sample_sha_hex sample_compilable w] sample_fresh show ?thesis by blast
qed

lemma compile_confined_witness:
  "\<exists>gen dk'. Compile sample_sha (sample_request sample_instructions None) ''/out'' sample_disk = (Inr gen, dk') \<and>
     dk_links dk' = Map.empty \<and> dk_ledgers dk' = Map.empty \<and> dk_manifests dk' ''/out2/manifest.json'' = None"
proof -
  from sample_compile obtain gen dk' where
    c: "Compile sample_sha (sample_request sample_instructions None) ''/out'' sample_disk = (Inr gen, dk')" by blast
  have p: "\<forall>h \<in> set (cq_Hosts (sample_request sample_instructions None)). plain_elems [surfaceOf (hc_Detection h)]"
    by (simp add: sample_request_def sample_detection_def surfaceOf_def defaultSurface_def)
  note f = compile_confined [OF c p]
  have "''/out2/manifest.json'' \<noteq> manifestPath ''/out''" by code_simp
  with f c show ?thesis by (auto simp: sample_disk_def)
qed

definition sample_bisect :: BisectRequest where
  "sample_bisect = \<lparr>br_Compile = sample_request sample_instructions None, br_GenerationsRoot = ''/g'', br_DryRun = True\<rparr>"

lemma bisect_is_inspection_witness:
  "\<exists>plan. Bisect sample_sha sample_bisect sample_disk = (Inr plan, sample_disk) \<and>
     map bs_Index (bp_Steps plan) = [1, 2] \<and>
     map bs_CandidateID (bp_Steps plan) = [''codex:instruction:/w/a.md'', ''codex:instruction:/w/b.md'']"
proof -
  obtain r dk' where b: "Bisect sample_sha sample_bisect sample_disk = (r, dk')" by force
  have "case fst (Bisect sample_sha sample_bisect sample_disk) of Inr plan \<Rightarrow> True | Inl e \<Rightarrow> False" by code_simp
  with b obtain plan where "r = Inr plan" by (auto split: sum.splits)
  with b bisect_is_inspection [OF b] show ?thesis
    by (auto simp: sample_bisect_def sample_request_def sample_instructions_def sample_instruction_def)
qed

end
