(* ===== verification/Runtime_Activation.thy ===== *)
theory Runtime_Activation
  imports Runtime_Generations
begin

text \<open>
  Switching generations (\<^verbatim>\<open>activate.go\<close>, \<^verbatim>\<open>rollback.go\<close>, \<^verbatim>\<open>restart.go\<close>, \<^verbatim>\<open>compatibility.go\<close>, and
  \<^verbatim>\<open>EnsureLaunchGeneration\<close> of \<^verbatim>\<open>current.go\<close>). Each operation takes the host's activation lock, reads what it
  needs, switches the pointer and writes the ledger. \<^verbatim>\<open>Activate\<close> calls a hook before each of its four steps; a
  hook may fail, which is how the program's own tests cut the sequence, and may change the disk, which is how
  the model lets another process run in between.
\<close>

section \<open>Compatibility with the detected host\<close>

definition validateCompiledHost :: "Generation \<Rightarrow> string \<Rightarrow> HostDetection \<Rightarrow> err option" where
  "validateCompiledHost gen host detection =
     (let missing = Some (Errorf ''generation %s has no compiled host target for %s; recompile and activate the desired runtime before rollback''
            [AStr (gen_id gen), AStr host])
      in case map_of (gp_Hosts (gn_Spec gen)) host of
           None \<Rightarrow> missing
         | Some entry \<Rightarrow>
             if gh_HostVersion entry = '''' \<or> gh_Surface entry = '''' then missing
             else if hd_Host detection \<noteq> host \<or> hd_Version detection = '''' \<or> hd_Error detection \<noteq> '''' then
               Some (Errorf ''cannot validate generation %s against unknown or mismatched host detection'' [AStr (gen_id gen)])
             else if gh_HostVersion entry \<noteq> hd_Version detection \<or> gh_Surface entry \<noteq> surfaceOf detection then
               Some (Errorf ''generation %s was compiled for %s/%s %s, detected %s/%s %s; recompile and activate the desired runtime''
                 [AStr (gen_id gen), AStr host, AStr (gh_Surface entry), AStr (gh_HostVersion entry),
                  AStr (hd_Host detection), AStr (surfaceOf detection), AStr (hd_Version detection)])
             else None)"

fun detectionForHost :: "HostCompileInput list \<Rightarrow> string \<Rightarrow> HostDetection option" where
  "detectionForHost [] host = None"
| "detectionForHost (h # hosts) host =
     (if hd_Host (hc_Detection h) = host then Some (hc_Detection h) else detectionForHost hosts host)"

section \<open>Activation\<close>

datatype ActivationStep = StepValidatePending | StepCASCheck | StepSwitchCurrent | StepAppendLedger

fun ActivationStep_code :: "ActivationStep \<Rightarrow> string" where
  "ActivationStep_code StepValidatePending = ''validate-pending''"
| "ActivationStep_code StepCASCheck = ''cas-check''"
| "ActivationStep_code StepSwitchCurrent = ''switch-current''"
| "ActivationStep_code StepAppendLedger = ''append-ledger''"

type_synonym StepHook = "ActivationStep \<Rightarrow> disk \<Rightarrow> err option \<times> disk"

definition runHook :: "StepHook option \<Rightarrow> ActivationStep \<Rightarrow> disk \<Rightarrow> err option \<times> disk" where
  "runHook hook step dk = (case hook of None \<Rightarrow> (None, dk) | Some f \<Rightarrow> f step dk)"

record ActivateRequest =
  aq_WorktreeStateDir :: string
  aq_Host :: string
  aq_Fresh :: CompileRequest
  aq_Now :: gotime
  aq_OnStep :: "StepHook option"

record ActivationResult =
  av_Host :: string
  av_PreviousGenerationID :: string
  av_ActivatedGenerationID :: string
  av_ActivatedAt :: string

text \<open>A step: the hook first, and the body on the disk it leaves.\<close>

definition hooked :: "ActivateRequest \<Rightarrow> ActivationStep \<Rightarrow> disk \<Rightarrow> (disk \<Rightarrow> (aerr + 'a) \<times> disk) \<Rightarrow> (aerr + 'a) \<times> disk" where
  "hooked req step dk body =
     (case runHook (aq_OnStep req) step dk of
        (Some e, dk1) \<Rightarrow> (Inl (Fail (Wrapf ''runtime: Activate: aborted at %s: %w'' [AStr (ActivationStep_code step)] e)), dk1)
      | (None, dk1) \<Rightarrow> body dk1)"

definition activate_validate :: "ActivateRequest \<Rightarrow> disk \<Rightarrow> aerr + string \<times> Generation \<times> string" where
  "activate_validate req dk =
     (let w = aq_WorktreeStateDir req; host = aq_Host req
      in case PendingGenerationDir w host dk of
        Inl e \<Rightarrow> Inl (Fail (Wrapf ''runtime: Activate: no pending generation for %s: %w'' [AStr host] (ioerr_err e)))
      | Inr pendingDir \<Rightarrow>
      (case ReadGenerationManifest pendingDir dk of
        Inl e \<Rightarrow> Inl (Fail (Wrapf ''runtime: Activate: pending generation manifest for %s at %s is unreadable: %w''
                   [AStr host, AStr pendingDir] (ioerr_err e)))
      | Inr pendingGen \<Rightarrow>
      (case CurrentGenerationDir w host dk of
        Inr prevDir \<Rightarrow>
          Inr (pendingDir, pendingGen, (case ReadGenerationManifest prevDir dk of Inr prevGen \<Rightarrow> gen_id prevGen | Inl e \<Rightarrow> ''''))
      | Inl NotExist \<Rightarrow> Inr (pendingDir, pendingGen, '''')
      | Inl (IOErr e) \<Rightarrow>
          Inl (Fail (Wrapf ''runtime: Activate: current-generation pointer for %s is corrupt: %w'' [AStr host] e)))))"

definition CASMismatchError_Error :: "string \<Rightarrow> string \<Rightarrow> string \<Rightarrow> string \<Rightarrow> string" where
  "CASMismatchError_Error host pendingID pendingDigest freshDigest = Sprintf
     ''runtime: Activate: %s: pending generation %s's source digest %s no longer matches a fresh recomputation (%s) -- the real environment changed since pending was compiled; recompile pending and try again''
     [AStr host, AStr pendingID, AStr pendingDigest, AStr freshDigest]"

definition activate_cas :: "(json \<Rightarrow> string) \<Rightarrow> ActivateRequest \<Rightarrow> Generation \<Rightarrow> disk \<Rightarrow> (aerr + unit) \<times> disk" where
  "activate_cas dg req pendingGen dk =
     (let w = aq_WorktreeStateDir req; host = aq_Host req
      in case freshSourceDigest dg (aq_Fresh req) of
        Inl e \<Rightarrow> (Inl (Fail (Wrapf ''runtime: Activate: recomputing a fresh source digest for %s: %w'' [AStr host] e)), dk)
      | Inr freshDigest \<Rightarrow>
          (let pendingDigest = gp_SourceDigest (gn_Spec pendingGen); pid = gen_id pendingGen in
           if freshDigest \<noteq> pendingDigest then
             (Inl (CASMismatch host pid pendingDigest freshDigest),
              snd (AppendLedgerEntry w host
                \<lparr>le_Host = host, le_GenerationID = pid, le_Kind = ''cas-rejected'', le_RecordedAt = RFC3339 (aq_Now req),
                 le_Detail = CASMismatchError_Error host pid pendingDigest freshDigest\<rparr> dk))
           else (Inr (), dk)))"

definition activate_switch :: "ActivateRequest \<Rightarrow> string \<Rightarrow> Generation \<Rightarrow> disk \<Rightarrow> (aerr + unit) \<times> disk" where
  "activate_switch req pendingDir pendingGen dk =
     (let w = aq_WorktreeStateDir req; host = aq_Host req
      in case detectionForHost (cq_Hosts (aq_Fresh req)) host of
        None \<Rightarrow> (Inl (Fail (Errorf ''runtime: Activate: Fresh.Hosts has no entry for host %q'' [AStr host])), dk)
      | Some detection \<Rightarrow>
      (case SetCurrentGeneration w host pendingDir pendingGen detection (aq_Now req) dk of
        (Some e, dk1) \<Rightarrow> (Inl (Fail (Wrapf ''runtime: Activate: switching current for %s: %w'' [AStr host] e)), dk1)
      | (None, dk1) \<Rightarrow> (Inr (), clearPendingGeneration w host dk1)))"

definition activate_ledger :: "ActivateRequest \<Rightarrow> Generation \<Rightarrow> string \<Rightarrow> disk \<Rightarrow> (aerr + ActivationResult) \<times> disk" where
  "activate_ledger req pendingGen previousGenID dk =
     (let host = aq_Host req
      in case AppendLedgerEntry (aq_WorktreeStateDir req) host
           \<lparr>le_Host = host, le_GenerationID = gen_id pendingGen, le_Kind = ''activated'', le_RecordedAt = RFC3339 (aq_Now req),
            le_Detail = Sprintf ''switched current from %q to %q'' [AStr previousGenID, AStr (gen_id pendingGen)]\<rparr> dk of
        (Some e, dk1) \<Rightarrow> (Inl (Fail (Wrapf ''runtime: Activate: appending ledger entry for %s: %w'' [AStr host] e)), dk1)
      | (None, dk1) \<Rightarrow>
          (Inr \<lparr>av_Host = host, av_PreviousGenerationID = previousGenID, av_ActivatedGenerationID = gen_id pendingGen,
                av_ActivatedAt = RFC3339 (aq_Now req)\<rparr>, dk1))"

text \<open>The four steps, under the lock.\<close>

definition activate_locked :: "(json \<Rightarrow> string) \<Rightarrow> ActivateRequest \<Rightarrow> disk \<Rightarrow> (aerr + ActivationResult) \<times> disk" where
  "activate_locked dg req dk =
     hooked req StepValidatePending dk (\<lambda>dk1.
       case activate_validate req dk1 of
         Inl e \<Rightarrow> (Inl e, dk1)
       | Inr (pendingDir, pendingGen, previousGenID) \<Rightarrow>
     hooked req StepCASCheck dk1 (\<lambda>dk2.
       case activate_cas dg req pendingGen dk2 of
         (Inl e, dk3) \<Rightarrow> (Inl e, dk3)
       | (Inr _, dk3) \<Rightarrow>
     hooked req StepSwitchCurrent dk3 (\<lambda>dk4.
       case activate_switch req pendingDir pendingGen dk4 of
         (Inl e, dk5) \<Rightarrow> (Inl e, dk5)
       | (Inr _, dk5) \<Rightarrow>
     hooked req StepAppendLedger dk5 (activate_ledger req pendingGen previousGenID))))"

definition Activate :: "(json \<Rightarrow> string) \<Rightarrow> ActivateRequest \<Rightarrow> disk \<Rightarrow> (aerr + ActivationResult) \<times> disk" where
  "Activate dg req dk =
     (let w = aq_WorktreeStateDir req; host = aq_Host req
      in case first_err
           [require (w \<noteq> '''') (Errorf ''runtime: Activate: WorktreeStateDir is required'' []),
            wrap_err ''runtime: Activate: %w'' [] (ValidateHostID host),
            require (aq_Now req \<noteq> 0) (Errorf ''runtime: Activate: Now is required (this package never reads the clock implicitly)'' [])] of
        Some e \<Rightarrow> (Inl (Fail e), dk)
      | None \<Rightarrow>
      (case acquireActivationLock w host dk of
        (Some e, dk1) \<Rightarrow> (Inl e, dk1)
      | (None, dk1) \<Rightarrow>
          (let (r, dk2) = activate_locked dg req dk1 in (r, activationLock_release w host dk2))))"

section \<open>Rollback\<close>

record RollbackResult =
  rb_Host :: string
  rb_RestoredGenerationID :: string
  rb_SupersededGenerationID :: string
  rb_RolledBackAt :: string

text \<open>What a rollback reads: the current generation and its parent's directory and manifest.\<close>

definition rollback_target ::
  "string \<Rightarrow> string \<Rightarrow> string \<Rightarrow> HostDetection \<Rightarrow> disk \<Rightarrow> err + Generation \<times> string \<times> Generation" where
  "rollback_target worktreeStateDir generationsRoot host detection dk =
     (case CurrentGenerationDir worktreeStateDir host dk of
        Inl NotExist \<Rightarrow> Inl (Wrapf ''runtime: Rollback: no current generation for %s to roll back from: %w'' [AStr host] (ioerr_err NotExist))
      | Inl (IOErr e) \<Rightarrow> Inl (Wrapf ''runtime: Rollback: current-generation pointer for %s is corrupt: %w'' [AStr host] e)
      | Inr currentDir \<Rightarrow>
      (case ReadGenerationManifest currentDir dk of
        Inl e \<Rightarrow> Inl (Wrapf ''runtime: Rollback: current generation manifest for %s at %s is unreadable: %w''
                   [AStr host, AStr currentDir] (ioerr_err e))
      | Inr currentGen \<Rightarrow>
          (let orphan = Inl (Errorf ''runtime: Rollback: current generation %s for %s has no parent generation recorded; nothing to roll back to''
                 [AStr (gen_id currentGen), AStr host])
           in case gen_parent currentGen of
             None \<Rightarrow> orphan
           | Some parentID \<Rightarrow>
               if parentID = '''' then orphan
               else (let parentDir = Join [generationsRoot, DirSafeID parentID]
                     in case ReadGenerationManifest parentDir dk of
                       Inl e \<Rightarrow> Inl (Wrapf ''runtime: Rollback: parent generation %s for %s is not available at %s (garbage-collected, or never compiled into this worktree's generationsRoot): %w''
                                  [AStr parentID, AStr host, AStr parentDir] (ioerr_err e))
                     | Inr parentGen \<Rightarrow>
                         if gen_id parentGen \<noteq> parentID then
                           Inl (Errorf ''runtime: Rollback: %s contains a manifest for generation %q, expected the parent %q''
                             [AStr parentDir, AStr (gen_id parentGen), AStr parentID])
                         else (case validateCompiledHost parentGen host detection of
                             Some e \<Rightarrow> Inl (Wrapf ''runtime: Rollback: %w'' [] e)
                           | None \<Rightarrow> Inr (currentGen, parentDir, parentGen))))))"

definition Rollback ::
  "string \<Rightarrow> string \<Rightarrow> string \<Rightarrow> HostDetection \<Rightarrow> gotime \<Rightarrow> disk \<Rightarrow> (aerr + RollbackResult) \<times> disk" where
  "Rollback worktreeStateDir generationsRoot host detection now dk =
     (case first_err
        [require (worktreeStateDir \<noteq> '''') (Errorf ''runtime: Rollback: worktreeStateDir is required'' []),
         require (generationsRoot \<noteq> '''') (Errorf ''runtime: Rollback: generationsRoot is required'' []),
         require (IsAbs generationsRoot) (Errorf ''runtime: Rollback: generationsRoot %q is not absolute'' [AStr generationsRoot]),
         wrap_err ''runtime: Rollback: %w'' [] (ValidateHostID host),
         require (now \<noteq> 0) (Errorf ''runtime: Rollback: now is required (this package never reads the clock implicitly)'' [])] of
        Some e \<Rightarrow> (Inl (Fail e), dk)
      | None \<Rightarrow>
      (case acquireActivationLock worktreeStateDir host dk of
        (Some e, dk1) \<Rightarrow> (Inl e, dk1)
      | (None, dk1) \<Rightarrow>
          (let release = activationLock_release worktreeStateDir host
           in case rollback_target worktreeStateDir generationsRoot host detection dk1 of
             Inl e \<Rightarrow> (Inl (Fail e), release dk1)
           | Inr (currentGen, parentDir, parentGen) \<Rightarrow>
           (case SetCurrentGeneration worktreeStateDir host parentDir parentGen detection now dk1 of
             (Some e, dk2) \<Rightarrow> (Inl (Fail (Wrapf ''runtime: Rollback: switching current for %s: %w'' [AStr host] e)), release dk2)
           | (None, dk2) \<Rightarrow>
           (case AppendLedgerEntry worktreeStateDir host
                \<lparr>le_Host = host, le_GenerationID = gen_id parentGen, le_Kind = ''rolledback'', le_RecordedAt = RFC3339 now,
                 le_Detail = Sprintf ''restored parent generation %q, superseding %q'' [AStr (gen_id parentGen), AStr (gen_id currentGen)]\<rparr> dk2 of
             (Some e, dk3) \<Rightarrow> (Inl (Fail (Wrapf ''runtime: Rollback: appending ledger entry for %s: %w'' [AStr host] e)), release dk3)
           | (None, dk3) \<Rightarrow>
               (Inr \<lparr>rb_Host = host, rb_RestoredGenerationID = gen_id parentGen, rb_SupersededGenerationID = gen_id currentGen,
                     rb_RolledBackAt = RFC3339 now\<rparr>, release dk3))))))"

section \<open>Launching\<close>

text \<open>
  What a launch does with the selected generation: use it, refuse, or (a bootstrap generation, without a
  desired state) refresh it.
\<close>

definition launch_selected :: "BootstrapRequest \<Rightarrow> string \<Rightarrow> string \<Rightarrow> disk \<Rightarrow> err + Generation option" where
  "launch_selected req worktreeStateDir currentDir dk =
     (let det = bq_Detection req; host = hd_Host det
      in case ReadGenerationManifest currentDir dk of
        Inl e \<Rightarrow> Inl (Wrapf ''runtime: current %s generation is unreadable; refusing to replace it with bootstrap: %w'' [AStr host] (ioerr_err e))
      | Inr current \<Rightarrow>
          if gm_Worktree (gn_Metadata current) \<noteq> wt_ID (bq_Worktree req) then
            Inl (Errorf ''runtime: current %s generation belongs to another worktree'' [AStr host])
          else (case map_of (gp_Hosts (gn_Spec current)) host of
            None \<Rightarrow> Inl (Errorf ''runtime: current generation does not contain host %s'' [AStr host])
          | Some entry \<Rightarrow>
              if gp_DesiredState (gn_Spec current) = None then Inr None
              else (case if gh_HostVersion entry \<noteq> '''' then validateCompiledHost current host det else None of
                Some e \<Rightarrow> Inl e
              | None \<Rightarrow>
                  (let inconsistent = Inl (Errorf
                         ''runtime: selected %s generation has missing or inconsistent activation evidence; restore its current pointer and record before launch'' [AStr host])
                   in case ReadCurrentRecord worktreeStateDir host dk of
                     Inl e \<Rightarrow> inconsistent
                   | Inr record \<Rightarrow>
                       if cr_GenerationID record \<noteq> gen_id current then inconsistent
                       else if cr_HostVersion record \<noteq> hd_Version det then
                         Inl (Errorf ''runtime: selected %s generation targets host version %s, installed %s; recompile and activate the desired runtime before launch''
                           [AStr host, AStr (cr_HostVersion record), AStr (hd_Version det)])
                       else Inr (Some current)))))"

definition EnsureLaunchGeneration ::
  "(json \<Rightarrow> string) \<Rightarrow> BootstrapRequest \<Rightarrow> string \<Rightarrow> disk \<Rightarrow> (aerr + Generation \<times> string) \<times> disk" where
  "EnsureLaunchGeneration dg req worktreeStateDir dk =
     (let det = bq_Detection req; host = hd_Host det
      in case first_err
        [BootstrapRequest_validate req,
         require (IsAbs worktreeStateDir) (Errorf ''runtime: EnsureLaunchGeneration: absolute worktree state directory is required'' [])] of
        Some e \<Rightarrow> (Inl (Fail e), dk)
      | None \<Rightarrow>
      (case acquireActivationLock worktreeStateDir host dk of
        (Some e, dk1) \<Rightarrow> (Inl e, dk1)
      | (None, dk1) \<Rightarrow>
          (let release = activationLock_release worktreeStateDir host;
               bootstrap =
                 (case EnsureGeneration dg req (Join [worktreeStateDir, ''generations'']) dk1 of
                    (Inl e, dk2) \<Rightarrow> (Inl (Fail e), release dk2)
                  | (Inr (gen, outputDir), dk2) \<Rightarrow>
                  (case SetCurrentGeneration worktreeStateDir host outputDir gen det (bq_Now req) dk2 of
                    (Some e, dk3) \<Rightarrow> (Inl (Fail e), release dk3)
                  | (None, dk3) \<Rightarrow> (Inr (gen, outputDir), release dk3)))
           in case CurrentGenerationDir worktreeStateDir host dk1 of
             Inl NotExist \<Rightarrow> bootstrap
           | Inl (IOErr e) \<Rightarrow> (Inl (Fail (Wrapf ''runtime: reading current %s generation: %w'' [AStr host] e)), release dk1)
           | Inr currentDir \<Rightarrow>
           (case launch_selected req worktreeStateDir currentDir dk1 of
             Inl e \<Rightarrow> (Inl (Fail e), release dk1)
           | Inr (Some current) \<Rightarrow> (Inr (current, currentDir), release dk1)
           | Inr None \<Rightarrow> bootstrap))))"

section \<open>Restarts\<close>

record RestartStatus =
  rq_Host :: string
  rq_SessionGenerationID :: string
  rq_CurrentGenerationID :: string
  rq_RestartRequired :: bool
  rq_Detail :: string

definition DetectRestartRequired :: "string \<Rightarrow> string \<Rightarrow> string \<Rightarrow> disk \<Rightarrow> err + RestartStatus" where
  "DetectRestartRequired worktreeStateDir host sessionGenerationID dk =
     (case first_err
        [require (worktreeStateDir \<noteq> '''') (Errorf ''runtime: DetectRestartRequired: worktreeStateDir is required'' []),
         wrap_err ''runtime: DetectRestartRequired: %w'' [] (ValidateHostID host),
         require (sessionGenerationID \<noteq> '''') (Errorf ''runtime: DetectRestartRequired: sessionGenerationID is required'' [])] of
        Some e \<Rightarrow> Inl e
      | None \<Rightarrow>
      (case CurrentGenerationDir worktreeStateDir host dk of
        Inl NotExist \<Rightarrow> Inr \<lparr>rq_Host = host, rq_SessionGenerationID = sessionGenerationID, rq_CurrentGenerationID = '''',
          rq_RestartRequired = False,
          rq_Detail = Sprintf ''%s has no current generation recorded in this worktree; cannot determine whether session generation %s is superseded''
            [AStr host, AStr sessionGenerationID]\<rparr>
      | Inl (IOErr e) \<Rightarrow> Inl (Wrapf ''runtime: DetectRestartRequired: current-generation pointer for %s is corrupt: %w'' [AStr host] e)
      | Inr currentDir \<Rightarrow>
      (case ReadGenerationManifest currentDir dk of
        Inl e \<Rightarrow> Inl (Wrapf ''runtime: DetectRestartRequired: current generation manifest for %s at %s is unreadable: %w''
                   [AStr host, AStr currentDir] (ioerr_err e))
      | Inr currentGen \<Rightarrow>
          (let required = gen_id currentGen \<noteq> sessionGenerationID
           in Inr \<lparr>rq_Host = host, rq_SessionGenerationID = sessionGenerationID, rq_CurrentGenerationID = gen_id currentGen,
                   rq_RestartRequired = required,
                   rq_Detail = (if required
                     then Sprintf ''%s session was launched with generation %s, but current is now %s; restart %s to pick up the activated change''
                            [AStr host, AStr sessionGenerationID, AStr (gen_id currentGen), AStr host]
                     else Sprintf ''%s session is running on current generation %s; no restart required'' [AStr host, AStr sessionGenerationID])\<rparr>))))"

section \<open>Lemmas\<close>

lemma acquireActivationLock_cases:
  assumes "acquireActivationLock w host dk = (r, dk')"
  obtains (refused) e where "r = Some e" "dk' = dk"
  | (held) "r = None" "activationLockPath w host \<notin> set (dk_locks dk)" "dk' = dk\<lparr>dk_locks := activationLockPath w host # dk_locks dk\<rparr>"
proof -
  let ?c = "wrap_err ''runtime: acquiring activation lock for %s: %w'' [AStr host]
       (first_err [dk_fault dk MkdirAll (Join [w, ''locks'']), dk_fault dk OpenLock (activationLockPath w host)])"
  show thesis
  proof (cases ?c)
    case (Some e)
    show thesis by (rule refused [of "Fail e"]) (use assms Some in \<open>simp_all add: acquireActivationLock_def\<close>)
  next
    case c: None
    show thesis
    proof (cases "activationLockPath w host \<in> set (dk_locks dk)")
      case True
      show thesis by (rule refused [of "ActivationInProgress w host"]) (use assms c True in \<open>simp_all add: acquireActivationLock_def\<close>)
    next
      case free: False
      show thesis
      proof (cases "dk_fault dk Flock (activationLockPath w host)")
        case None
        show thesis by (rule held) (use assms c free None in \<open>simp_all add: acquireActivationLock_def\<close>)
      next
        case (Some e)
        show thesis
          by (rule refused [of "Fail (Wrapf ''runtime: acquiring activation lock for %s: %w'' [AStr host] e)"])
            (use assms c free Some in \<open>simp_all add: acquireActivationLock_def\<close>)
      qed
    qed
  qed
qed

lemma acquire_busy:
  assumes "activationLockPath w host \<in> set (dk_locks dk)"
  shows "\<exists>e. acquireActivationLock w host dk = (Some e, dk)"
proof -
  obtain r dk' where a: "acquireActivationLock w host dk = (r, dk')" by force
  then show ?thesis by (cases rule: acquireActivationLock_cases) (use assms a in auto)
qed

lemma release_held: "p = activationLockPath w host \<Longrightarrow> p \<notin> set locks \<Longrightarrow> dk_locks (activationLock_release w host (dk\<lparr>dk_locks := p # locks\<rparr>)) = locks"
  by (simp add: activationLock_release_def)

lemma release_simps [simp]:
  "dk_links (activationLock_release w host dk) = dk_links dk" "dk_records (activationLock_release w host dk) = dk_records dk"
  "dk_manifests (activationLock_release w host dk) = dk_manifests dk" "dk_files (activationLock_release w host dk) = dk_files dk"
  "dk_ledgers (activationLock_release w host dk) = dk_ledgers dk" "dk_fault (activationLock_release w host dk) = dk_fault dk"
  "dk_locks (activationLock_release w host dk) = removeAll (activationLockPath w host) (dk_locks dk)"
  by (simp_all add: activationLock_release_def)

lemma AppendLedgerEntry_cases:
  assumes "AppendLedgerEntry w host entry dk = (r, dk')"
  obtains (failed) e where "r = Some e" "dk' = dk"
  | (appended) "r = None" "dk' = dk\<lparr>dk_ledgers := (dk_ledgers dk)(ledgerPath w host \<mapsto>
      (case dk_ledgers dk (ledgerPath w host) of None \<Rightarrow> [] | Some es \<Rightarrow> es) @ [Doc entry])\<rparr>"
proof -
  note d = assms [unfolded AppendLedgerEntry_def Let_def]
  show thesis
  proof (cases "fst (AppendLedgerEntry w host entry dk)")
    case None
    then have r: "r = None" using assms by simp
    show thesis by (rule appended [OF r]) (use d r in \<open>auto split: option.splits\<close>)
  next
    case (Some e)
    then have r: "r = Some e" using assms by simp
    show thesis by (rule failed [OF r]) (use d r in \<open>auto split: option.splits\<close>)
  qed
qed

lemma AppendLedgerEntry_frame:
  assumes "AppendLedgerEntry w host entry dk = (r, dk')"
  shows "dk_links dk' = dk_links dk" "dk_records dk' = dk_records dk" "dk_manifests dk' = dk_manifests dk" "dk_files dk' = dk_files dk"
    "dk_locks dk' = dk_locks dk" "dk_fault dk' = dk_fault dk"
  using assms by (cases rule: AppendLedgerEntry_cases; simp)+

lemma clearPendingGeneration_frame [simp]:
  "dk_manifests (clearPendingGeneration w host dk) = dk_manifests dk" "dk_files (clearPendingGeneration w host dk) = dk_files dk"
  "dk_ledgers (clearPendingGeneration w host dk) = dk_ledgers dk" "dk_locks (clearPendingGeneration w host dk) = dk_locks dk"
  "dk_fault (clearPendingGeneration w host dk) = dk_fault dk"
  by (simp_all add: clearPendingGeneration_def Let_def)

text \<open>The readers look at the disk only, not at the locks.\<close>

lemma readers_locks [simp]:
  "generationPointerDir w name host (dk\<lparr>dk_locks := ls\<rparr>) = generationPointerDir w name host dk"
  "readPointerRecord w name host (dk\<lparr>dk_locks := ls\<rparr>) = readPointerRecord w name host dk"
  "ReadGenerationManifest d (dk\<lparr>dk_locks := ls\<rparr>) = ReadGenerationManifest d dk"
  by (simp_all add: generationPointerDir_def readPointerRecord_def ReadGenerationManifest_def read_file_def)

lemma ReadGenerationManifest_cong:
  "dk_manifests dk = dk_manifests dk' \<Longrightarrow> dk_fault dk = dk_fault dk' \<Longrightarrow> ReadGenerationManifest d dk = ReadGenerationManifest d dk'"
  by (simp add: ReadGenerationManifest_def read_file_def)

lemma readers_release [simp]:
  "generationPointerDir w' name host' (activationLock_release w host dk) = generationPointerDir w' name host' dk"
  "ReadGenerationManifest d (activationLock_release w host dk) = ReadGenerationManifest d dk"
  by (auto intro: generationPointerDir_cong ReadGenerationManifest_cong)

text \<open>The directory a pointer names is absolute.\<close>

lemma generationPointerDir_abs:
  assumes "IsAbs w" "plain_elems [name]" "ValidateHostID host = None" "generationPointerDir w name host dk = Inr d"
  shows "IsAbs d \<and> Clean d = d"
proof -
  have pl: "plain_elems ([name] @ [host])" using assms(2) KnownHost_plain [OF assms(3)] by simp
  have "IsAbs (Dir (pointerLinkPath w name host))"
    unfolding pointerLinkPath_def using Dir_Join [OF assms(1) pl] assms(1) by simp
  then show ?thesis using assms(4)
    by (auto simp: generationPointerDir_def Let_def split: sum.splits if_splits)
qed

text \<open>The ways through the four steps. \<open>hook\<close> is the disk that the hook of a step leaves.\<close>

definition hook :: "ActivateRequest \<Rightarrow> ActivationStep \<Rightarrow> disk \<Rightarrow> disk" where
  "hook req step dk = snd (runHook (aq_OnStep req) step dk)"

lemma hooked_cases:
  assumes "hooked req step dk body = (r, dk')"
  obtains (aborted) e where "r = Inl e" "dk' = hook req step dk"
  | (ran) "fst (runHook (aq_OnStep req) step dk) = None" "body (hook req step dk) = (r, dk')"
proof -
  obtain o1 dk1 where h: "runHook (aq_OnStep req) step dk = (o1, dk1)" by force
  show thesis
  proof (cases o1)
    case None
    show thesis by (rule ran) (use assms h None in \<open>simp_all add: hooked_def hook_def\<close>)
  next
    case (Some e)
    show thesis
      by (rule aborted [of "Fail (Wrapf ''runtime: Activate: aborted at %s: %w'' [AStr (ActivationStep_code step)] e)"])
        (use assms h Some in \<open>simp_all add: hooked_def hook_def\<close>)
  qed
qed

lemma activate_cas_cases:
  assumes "activate_cas dg req gen dk = (r, dk')"
  obtains (unknown) e where "r = Inl (Fail e)" "dk' = dk" "\<exists>e. freshSourceDigest dg (aq_Fresh req) = Inl e"
  | (mismatch) d entry where "freshSourceDigest dg (aq_Fresh req) = Inr d" "d \<noteq> gp_SourceDigest (gn_Spec gen)"
      "r = Inl (CASMismatch (aq_Host req) (gen_id gen) (gp_SourceDigest (gn_Spec gen)) d)"
      "dk' = snd (AppendLedgerEntry (aq_WorktreeStateDir req) (aq_Host req) entry dk)" "le_Kind entry = ''cas-rejected''"
  | (fresh) "r = Inr ()" "dk' = dk" "freshSourceDigest dg (aq_Fresh req) = Inr (gp_SourceDigest (gn_Spec gen))"
proof (cases "freshSourceDigest dg (aq_Fresh req)")
  case (Inl e)
  then show thesis using assms unknown by (auto simp: activate_cas_def Let_def)
next
  case (Inr d)
  show thesis
  proof (cases "d = gp_SourceDigest (gn_Spec gen)")
    case True
    show thesis by (rule fresh) (use assms Inr True in \<open>simp_all add: activate_cas_def Let_def\<close>)
  next
    case False
    show thesis by (rule mismatch [OF Inr False, of
      "\<lparr>le_Host = aq_Host req, le_GenerationID = gen_id gen, le_Kind = ''cas-rejected'', le_RecordedAt = RFC3339 (aq_Now req),
        le_Detail = CASMismatchError_Error (aq_Host req) (gen_id gen) (gp_SourceDigest (gn_Spec gen)) d\<rparr>"])
      (use assms Inr False in \<open>simp_all add: activate_cas_def Let_def\<close>)
  qed
qed

lemma activate_switch_cases:
  assumes "activate_switch req pd gen dk = (r, dk')"
  obtains (unknown) e where "r = Inl e" "dk' = dk" "detectionForHost (cq_Hosts (aq_Fresh req)) (aq_Host req) = None"
  | (failed) det e e' where "r = Inl e" "detectionForHost (cq_Hosts (aq_Fresh req)) (aq_Host req) = Some det"
      "SetCurrentGeneration (aq_WorktreeStateDir req) (aq_Host req) pd gen det (aq_Now req) dk = (Some e', dk')"
  | (switched) det dk1 where "r = Inr ()" "detectionForHost (cq_Hosts (aq_Fresh req)) (aq_Host req) = Some det"
      "SetCurrentGeneration (aq_WorktreeStateDir req) (aq_Host req) pd gen det (aq_Now req) dk = (None, dk1)"
      "dk' = clearPendingGeneration (aq_WorktreeStateDir req) (aq_Host req) dk1"
proof (cases "detectionForHost (cq_Hosts (aq_Fresh req)) (aq_Host req)")
  case None
  then show thesis using assms unknown by (auto simp: activate_switch_def Let_def)
next
  case (Some det)
  obtain r1 dk1 where s: "SetCurrentGeneration (aq_WorktreeStateDir req) (aq_Host req) pd gen det (aq_Now req) dk = (r1, dk1)" by force
  show thesis
  proof (cases r1)
    case None
    then show thesis using assms Some s switched [OF _ Some, of dk1] by (simp add: activate_switch_def Let_def)
  next
    case r1: (Some e)
    then show thesis using assms Some s failed [OF _ Some] by (auto simp: activate_switch_def Let_def)
  qed
qed

lemma activate_ledger_cases:
  assumes "activate_ledger req gen prev dk = (r, dk')"
  obtains (failed) e where "r = Inl e" "dk' = dk"
  | (logged) entry where "r = Inr \<lparr>av_Host = aq_Host req, av_PreviousGenerationID = prev, av_ActivatedGenerationID = gen_id gen,
          av_ActivatedAt = RFC3339 (aq_Now req)\<rparr>"
      "le_Host entry = aq_Host req" "le_GenerationID entry = gen_id gen" "le_Kind entry = ''activated''"
      "AppendLedgerEntry (aq_WorktreeStateDir req) (aq_Host req) entry dk = (None, dk')"
proof -
  let ?entry = "\<lparr>le_Host = aq_Host req, le_GenerationID = gen_id gen, le_Kind = ''activated'', le_RecordedAt = RFC3339 (aq_Now req),
            le_Detail = Sprintf ''switched current from %q to %q'' [AStr prev, AStr (gen_id gen)]\<rparr>"
  obtain r1 dk1 where a: "AppendLedgerEntry (aq_WorktreeStateDir req) (aq_Host req) ?entry dk = (r1, dk1)" by force
  from a show thesis
  proof (cases rule: AppendLedgerEntry_cases)
    case (failed e)
    then show thesis using assms a that(1) by (auto simp: activate_ledger_def Let_def simp del: Sprintf.simps)
  next
    case appended
    show thesis by (rule logged [of ?entry]) (use assms a appended(1) in \<open>simp_all add: activate_ledger_def Let_def del: Sprintf.simps\<close>)
  qed
qed

lemma activate_locked_cases:
  assumes "activate_locked dg req dk = (r, dk')"
  obtains (unvalidated) e where "r = Inl e" "dk' = hook req StepValidatePending dk"
  | (uncompared) pd gen prev e where "activate_validate req (hook req StepValidatePending dk) = Inr (pd, gen, prev)" "r = Inl e"
      "dk' = hook req StepCASCheck (hook req StepValidatePending dk)"
  | (rejected) pd gen prev e where "activate_validate req (hook req StepValidatePending dk) = Inr (pd, gen, prev)" "r = Inl e"
      "activate_cas dg req gen (hook req StepCASCheck (hook req StepValidatePending dk)) = (Inl e, dk')"
  | (unswitched) pd gen prev dk3 e where "activate_validate req (hook req StepValidatePending dk) = Inr (pd, gen, prev)"
      "activate_cas dg req gen (hook req StepCASCheck (hook req StepValidatePending dk)) = (Inr (), dk3)" "r = Inl e"
      "dk' = hook req StepSwitchCurrent dk3"
  | (failed) pd gen prev dk3 e where "activate_validate req (hook req StepValidatePending dk) = Inr (pd, gen, prev)"
      "activate_cas dg req gen (hook req StepCASCheck (hook req StepValidatePending dk)) = (Inr (), dk3)" "r = Inl e"
      "activate_switch req pd gen (hook req StepSwitchCurrent dk3) = (Inl e, dk')"
  | (unlogged) pd gen prev dk3 dk5 e where "activate_validate req (hook req StepValidatePending dk) = Inr (pd, gen, prev)"
      "activate_cas dg req gen (hook req StepCASCheck (hook req StepValidatePending dk)) = (Inr (), dk3)"
      "activate_switch req pd gen (hook req StepSwitchCurrent dk3) = (Inr (), dk5)" "r = Inl e" "dk' = hook req StepAppendLedger dk5"
  | (logged) pd gen prev dk3 dk5 where "activate_validate req (hook req StepValidatePending dk) = Inr (pd, gen, prev)"
      "activate_cas dg req gen (hook req StepCASCheck (hook req StepValidatePending dk)) = (Inr (), dk3)"
      "activate_switch req pd gen (hook req StepSwitchCurrent dk3) = (Inr (), dk5)"
      "activate_ledger req gen prev (hook req StepAppendLedger dk5) = (r, dk')"
  using assms [unfolded activate_locked_def]
proof (cases rule: hooked_cases)
  case aborted
  then show thesis by (rule unvalidated)
next
  case ran
  let ?dk1 = "hook req StepValidatePending dk"
  show thesis
  proof (cases "activate_validate req ?dk1")
    case (Inl e)
    then show thesis using ran unvalidated by auto
  next
    case (Inr v)
    then obtain pd gen prev where v: "activate_validate req ?dk1 = Inr (pd, gen, prev)" by (cases v) auto
    note ran2 = ran(2) [unfolded v sum.case prod.case]
    from ran2 show thesis
    proof (cases rule: hooked_cases)
      case (aborted e)
      then show thesis by (rule uncompared [OF v])
    next
      case ran
      obtain r3 dk3 where c: "activate_cas dg req gen (hook req StepCASCheck ?dk1) = (r3, dk3)" by force
      show thesis
      proof (cases r3)
        case (Inl e)
        then show thesis using ran(2) c rejected [OF v] by auto
      next
        case (Inr u)
        then have c: "activate_cas dg req gen (hook req StepCASCheck ?dk1) = (Inr (), dk3)" using c by simp
        from ran(2) [unfolded c prod.case sum.case] show thesis
        proof (cases rule: hooked_cases)
          case (aborted e)
          then show thesis by (rule unswitched [OF v c])
        next
          case ran
          obtain r5 dk5 where s: "activate_switch req pd gen (hook req StepSwitchCurrent dk3) = (r5, dk5)" by force
          show thesis
          proof (cases r5)
            case (Inl e)
            then show thesis using ran(2) s failed [OF v c] by auto
          next
            case (Inr u)
            then have s: "activate_switch req pd gen (hook req StepSwitchCurrent dk3) = (Inr (), dk5)" using s by simp
            from ran(2) [unfolded s prod.case sum.case] show thesis
              by (cases rule: hooked_cases) (auto intro: unlogged [OF v c s] logged [OF v c s])
          qed
        qed
      qed
    qed
  qed
qed

lemma Activate_cases:
  assumes "Activate dg req dk = (r, dk')"
  obtains (refused) e where "r = Inl e" "dk' = dk"
  | (ran) dk2 where "aq_WorktreeStateDir req \<noteq> []" "ValidateHostID (aq_Host req) = None"
      "activationLockPath (aq_WorktreeStateDir req) (aq_Host req) \<notin> set (dk_locks dk)"
      "activate_locked dg req (dk\<lparr>dk_locks := activationLockPath (aq_WorktreeStateDir req) (aq_Host req) # dk_locks dk\<rparr>) = (r, dk2)"
      "dk' = activationLock_release (aq_WorktreeStateDir req) (aq_Host req) dk2"
proof -
  let ?w = "aq_WorktreeStateDir req" and ?host = "aq_Host req"
  let ?c = "first_err
           [require (?w \<noteq> '''') (Errorf ''runtime: Activate: WorktreeStateDir is required'' []),
            wrap_err ''runtime: Activate: %w'' [] (ValidateHostID ?host),
            require (aq_Now req \<noteq> 0) (Errorf ''runtime: Activate: Now is required (this package never reads the clock implicitly)'' [])]"
  note d = assms [unfolded Activate_def Let_def]
  show thesis
  proof (cases ?c)
    case (Some e)
    show thesis by (rule refused [of "Fail e"]) (use d Some in simp_all)
  next
    case c: None
    then have v: "?w \<noteq> []" "ValidateHostID ?host = None" by (simp_all add: first_err_checks require_None_iff wrap_err_None_iff)
    obtain r1 dk1 where a: "acquireActivationLock ?w ?host dk = (r1, dk1)" by force
    from a show thesis
    proof (cases rule: acquireActivationLock_cases)
      case (refused e)
      show thesis by (rule that(1) [of e]) (use d c a refused in simp_all)
    next
      case held
      obtain r2 dk2 where l: "activate_locked dg req dk1 = (r2, dk2)" by force
      show thesis by (rule ran [OF v, of dk2]) (use d c a l held in simp_all)
    qed
  qed
qed

text \<open>A disk after the lock was taken and given back is the disk before.\<close>

lemma release_acquired [simp]:
  "activationLockPath w host \<notin> set (dk_locks dk) \<Longrightarrow>
   activationLock_release w host (dk\<lparr>dk_locks := activationLockPath w host # dk_locks dk\<rparr>) = dk"
  by (simp add: activationLock_release_def)

lemma activate_validate_Inr:
  assumes "activate_validate req dk = Inr (pd, gen, prev)"
  shows "PendingGenerationDir (aq_WorktreeStateDir req) (aq_Host req) dk = Inr pd" "ReadGenerationManifest pd dk = Inr gen"
  using assms by (auto simp: activate_validate_def Let_def split: sum.splits ioerr.splits)

lemma pointer_other:
  assumes "IsAbs w" "ValidateHostID host = None"
  shows "pointerLinkPath w ''current'' host \<noteq> pointerLinkPath w ''pending'' host"
  using pointerLinkPath_inj [OF assms(1) assms(1), of "''current''" host "''pending''" host] KnownHost_plain [OF assms(2)] by auto

lemma current_after_clear:
  assumes "IsAbs w" "ValidateHostID host = None"
  shows "CurrentGenerationDir w host (clearPendingGeneration w host dk) = CurrentGenerationDir w host dk"
  unfolding CurrentGenerationDir_def
  by (rule generationPointerDir_cong) (use pointer_other [OF assms] in \<open>simp_all add: clearPendingGeneration_def Let_def\<close>)

lemma current_cong:
  "dk_links dk = dk_links dk' \<Longrightarrow> dk_fault dk = dk_fault dk' \<Longrightarrow> CurrentGenerationDir w host dk = CurrentGenerationDir w host dk'"
  unfolding CurrentGenerationDir_def by (rule generationPointerDir_cong) simp_all

lemma current_after_ledger:
  "AppendLedgerEntry w' host' entry dk = (r, dk') \<Longrightarrow> CurrentGenerationDir w host dk' = CurrentGenerationDir w host dk"
  using AppendLedgerEntry_frame [of w' host' entry dk r dk'] by (auto intro: current_cong)

lemma SetCurrentGeneration_current:
  assumes "pointer_ok (w, ''current'', host) dk" "IsAbs gdir" "SetCurrentGeneration w host gdir gen det now dk = (r, dk')"
  shows "CurrentGenerationDir w host dk' \<in> {CurrentGenerationDir w host dk, Inr (Clean gdir)}"
    and "r = None \<Longrightarrow> CurrentGenerationDir w host dk' = Inr (Clean gdir)"
    and "pointer_ok (w, ''current'', host) dk'"
proof -
  have s: "write_pointer (w, ''current'', host) (gdir, gen, det, now) dk = (r, dk')" using assms(3) by (simp add: SetCurrentGeneration_def)
  show "CurrentGenerationDir w host dk' \<in> {CurrentGenerationDir w host dk, Inr (Clean gdir)}"
    using store.read_failed [OF assms(1), of "(gdir, gen, det, now)"] assms(2) s
    by (simp add: CurrentGenerationDir_def del: write_pointer.simps)
  show "CurrentGenerationDir w host dk' = Inr (Clean gdir)" if "r = None"
    using store.read_written [OF assms(1), of "(gdir, gen, det, now)" dk'] assms(2) s that
    by (simp add: CurrentGenerationDir_def del: write_pointer.simps)
  show "pointer_ok (w, ''current'', host) dk'"
    using store.ok_put [OF assms(1), of "(w, ''current'', host)" "(gdir, gen, det, now)"] s by (simp del: write_pointer.simps pointer_ok.simps)
qed

text \<open>Switching moves the current pointer to the pending directory, or leaves it.\<close>

lemma activate_switch_current:
  assumes ok: "pointer_ok (aq_WorktreeStateDir req, ''current'', aq_Host req) dk" and pd: "IsAbs pd" "Clean pd = pd"
    and s: "activate_switch req pd gen dk = (r, dk')"
  shows "CurrentGenerationDir (aq_WorktreeStateDir req) (aq_Host req) dk' \<in>
           {CurrentGenerationDir (aq_WorktreeStateDir req) (aq_Host req) dk, Inr pd}"
    and "r = Inr () \<Longrightarrow> CurrentGenerationDir (aq_WorktreeStateDir req) (aq_Host req) dk' = Inr pd"
  using s SetCurrentGeneration_current [OF ok pd(1)] ok pd(2) current_after_clear
  by (cases rule: activate_switch_cases; auto)+

section \<open>Properties\<close>

text \<open>What a hook must leave alone for the current pointer to be the activation's own.\<close>

definition hook_keeps_current :: "ActivateRequest \<Rightarrow> bool" where
  "hook_keeps_current req \<longleftrightarrow>
     (\<forall>step d. CurrentGenerationDir (aq_WorktreeStateDir req) (aq_Host req) (hook req step d) =
                 CurrentGenerationDir (aq_WorktreeStateDir req) (aq_Host req) d \<and>
               dk_fault (hook req step d) = dk_fault d)"

lemma activate_locked_current:
  assumes ok: "pointer_ok (aq_WorktreeStateDir req, ''current'', aq_Host req) dk" and hk: "hook_keeps_current req"
    and a: "activate_locked dg req dk = (r, dk')"
  defines "dk1 \<equiv> hook req StepValidatePending dk"
  defines "cur \<equiv> CurrentGenerationDir (aq_WorktreeStateDir req) (aq_Host req)"
  shows "(\<exists>e. r = Inl e) \<and> cur dk' = cur dk \<or>
    (\<exists>pd gen. PendingGenerationDir (aq_WorktreeStateDir req) (aq_Host req) dk1 = Inr pd \<and> ReadGenerationManifest pd dk1 = Inr gen \<and>
       freshSourceDigest dg (aq_Fresh req) = Inr (gp_SourceDigest (gn_Spec gen)) \<and> cur dk' = Inr pd \<and>
       (\<forall>res. r = Inr res \<longrightarrow> av_ActivatedGenerationID res = gen_id gen))"
proof -
  let ?w = "aq_WorktreeStateDir req" and ?host = "aq_Host req"
  have w: "IsAbs ?w" "ValidateHostID ?host = None" using ok by simp_all
  have k: "cur (hook req step d) = cur d" "dk_fault (hook req step d) = dk_fault d" for step d
    using hk by (simp_all add: hook_keeps_current_def cur_def)
  have ok': "pointer_ok (?w, ''current'', ?host) d" if "dk_fault d = dk_fault dk" for d using ok that by simp
  have v: "PendingGenerationDir ?w ?host dk1 = Inr pd \<and> ReadGenerationManifest pd dk1 = Inr gen \<and> IsAbs pd \<and> Clean pd = pd"
    if "activate_validate req dk1 = Inr (pd, gen, prev)" for pd gen prev
    using activate_validate_Inr [OF that] generationPointerDir_abs [OF w(1) _ w(2), of "''pending''" dk1 pd]
    by (simp add: PendingGenerationDir_def)
  have c: "cur d' = cur d" if "activate_cas dg req gen d = (Inl e, d')" for gen d e d'
    using that current_after_ledger unfolding cur_def
    by (cases rule: activate_cas_cases) (simp_all, metis prod.collapse)
  have f: "d' = d \<and> freshSourceDigest dg (aq_Fresh req) = Inr (gp_SourceDigest (gn_Spec gen))" if "activate_cas dg req gen d = (Inr u, d')" for gen d u d'
    using that by (cases rule: activate_cas_cases) simp_all
  note sw = activate_switch_current [OF ok']
  from a show ?thesis
  proof (cases rule: activate_locked_cases)
    case (unvalidated e)
    then show ?thesis by (simp add: k)
  next
    case (uncompared pd gen prev e)
    then show ?thesis by (simp add: k)
  next
    case (rejected pd gen prev e)
    then show ?thesis using c [OF rejected(3)] by (simp add: k)
  next
    case (unswitched pd gen prev dk3 e)
    then show ?thesis using f [OF unswitched(2)] by (simp add: k)
  next
    case (failed pd gen prev dk3 e)
    note v1 = v [folded dk1_def, OF failed(1) [folded dk1_def]] and f1 = f [OF failed(2)]
    have "cur dk' \<in> {cur dk, Inr pd}"
      using sw(1) [OF _ _ _ failed(4)] v1 f1 by (simp add: k flip: cur_def)
    then show ?thesis using v1 f1 failed(3) by auto
  next
    case (unlogged pd gen prev dk3 dk5 e)
    note v1 = v [folded dk1_def, OF unlogged(1) [folded dk1_def]] and f1 = f [OF unlogged(2)]
    have "cur dk5 = Inr pd"
      using sw(2) [OF _ _ _ unlogged(3)] v1 f1 by (simp add: k flip: cur_def)
    then show ?thesis using v1 f1 unlogged(4,5) by (auto simp: k)
  next
    case (logged pd gen prev dk3 dk5)
    note v1 = v [folded dk1_def, OF logged(1) [folded dk1_def]] and f1 = f [OF logged(2)]
    have "cur dk5 = Inr pd"
      using sw(2) [OF _ _ _ logged(3)] v1 f1 by (simp add: k flip: cur_def)
    moreover have "cur dk' = cur (hook req StepAppendLedger dk5) \<and> (\<forall>res. r = Inr res \<longrightarrow> av_ActivatedGenerationID res = gen_id gen)"
      using logged(4) by (cases rule: activate_ledger_cases) (auto simp: cur_def current_after_ledger)
    ultimately show ?thesis using v1 f1 by (auto simp: k)
  qed
qed

text \<open>C5: activation is all or nothing. Whatever fails on the way, and whatever the hooks do to the rest of the
disk, the current pointer afterwards is the one before, or it names the pending generation that was read and
validated under the lock and whose source digest equals the one just recomputed; a reported success is always
the latter, and reports that generation.\<close>

theorem activation_switches_only_validated:
  assumes "pointer_ok (aq_WorktreeStateDir req, ''current'', aq_Host req) dk" "hook_keeps_current req"
    and "Activate dg req dk = (r, dk')"
  shows "let w = aq_WorktreeStateDir req; host = aq_Host req;
             dk1 = hook req StepValidatePending (dk\<lparr>dk_locks := activationLockPath w host # dk_locks dk\<rparr>)
    in (\<exists>e. r = Inl e) \<and> CurrentGenerationDir w host dk' = CurrentGenerationDir w host dk \<or>
       (\<exists>pd gen. PendingGenerationDir w host dk1 = Inr pd \<and> ReadGenerationManifest pd dk1 = Inr gen \<and>
          freshSourceDigest dg (aq_Fresh req) = Inr (gp_SourceDigest (gn_Spec gen)) \<and>
          CurrentGenerationDir w host dk' = Inr pd \<and> (\<forall>res. r = Inr res \<longrightarrow> av_ActivatedGenerationID res = gen_id gen))"
  using assms(3)
proof (cases rule: Activate_cases)
  case (refused e)
  then show ?thesis by simp
next
  case (ran dk2)
  let ?dk = "dk\<lparr>dk_locks := activationLockPath (aq_WorktreeStateDir req) (aq_Host req) # dk_locks dk\<rparr>"
  have "pointer_ok (aq_WorktreeStateDir req, ''current'', aq_Host req) ?dk" using assms(1) by simp
  from activate_locked_current [OF this assms(2) ran(4)] show ?thesis
    using ran(5) by (simp add: CurrentGenerationDir_def Let_def)
qed

text \<open>C14: a stale pending generation is refused. When the recomputed source digest differs from the pending one,
activation fails and changes no pointer, record, manifest, file or lock; the ledger is left alone or gains one
entry that says so.\<close>

theorem activation_refuses_stale:
  assumes "\<forall>step d. hook req step d = d"
    and "PendingGenerationDir (aq_WorktreeStateDir req) (aq_Host req) dk = Inr pd" "ReadGenerationManifest pd dk = Inr gen"
    and "freshSourceDigest dg (aq_Fresh req) = Inr digest" "digest \<noteq> gp_SourceDigest (gn_Spec gen)"
    and "Activate dg req dk = (r, dk')"
  shows "(\<exists>e. r = Inl e) \<and> dk_links dk' = dk_links dk \<and> dk_records dk' = dk_records dk \<and> dk_manifests dk' = dk_manifests dk \<and>
     dk_files dk' = dk_files dk \<and> dk_locks dk' = dk_locks dk \<and>
     (dk' = dk \<or> (\<exists>entry. le_Kind entry = ''cas-rejected'' \<and>
        dk' = dk\<lparr>dk_ledgers := (dk_ledgers dk)(ledgerPath (aq_WorktreeStateDir req) (aq_Host req) \<mapsto>
          (case dk_ledgers dk (ledgerPath (aq_WorktreeStateDir req) (aq_Host req)) of None \<Rightarrow> [] | Some es \<Rightarrow> es) @ [Doc entry])\<rparr>))"
  using assms(6)
proof (cases rule: Activate_cases)
  case (refused e)
  then show ?thesis by simp
next
  case (ran dk2)
  let ?w = "aq_WorktreeStateDir req" and ?host = "aq_Host req"
  let ?dk = "dk\<lparr>dk_locks := activationLockPath ?w ?host # dk_locks dk\<rparr>"
  have v: "g = gen" if "activate_validate req ?dk = Inr (p, g, prev)" for p g prev
    using activate_validate_Inr [OF that] assms(2,3) by (simp add: PendingGenerationDir_def)
  have "(\<exists>e. r = Inl e) \<and> (dk2 = ?dk \<or> (\<exists>entry. le_Kind entry = ''cas-rejected'' \<and> dk2 = snd (AppendLedgerEntry ?w ?host entry ?dk)))"
    using ran(4)
  proof (cases rule: activate_locked_cases)
    case (rejected p g prev e)
    from rejected(3) show ?thesis by (cases rule: activate_cas_cases) (use rejected v assms(1) in auto)
  next
    case (unswitched p g prev dk3 e)
    from unswitched(2) show ?thesis by (cases rule: activate_cas_cases) (use unswitched v assms in auto)
  next
    case (failed p g prev dk3 e)
    from failed(2) show ?thesis by (cases rule: activate_cas_cases) (use failed v assms in auto)
  next
    case (unlogged p g prev dk3 dk5 e)
    from unlogged(2) show ?thesis by (cases rule: activate_cas_cases) (use unlogged v assms in auto)
  next
    case (logged p g prev dk3 dk5)
    from logged(2) show ?thesis by (cases rule: activate_cas_cases) (use logged v assms in auto)
  qed (use assms(1) in auto)
  then show ?thesis
  proof (elim conjE disjE exE)
    fix e assume "r = Inl e" "dk2 = ?dk"
    then show ?thesis using ran by simp
  next
    fix e entry assume r: "r = Inl e" and entry: "le_Kind entry = ''cas-rejected''" "dk2 = snd (AppendLedgerEntry ?w ?host entry ?dk)"
    obtain r3 dk3 where a: "AppendLedgerEntry ?w ?host entry ?dk = (r3, dk3)" by force
    then show ?thesis
    proof (cases rule: AppendLedgerEntry_cases)
      case failed
      then show ?thesis using ran r entry a by simp
    next
      case appended
      then have "dk' = dk\<lparr>dk_ledgers := (dk_ledgers dk)(ledgerPath ?w ?host \<mapsto>
          (case dk_ledgers dk (ledgerPath ?w ?host) of None \<Rightarrow> [] | Some es \<Rightarrow> es) @ [Doc entry])\<rparr>"
        using ran entry a by (simp add: activationLock_release_def)
      then show ?thesis using r entry(1) by auto
    qed
  qed
qed

lemma Rollback_busy: "activationLockPath w host \<in> set (dk_locks dk) \<Longrightarrow> \<exists>e. Rollback w root host det now dk = (Inl e, dk)"
  using acquire_busy [of w host dk] by (auto simp: Rollback_def split: option.split)

lemma EnsureLaunchGeneration_busy:
  "activationLockPath w (hd_Host (bq_Detection req)) \<in> set (dk_locks dk) \<Longrightarrow> \<exists>e. EnsureLaunchGeneration dg req w dk = (Inl e, dk)"
  using acquire_busy [of w "hd_Host (bq_Detection req)" dk] by (auto simp: EnsureLaunchGeneration_def Let_def split: option.split)

text \<open>The lock excludes. While the activation lock of a host is held, no other activation, rollback or launch of
that host proceeds: each fails at once and leaves the disk as it found it.\<close>

theorem activation_lock_excludes:
  assumes "activationLockPath w host \<in> set (dk_locks dk)"
  shows "(aq_WorktreeStateDir areq = w \<and> aq_Host areq = host \<longrightarrow> (\<exists>e. Activate dg areq dk = (Inl e, dk))) \<and>
     (\<exists>e. Rollback w root host det now dk = (Inl e, dk)) \<and>
     (hd_Host (bq_Detection breq) = host \<longrightarrow> (\<exists>e. EnsureLaunchGeneration dg breq w dk = (Inl e, dk)))"
proof (intro conjI impI)
  assume a: "aq_WorktreeStateDir areq = w \<and> aq_Host areq = host"
  obtain r dk' where "Activate dg areq dk = (r, dk')" by force
  then show "\<exists>e. Activate dg areq dk = (Inl e, dk)"
    by (cases rule: Activate_cases) (use a assms \<open>Activate dg areq dk = (r, dk')\<close> in auto)
qed (use assms Rollback_busy EnsureLaunchGeneration_busy in blast)+

section \<open>On a working disk\<close>

abbreviation working :: "disk \<Rightarrow> bool" where
  "working dk \<equiv> \<forall>call path. dk_fault dk call path = None"

lemma setGenerationPointer_ok:
  assumes "working dk" "IsAbs w" "ValidateHostID host = None" "IsAbs gdir"
  shows "\<exists>rel. Rel (Join [w, name]) gdir = Inr rel \<and> setGenerationPointer w name host gdir gen det now dk =
    (None, dk\<lparr>dk_links := (dk_links dk)(pointerLinkPath w name host \<mapsto> rel),
              dk_records := (dk_records dk)(pointerRecordPath w name host \<mapsto>
                Doc \<lparr>cr_GenerationID = gen_id gen, cr_HostBinaryPath = hd_BinaryPath det,
                     cr_HostVersion = hd_Version det, cr_RecordedAt = RFC3339 now\<rparr>)\<rparr>)"
proof -
  obtain rel where rel: "Rel (Join [w, name]) gdir = Inr rel" using Rel_abs_total [OF IsAbs_Join [OF assms(2)] assms(4)] by blast
  have "w \<noteq> []" using assms(2) by auto
  with rel assms show ?thesis by (simp add: setGenerationPointer_def Let_def require_def)
qed

lemma AppendLedgerEntry_ok:
  assumes "working dk" "w \<noteq> []" "ValidateHostID host = None" "le_Host entry = host" "le_GenerationID entry \<noteq> []" "le_Kind entry \<noteq> []"
    "le_RecordedAt entry \<noteq> []"
  shows "AppendLedgerEntry w host entry dk = (None, dk\<lparr>dk_ledgers := (dk_ledgers dk)(ledgerPath w host \<mapsto>
      (case dk_ledgers dk (ledgerPath w host) of None \<Rightarrow> [] | Some es \<Rightarrow> es) @ [Doc entry])\<rparr>)"
  using assms by (simp add: AppendLedgerEntry_def Let_def require_def)

lemma acquireActivationLock_ok:
  "working dk \<Longrightarrow> activationLockPath w host \<notin> set (dk_locks dk) \<Longrightarrow>
   acquireActivationLock w host dk = (None, dk\<lparr>dk_locks := activationLockPath w host # dk_locks dk\<rparr>)"
  by (simp add: acquireActivationLock_def)

lemma generationPointerDir_working:
  "working dk \<Longrightarrow> generationPointerDir w name host dk =
     (case dk_links dk (pointerLinkPath w name host) of
        None \<Rightarrow> Inl NotExist
      | Some target \<Rightarrow> Inr (Clean (if \<not> IsAbs target then Join [Dir (pointerLinkPath w name host), target] else target)))"
  by (simp add: generationPointerDir_def read_file_def Let_def split: option.splits)

lemma record_paths: "pointerRecordPath w n h = pointerRecordPath w n' h' \<longleftrightarrow> pointerLinkPath w n h = pointerLinkPath w n' h'"
  by (simp add: pointerRecordPath_def)

text \<open>The disk after a switch to a generation: what the readers see.\<close>

lemma SetCurrentGeneration_ok:
  assumes "working dk" "IsAbs w" "ValidateHostID host = None" "IsAbs gdir" "Clean gdir = gdir"
  shows "\<exists>dk'. SetCurrentGeneration w host gdir gen det now dk = (None, dk') \<and> CurrentGenerationDir w host dk' = Inr gdir \<and>
    ReadCurrentRecord w host dk' = Inr \<lparr>cr_GenerationID = gen_id gen, cr_HostBinaryPath = hd_BinaryPath det,
      cr_HostVersion = hd_Version det, cr_RecordedAt = RFC3339 now\<rparr> \<and>
    dk_manifests dk' = dk_manifests dk \<and> dk_ledgers dk' = dk_ledgers dk \<and> dk_locks dk' = dk_locks dk \<and> working dk'"
proof -
  obtain rel where rel: "Rel (Join [w, ''current'']) gdir = Inr rel"
    and s: "setGenerationPointer w ''current'' host gdir gen det now dk =
      (None, dk\<lparr>dk_links := (dk_links dk)(pointerLinkPath w ''current'' host \<mapsto> rel),
              dk_records := (dk_records dk)(pointerRecordPath w ''current'' host \<mapsto>
                Doc \<lparr>cr_GenerationID = gen_id gen, cr_HostBinaryPath = hd_BinaryPath det,
                     cr_HostVersion = hd_Version det, cr_RecordedAt = RFC3339 now\<rparr>)\<rparr>)"
    using setGenerationPointer_ok [OF assms(1-4)] by blast
  have p: "plain_elems [''current'']" by simp
  from s show ?thesis
    using generationPointerDir_set [OF assms(2) p assms(3,4) rel] assms(1,5)
    by (simp add: SetCurrentGeneration_def CurrentGenerationDir_def ReadCurrentRecord_def readPointerRecord_def read_file_def Let_def)
qed

lemma clearPendingGeneration_ok:
  assumes "working dk" "IsAbs w" "ValidateHostID host = None"
  shows "PendingGenerationDir w host (clearPendingGeneration w host dk) = Inl NotExist"
    and "ReadCurrentRecord w host (clearPendingGeneration w host dk) = ReadCurrentRecord w host dk"
  using assms(1) pointer_other [OF assms(2,3)]
  by (simp_all add: PendingGenerationDir_def generationPointerDir_def ReadCurrentRecord_def readPointerRecord_def read_file_def
      clearPendingGeneration_def record_paths Let_def)

text \<open>An activation that has all it needs: a pending generation, a matching digest, a detection, a free lock.\<close>

definition activation_ready :: "(json \<Rightarrow> string) \<Rightarrow> ActivateRequest \<Rightarrow> string \<Rightarrow> Generation \<Rightarrow> disk \<Rightarrow> bool" where
  "activation_ready dg req pd gen dk \<longleftrightarrow>
     working dk \<and> IsAbs (aq_WorktreeStateDir req) \<and> ValidateHostID (aq_Host req) = None \<and> aq_Now req \<noteq> 0 \<and> aq_OnStep req = None \<and>
     activationLockPath (aq_WorktreeStateDir req) (aq_Host req) \<notin> set (dk_locks dk) \<and>
     PendingGenerationDir (aq_WorktreeStateDir req) (aq_Host req) dk = Inr pd \<and> ReadGenerationManifest pd dk = Inr gen \<and>
     freshSourceDigest dg (aq_Fresh req) = Inr (gp_SourceDigest (gn_Spec gen)) \<and>
     detectionForHost (cq_Hosts (aq_Fresh req)) (aq_Host req) \<noteq> None"

definition ledger_of :: "string \<Rightarrow> string \<Rightarrow> disk \<Rightarrow> LedgerEntry jsonfile list" where
  "ledger_of w host dk = (case dk_ledgers dk (ledgerPath w host) of None \<Rightarrow> [] | Some es \<Rightarrow> es)"

lemma Activate_ok:
  assumes "activation_ready dg req pd gen dk"
  defines "w \<equiv> aq_WorktreeStateDir req" and "host \<equiv> aq_Host req"
  shows "\<exists>res dk' entry det. Activate dg req dk = (Inr res, dk') \<and> av_ActivatedGenerationID res = gen_id gen \<and>
    CurrentGenerationDir w host dk' = Inr pd \<and> PendingGenerationDir w host dk' = Inl NotExist \<and>
    detectionForHost (cq_Hosts (aq_Fresh req)) host = Some det \<and>
    ReadCurrentRecord w host dk' = Inr \<lparr>cr_GenerationID = gen_id gen, cr_HostBinaryPath = hd_BinaryPath det,
      cr_HostVersion = hd_Version det, cr_RecordedAt = RFC3339 (aq_Now req)\<rparr> \<and>
    le_Kind entry = ''activated'' \<and> le_GenerationID entry = gen_id gen \<and> ledger_of w host dk' = ledger_of w host dk @ [Doc entry] \<and>
    dk_manifests dk' = dk_manifests dk \<and> dk_locks dk' = dk_locks dk \<and> working dk'"
proof -
  note r = assms(1) [unfolded activation_ready_def, folded w_def host_def]
  let ?dk1 = "dk\<lparr>dk_locks := activationLockPath w host # dk_locks dk\<rparr>"
  have f1: "working ?dk1" using r by simp
  have pd: "IsAbs pd" "Clean pd = pd"
    using generationPointerDir_abs [of w "''pending''" host dk pd] r by (simp_all add: PendingGenerationDir_def)
  obtain det where det: "detectionForHost (cq_Hosts (aq_Fresh req)) host = Some det" using r by blast
  have lock: "acquireActivationLock w host dk = (None, ?dk1)" using r by (intro acquireActivationLock_ok) auto
  have v: "\<exists>prev. activate_validate req ?dk1 = Inr (pd, gen, prev)"
    using r by (auto simp: activate_validate_def PendingGenerationDir_def CurrentGenerationDir_def generationPointerDir_working Let_def
        simp flip: w_def host_def split: option.splits)
  then obtain prev where v: "activate_validate req ?dk1 = Inr (pd, gen, prev)" by blast
  have c: "activate_cas dg req gen ?dk1 = (Inr (), ?dk1)" using r by (simp add: activate_cas_def Let_def)
  obtain dk2 where s: "SetCurrentGeneration w host pd gen det (aq_Now req) ?dk1 = (None, dk2)"
    "CurrentGenerationDir w host dk2 = Inr pd"
    "ReadCurrentRecord w host dk2 = Inr \<lparr>cr_GenerationID = gen_id gen, cr_HostBinaryPath = hd_BinaryPath det,
      cr_HostVersion = hd_Version det, cr_RecordedAt = RFC3339 (aq_Now req)\<rparr>"
    "dk_manifests dk2 = dk_manifests dk" "dk_ledgers dk2 = dk_ledgers dk" "dk_locks dk2 = activationLockPath w host # dk_locks dk" "working dk2"
    using SetCurrentGeneration_ok [OF f1 _ _ pd, of w host gen det "aq_Now req"] r by auto
  let ?dk3 = "clearPendingGeneration w host dk2"
  have s3: "activate_switch req pd gen ?dk1 = (Inr (), ?dk3)"
    using s(1) det by (simp add: activate_switch_def Let_def flip: w_def host_def)
  have gid: "gen_id gen \<noteq> []" using r ReadGenerationManifest_Inr ValidateGeneration_id by blast
  let ?entry = "\<lparr>le_Host = host, le_GenerationID = gen_id gen, le_Kind = ''activated'', le_RecordedAt = RFC3339 (aq_Now req),
            le_Detail = Sprintf ''switched current from %q to %q'' [AStr prev, AStr (gen_id gen)]\<rparr>"
  have "w \<noteq> []" using r by auto
  then have l: "AppendLedgerEntry w host ?entry ?dk3 = (None, ?dk3\<lparr>dk_ledgers := (dk_ledgers ?dk3)(ledgerPath w host \<mapsto>
      (case dk_ledgers ?dk3 (ledgerPath w host) of None \<Rightarrow> [] | Some es \<Rightarrow> es) @ [Doc ?entry])\<rparr>)" (is "_ = (None, ?dk4)")
    using r gid s(7) by (intro AppendLedgerEntry_ok) (simp_all del: Sprintf.simps)
  have "activate_locked dg req ?dk1 = (Inr \<lparr>av_Host = host, av_PreviousGenerationID = prev, av_ActivatedGenerationID = gen_id gen,
      av_ActivatedAt = RFC3339 (aq_Now req)\<rparr>, ?dk4)"
    unfolding activate_locked_def using r v c s3 l
    by (simp add: hooked_def runHook_def activate_ledger_def Let_def del: Sprintf.simps flip: w_def host_def)
  then have "Activate dg req dk = (Inr \<lparr>av_Host = host, av_PreviousGenerationID = prev, av_ActivatedGenerationID = gen_id gen,
      av_ActivatedAt = RFC3339 (aq_Now req)\<rparr>, activationLock_release w host ?dk4)"
    unfolding Activate_def using r lock \<open>w \<noteq> []\<close> by (simp add: require_def Let_def del: Sprintf.simps flip: w_def host_def)
  moreover have "CurrentGenerationDir w host ?dk3 = Inr pd" using current_after_clear r s(2) by simp
  moreover note clearPendingGeneration_ok [of dk2 w host]
  ultimately show ?thesis using r s det
    by (intro exI [of _ "\<lparr>av_Host = host, av_PreviousGenerationID = prev, av_ActivatedGenerationID = gen_id gen,
      av_ActivatedAt = RFC3339 (aq_Now req)\<rparr>"] exI [of _ "activationLock_release w host ?dk4"] exI [of _ ?entry] exI [of _ det])
      (simp add: ledger_of_def CurrentGenerationDir_def PendingGenerationDir_def ReadCurrentRecord_def readPointerRecord_def read_file_def
        generationPointerDir_working del: Sprintf.simps cong: option.case_cong)
qed

lemma Clean_Join: "IsAbs p \<Longrightarrow> Clean (Join (p # es)) = Join (p # es)"
  by (simp only: Join_abs Clean_idem IsAbs_join)

lemma Rollback_ok:
  assumes "working dk" "IsAbs w" "IsAbs root" "ValidateHostID host = None" "now \<noteq> 0" "activationLockPath w host \<notin> set (dk_locks dk)"
    and cur: "CurrentGenerationDir w host dk = Inr cd" "ReadGenerationManifest cd dk = Inr cg"
    and parent: "gen_parent cg = Some (gen_id pg)" "ReadGenerationManifest (generationDirFor root (gen_id pg)) dk = Inr pg"
    and compat: "validateCompiledHost pg host det = None"
  shows "\<exists>res dk' entry. Rollback w root host det now dk = (Inr res, dk') \<and>
    rb_RestoredGenerationID res = gen_id pg \<and> rb_SupersededGenerationID res = gen_id cg \<and>
    CurrentGenerationDir w host dk' = Inr (generationDirFor root (gen_id pg)) \<and>
    le_Kind entry = ''rolledback'' \<and> le_GenerationID entry = gen_id pg \<and> ledger_of w host dk' = ledger_of w host dk @ [Doc entry] \<and>
    dk_manifests dk' = dk_manifests dk \<and> dk_locks dk' = dk_locks dk"
proof -
  let ?dk1 = "dk\<lparr>dk_locks := activationLockPath w host # dk_locks dk\<rparr>" and ?pd = "generationDirFor root (gen_id pg)"
  have pd: "IsAbs ?pd" "Clean ?pd = ?pd" using assms(3) by (simp_all add: generationDirFor_def Clean_Join)
  have gid: "gen_id pg \<noteq> []" using parent(2) ReadGenerationManifest_Inr ValidateGeneration_id by blast
  have ne: "w \<noteq> []" "root \<noteq> []" using assms(2,3) by auto
  have t: "rollback_target w root host det ?dk1 = Inr (cg, ?pd, pg)"
    using cur parent compat gid by (simp add: rollback_target_def CurrentGenerationDir_def Let_def flip: generationDirFor_def)
  have f1: "working ?dk1" using assms(1) by simp
  from SetCurrentGeneration_ok [OF f1 assms(2,4) pd, of pg det now]
  obtain dk2 where s: "SetCurrentGeneration w host ?pd pg det now ?dk1 = (None, dk2)" "CurrentGenerationDir w host dk2 = Inr ?pd"
    "dk_manifests dk2 = dk_manifests dk" "dk_ledgers dk2 = dk_ledgers dk" "dk_locks dk2 = activationLockPath w host # dk_locks dk" "working dk2"
    by auto
  let ?entry = "\<lparr>le_Host = host, le_GenerationID = gen_id pg, le_Kind = ''rolledback'', le_RecordedAt = RFC3339 now,
                 le_Detail = Sprintf ''restored parent generation %q, superseding %q'' [AStr (gen_id pg), AStr (gen_id cg)]\<rparr>"
  have l: "AppendLedgerEntry w host ?entry dk2 = (None, dk2\<lparr>dk_ledgers := (dk_ledgers dk2)(ledgerPath w host \<mapsto>
      (case dk_ledgers dk2 (ledgerPath w host) of None \<Rightarrow> [] | Some es \<Rightarrow> es) @ [Doc ?entry])\<rparr>)" (is "_ = (None, ?dk3)")
    using assms(4) ne gid s(6) by (intro AppendLedgerEntry_ok) (simp_all del: Sprintf.simps)
  have "Rollback w root host det now dk = (Inr \<lparr>rb_Host = host, rb_RestoredGenerationID = gen_id pg,
      rb_SupersededGenerationID = gen_id cg, rb_RolledBackAt = RFC3339 now\<rparr>, activationLock_release w host ?dk3)"
    unfolding Rollback_def using assms(3-5) ne t s(1) l acquireActivationLock_ok [OF assms(1,6)]
    by (simp add: require_def Let_def del: Sprintf.simps)
  then show ?thesis using s assms(6)
    by (intro exI [of _ "\<lparr>rb_Host = host, rb_RestoredGenerationID = gen_id pg,
      rb_SupersededGenerationID = gen_id cg, rb_RolledBackAt = RFC3339 now\<rparr>"] exI [of _ "activationLock_release w host ?dk3"] exI [of _ ?entry])
      (simp add: ledger_of_def CurrentGenerationDir_def generationPointerDir_working del: Sprintf.simps cong: option.case_cong)
qed

text \<open>C9: activation succeeds when nothing stands in its way: on a working disk, with a readable pending generation
whose source digest is current, a detected host and a free lock, the pending generation becomes the current
one, its pending pointer is gone, the record names the generation and the detected version, the ledger gains
one entry of kind \<^verbatim>\<open>activated\<close> at its end, and the lock is free again.\<close>

theorem activation_succeeds:
  assumes "activation_ready dg req pd gen dk"
  shows "let w = aq_WorktreeStateDir req; host = aq_Host req in
    \<exists>res dk' entry det. Activate dg req dk = (Inr res, dk') \<and> av_ActivatedGenerationID res = gen_id gen \<and>
      CurrentGenerationDir w host dk' = Inr pd \<and> PendingGenerationDir w host dk' = Inl NotExist \<and>
      detectionForHost (cq_Hosts (aq_Fresh req)) host = Some det \<and>
      ReadCurrentRecord w host dk' = Inr \<lparr>cr_GenerationID = gen_id gen, cr_HostBinaryPath = hd_BinaryPath det,
        cr_HostVersion = hd_Version det, cr_RecordedAt = RFC3339 (aq_Now req)\<rparr> \<and>
      le_Kind entry = ''activated'' \<and> le_GenerationID entry = gen_id gen \<and>
      ledger_of w host dk' = ledger_of w host dk @ [Doc entry] \<and> dk_locks dk' = dk_locks dk"
  using Activate_ok [OF assms] unfolding Let_def by blast

text \<open>C6: rollback undoes activation. If the current generation lies in the generation store and is the recorded
parent of the pending one, then activating the pending one and rolling back with a compatible host restores the
current pointer to the directory it named before, reports the two generations, and leaves the two events in
the ledger in that order.\<close>

theorem rollback_undoes_activation:
  assumes ready: "activation_ready dg req pd gen dk"
    and before: "CurrentGenerationDir (aq_WorktreeStateDir req) (aq_Host req) dk = Inr (generationDirFor root (gen_id old))"
      "ReadGenerationManifest (generationDirFor root (gen_id old)) dk = Inr old" "gen_parent gen = Some (gen_id old)"
    and compat: "validateCompiledHost old (aq_Host req) det = None" "IsAbs root" "now \<noteq> 0"
  shows "let w = aq_WorktreeStateDir req; host = aq_Host req in
    \<exists>res dk1 res' dk2 e1 e2. Activate dg req dk = (Inr res, dk1) \<and> CurrentGenerationDir w host dk1 = Inr pd \<and>
      Rollback w root host det now dk1 = (Inr res', dk2) \<and> CurrentGenerationDir w host dk2 = CurrentGenerationDir w host dk \<and>
      rb_RestoredGenerationID res' = gen_id old \<and> rb_SupersededGenerationID res' = av_ActivatedGenerationID res \<and>
      ledger_of w host dk2 = ledger_of w host dk @ [Doc e1, Doc e2] \<and> le_Kind e1 = ''activated'' \<and> le_Kind e2 = ''rolledback'' \<and>
      dk_locks dk2 = dk_locks dk"
proof -
  let ?w = "aq_WorktreeStateDir req" and ?host = "aq_Host req"
  from Activate_ok [OF ready] obtain res dk1 e1 where a: "Activate dg req dk = (Inr res, dk1)" "av_ActivatedGenerationID res = gen_id gen"
    "CurrentGenerationDir ?w ?host dk1 = Inr pd" "le_Kind e1 = ''activated''" "ledger_of ?w ?host dk1 = ledger_of ?w ?host dk @ [Doc e1]"
    "dk_manifests dk1 = dk_manifests dk" "dk_locks dk1 = dk_locks dk" "working dk1" by blast
  have r: "IsAbs ?w" "ValidateHostID ?host = None" "activationLockPath ?w ?host \<notin> set (dk_locks dk1)" "ReadGenerationManifest pd dk = Inr gen"
    "working dk"
    using ready a(7) by (simp_all add: activation_ready_def)
  have m: "ReadGenerationManifest d dk1 = ReadGenerationManifest d dk" for d
    using a(6,8) r(5) by (intro ReadGenerationManifest_cong ext) simp_all
  from Rollback_ok [OF a(8) r(1) compat(2) r(2) compat(3) r(3) a(3), of gen old det] m before compat(1) r(4)
  obtain res' dk2 e2 where "Rollback ?w root ?host det now dk1 = (Inr res', dk2)" "rb_RestoredGenerationID res' = gen_id old"
    "rb_SupersededGenerationID res' = gen_id gen" "CurrentGenerationDir ?w ?host dk2 = Inr (generationDirFor root (gen_id old))"
    "le_Kind e2 = ''rolledback''" "ledger_of ?w ?host dk2 = ledger_of ?w ?host dk1 @ [Doc e2]" "dk_locks dk2 = dk_locks dk1" by auto
  with a before(1) show ?thesis unfolding Let_def by (metis append.assoc append_Cons append_Nil)
qed

section \<open>Launching keeps what was activated\<close>

lemma launch_selected_Inr:
  assumes "launch_selected req w d dk = Inr sel"
  obtains gen where "ReadGenerationManifest d dk = Inr gen" "gm_Worktree (gn_Metadata gen) = wt_ID (bq_Worktree req)"
    "sel = None \<longleftrightarrow> gp_DesiredState (gn_Spec gen) = None"
    "sel \<noteq> None \<longrightarrow> sel = Some gen \<and> (\<exists>record. ReadCurrentRecord w (hd_Host (bq_Detection req)) dk = Inr record \<and>
       cr_GenerationID record = gen_id gen \<and> cr_HostVersion record = hd_Version (bq_Detection req))"
proof (cases "ReadGenerationManifest d dk")
  case (Inl e)
  then show thesis using assms by (simp add: launch_selected_def Let_def)
next
  case (Inr gen)
  show thesis
    by (rule that [OF Inr]) (use assms Inr in \<open>auto simp: launch_selected_def Let_def split: if_splits option.splits sum.splits\<close>)
qed

text \<open>A launch never displaces a selected generation. If launching changes the disk at all, then the host had no
current generation, or one compiled by bootstrap, without a desired state. And when the current generation has
a desired state, a launch that succeeds returns exactly that generation and its directory, and its record names
the generation and the installed version.\<close>

theorem launch_keeps_selected:
  assumes "EnsureLaunchGeneration dg req w dk = (r, dk')"
  defines "host \<equiv> hd_Host (bq_Detection req)"
  shows "(dk' \<noteq> dk \<longrightarrow> CurrentGenerationDir w host dk = Inl NotExist \<or>
       (\<exists>d gen. CurrentGenerationDir w host dk = Inr d \<and> ReadGenerationManifest d dk = Inr gen \<and> gp_DesiredState (gn_Spec gen) = None)) \<and>
    (\<forall>d gen g out. CurrentGenerationDir w host dk = Inr d \<and> ReadGenerationManifest d dk = Inr gen \<and> gp_DesiredState (gn_Spec gen) \<noteq> None \<and>
       r = Inr (g, out) \<longrightarrow> g = gen \<and> out = d \<and>
         (\<exists>record. ReadCurrentRecord w host dk = Inr record \<and> cr_GenerationID record = gen_id gen \<and>
            cr_HostVersion record = hd_Version (bq_Detection req)))"
proof -
  let ?c = "first_err
        [BootstrapRequest_validate req,
         require (IsAbs w) (Errorf ''runtime: EnsureLaunchGeneration: absolute worktree state directory is required'' [])]"
  note d = assms(1) [unfolded EnsureLaunchGeneration_def Let_def, folded host_def]
  show ?thesis
  proof (cases ?c)
    case (Some e)
    then have "r = Inl (Fail e)" "dk' = dk" using d by simp_all
    then show ?thesis by simp
  next
    case c: None
    obtain r1 dk1 where a: "acquireActivationLock w host dk = (r1, dk1)" by force
    from a show ?thesis
    proof (cases rule: acquireActivationLock_cases)
      case (refused e)
      then have "r = Inl e" "dk' = dk" using d c a by simp_all
      then show ?thesis by simp
    next
      case held
      have cur: "CurrentGenerationDir w host dk1 = CurrentGenerationDir w host dk" "ReadGenerationManifest p dk1 = ReadGenerationManifest p dk"
        "ReadCurrentRecord w host dk1 = ReadCurrentRecord w host dk" for p
        by (simp_all add: held CurrentGenerationDir_def ReadCurrentRecord_def)
      have rel: "activationLock_release w host dk1 = dk" using held by simp
      show ?thesis
      proof (cases "CurrentGenerationDir w host dk")
        case (Inl e)
        show ?thesis
        proof (cases e)
          case NotExist
          then show ?thesis using Inl by simp
        next
          case (IOErr e')
          then have "r = Inl (Fail (Wrapf ''runtime: reading current %s generation: %w'' [AStr host] e'))" "dk' = dk"
            using d c a held(1) cur Inl rel by simp_all
          then show ?thesis by simp
        qed
      next
        case (Inr p)
        show ?thesis
        proof (cases "launch_selected req w p dk1")
          case (Inl e)
          then have "r = Inl (Fail e)" "dk' = dk" using d c a held(1) cur Inr rel by simp_all
          then show ?thesis by simp
        next
          case sel: (Inr sel)
          then obtain gen where g: "ReadGenerationManifest p dk = Inr gen" "sel = None \<longleftrightarrow> gp_DesiredState (gn_Spec gen) = None"
            "sel \<noteq> None \<longrightarrow> sel = Some gen \<and> (\<exists>record. ReadCurrentRecord w host dk = Inr record \<and>
               cr_GenerationID record = gen_id gen \<and> cr_HostVersion record = hd_Version (bq_Detection req))"
            by (rule launch_selected_Inr) (auto simp: cur [unfolded host_def] host_def)
          show ?thesis
          proof (cases sel)
            case None
            then show ?thesis using g Inr by auto
          next
            case (Some g')
            then have "r = Inr (gen, p)" "dk' = dk" using d c a held(1) cur Inr rel sel g(3) by simp_all
            then show ?thesis using g Some Inr by auto
          qed
        qed
      qed
    qed
  qed
qed

section \<open>A sample store\<close>

definition sample_generation :: "string \<Rightarrow> string option \<Rightarrow> Generation" where
  "sample_generation gid parent =
     \<lparr>gn_APIVersion = SupportedAPIVersion, gn_Kind = ''Generation'',
      gn_Metadata = \<lparr>gm_ID = gid, gm_Worktree = ''worktree:w'', gm_Invocation = '''', gm_Parent = parent, gm_CreatedAt = ''t''\<rparr>,
      gn_Spec = \<lparr>gp_DesiredGraphDigest = ''sha256:'' @ replicate 64 CHR ''0'', gp_KnowledgePacks = [],
        gp_Hosts = [(''codex'', \<lparr>gh_HostVersion = ''1.0.0'', gh_Surface = defaultSurface, gh_AdapterID = ''codex'', gh_AdapterVersion = '''',
          gh_Ownership = OwnershipManaged, gh_Artifacts = []\<rparr>)],
        gp_Sources = [], gp_Status = ''pending'', gp_OntologyVersion = '''', gp_SourceDigest = ''sha256:'' @ replicate 64 CHR ''0'',
        gp_DesiredState = Some \<lparr>dr_Profiles = [], dr_Activation = '''', dr_Exceptions = []\<rparr>, gp_Diff = None,
        gp_RiskConfirmations = [], gp_ExpectedEvidence = []\<rparr>\<rparr>"

text \<open>Two generations, the first current and the second, its child, pending.\<close>

definition sample_store :: disk where
  "sample_store = sample_disk
     \<lparr>dk_links := map_of [(''/s/current/codex'', ''../generations/g0''), (''/s/pending/codex'', ''../generations/g1'')],
      dk_records := map_of [(''/s/current/codex.json'', Doc \<lparr>cr_GenerationID = ''g0'', cr_HostBinaryPath = '''', cr_HostVersion = ''1.0.0'', cr_RecordedAt = ''t''\<rparr>)],
      dk_manifests := map_of [(''/s/generations/g0/manifest.json'', Doc (sample_generation ''g0'' None)),
                              (''/s/generations/g1/manifest.json'', Doc (sample_generation ''g1'' (Some ''g0'')))]\<rparr>"

definition sample_activate :: ActivateRequest where
  "sample_activate = \<lparr>aq_WorktreeStateDir = ''/s'', aq_Host = ''codex'', aq_Fresh = sample_request [] None, aq_Now = 1000000000, aq_OnStep = None\<rparr>"

lemma sample_paths:
  "CurrentGenerationDir ''/s'' ''codex'' sample_store = Inr ''/s/generations/g0''"
  "PendingGenerationDir ''/s'' ''codex'' sample_store = Inr ''/s/generations/g1''"
  "generationDirFor ''/s/generations'' ''g0'' = ''/s/generations/g0''"
  by code_simp+

lemma sample_manifests:
  "ReadGenerationManifest ''/s/generations/g0'' sample_store = Inr (sample_generation ''g0'' None)"
  "ReadGenerationManifest ''/s/generations/g1'' sample_store = Inr (sample_generation ''g1'' (Some ''g0''))"
  by code_simp+

lemma sample_digest: "freshSourceDigest sample_sha (sample_request [] None) = Inr (''sha256:'' @ replicate 64 CHR ''0'')"
  by code_simp

lemma sample_ready: "activation_ready sample_sha sample_activate ''/s/generations/g1'' (sample_generation ''g1'' (Some ''g0'')) sample_store"
proof -
  have "working sample_store" "dk_locks sample_store = []" by (simp_all add: sample_store_def sample_disk_def)
  moreover have "ValidateHostID ''codex'' = None" "detectionForHost (cq_Hosts (sample_request [] None)) ''codex'' \<noteq> None" by code_simp+
  moreover have "gp_SourceDigest (gn_Spec (sample_generation ''g1'' (Some ''g0''))) = ''sha256:'' @ replicate 64 CHR ''0''"
    by (simp add: sample_generation_def)
  ultimately show ?thesis
    using sample_paths sample_manifests sample_digest by (simp add: activation_ready_def sample_activate_def)
qed

section \<open>Witnesses\<close>

lemma sample_hook [simp]: "hook sample_activate step d = d"
  by (simp add: hook_def runHook_def sample_activate_def)

lemma sample_activate_simps [simp]:
  "aq_WorktreeStateDir sample_activate = ''/s''" "aq_Host sample_activate = ''codex''"
  "aq_Fresh sample_activate = sample_request [] None" "aq_OnStep sample_activate = None"
  by (simp_all add: sample_activate_def)

lemma sample_pointer_ok: "pointer_ok (''/s'', ''current'', ''codex'') sample_store"
proof -
  have "ValidateHostID ''codex'' = None" "Clean ''/s'' = ''/s''" by code_simp+
  then show ?thesis by (simp add: sample_store_def sample_disk_def)
qed

lemma activation_switches_only_validated_witness:
  "\<exists>r dk'. Activate sample_sha sample_activate sample_store = (r, dk') \<and>
     CurrentGenerationDir ''/s'' ''codex'' dk' \<in> {Inr ''/s/generations/g0'', Inr ''/s/generations/g1''}"
proof -
  obtain r dk' where a: "Activate sample_sha sample_activate sample_store = (r, dk')" by force
  have k: "pointer_ok (aq_WorktreeStateDir sample_activate, ''current'', aq_Host sample_activate) sample_store"
    using sample_pointer_ok by (simp del: pointer_ok.simps)
  have h: "hook_keeps_current sample_activate" by (simp add: hook_keeps_current_def)
  from activation_switches_only_validated [OF k h a] a show ?thesis
    using sample_paths by (auto simp: PendingGenerationDir_def)
qed

lemma activation_refuses_stale_witness:
  "\<exists>e dk'. Activate (\<lambda>v. replicate 64 CHR ''1'') sample_activate sample_store = (Inl e, dk') \<and> dk_links dk' = dk_links sample_store"
proof -
  let ?dg = "\<lambda>v. replicate 64 CHR ''1''"
  obtain r dk' where a: "Activate ?dg sample_activate sample_store = (r, dk')" by force
  have d: "freshSourceDigest ?dg (aq_Fresh sample_activate) = Inr (''sha256:'' @ replicate 64 CHR ''1'')"
    unfolding sample_activate_simps by code_simp
  have p: "PendingGenerationDir (aq_WorktreeStateDir sample_activate) (aq_Host sample_activate) sample_store = Inr ''/s/generations/g1''"
    using sample_paths by simp
  have n: "''sha256:'' @ replicate 64 CHR ''1'' \<noteq> gp_SourceDigest (gn_Spec (sample_generation ''g1'' (Some ''g0'')))" by code_simp
  have k: "\<forall>step d. hook sample_activate step d = d" by simp
  from activation_refuses_stale [OF k p sample_manifests(2) d n a] a show ?thesis by auto
qed

lemma activation_lock_excludes_witness:
  "let busy = sample_store\<lparr>dk_locks := [activationLockPath ''/s'' ''codex'']\<rparr> in \<exists>e. Activate sample_sha sample_activate busy = (Inl e, busy)"
  using activation_lock_excludes [of "''/s''" "''codex''" "sample_store\<lparr>dk_locks := [activationLockPath ''/s'' ''codex'']\<rparr>" sample_activate sample_sha]
  by simp

lemma activation_succeeds_witness:
  "\<exists>res dk'. Activate sample_sha sample_activate sample_store = (Inr res, dk') \<and> av_ActivatedGenerationID res = ''g1'' \<and>
     CurrentGenerationDir ''/s'' ''codex'' dk' = Inr ''/s/generations/g1'' \<and> PendingGenerationDir ''/s'' ''codex'' dk' = Inl NotExist"
  using activation_succeeds [OF sample_ready] by (auto simp: sample_generation_def Let_def)

lemma rollback_undoes_activation_witness:
  "\<exists>res dk1 res' dk2. Activate sample_sha sample_activate sample_store = (Inr res, dk1) \<and>
     Rollback ''/s'' ''/s/generations'' ''codex'' sample_detection 2000000000 dk1 = (Inr res', dk2) \<and>
     CurrentGenerationDir ''/s'' ''codex'' dk2 = Inr ''/s/generations/g0'' \<and>
     rb_RestoredGenerationID res' = ''g0''"
proof -
  let ?old = "sample_generation ''g0'' None"
  have id: "gen_id ?old = ''g0''" by (simp add: sample_generation_def)
  have 1: "CurrentGenerationDir (aq_WorktreeStateDir sample_activate) (aq_Host sample_activate) sample_store =
      Inr (generationDirFor ''/s/generations'' (gen_id ?old))" using sample_paths by (simp add: id)
  have 2: "ReadGenerationManifest (generationDirFor ''/s/generations'' (gen_id ?old)) sample_store = Inr ?old"
    using sample_manifests sample_paths by (simp add: id)
  have 3: "gen_parent (sample_generation ''g1'' (Some ''g0'')) = Some (gen_id ?old)" by (simp add: sample_generation_def)
  have 4: "validateCompiledHost ?old (aq_Host sample_activate) sample_detection = None"
    unfolding sample_activate_simps by code_simp
  have 5: "IsAbs ''/s/generations''" "(2000000000::gotime) \<noteq> 0" by simp_all
  from rollback_undoes_activation [OF sample_ready 1 2 3 4 5] 1 show ?thesis by (auto simp: id sample_paths Let_def)
qed

lemma launch_keeps_selected_witness:
  "snd (EnsureLaunchGeneration sample_sha
     \<lparr>bq_Detection = sample_detection, bq_Worktree = \<lparr>wt_ID = ''worktree:w'', wt_Root = ''/w'', wt_GitDir = '''', wt_MainRoot = ''''\<rparr>,
      bq_Observations = [], bq_Now = 1000000000, bq_Parent = None, bq_OMCABinaryPath = ''''\<rparr> ''/s'' sample_store) = sample_store"
    (is "snd (EnsureLaunchGeneration _ ?req _ _) = _")
proof -
  obtain r dk' where e: "EnsureLaunchGeneration sample_sha ?req ''/s'' sample_store = (r, dk')" by force
  have "CurrentGenerationDir ''/s'' (hd_Host (bq_Detection ?req)) sample_store = Inr ''/s/generations/g0''"
    using sample_paths by (simp add: sample_detection_def)
  moreover have "gp_DesiredState (gn_Spec (sample_generation ''g0'' None)) \<noteq> None" by (simp add: sample_generation_def)
  ultimately show ?thesis using launch_keeps_selected [OF e] e sample_manifests(1) by auto
qed

end
