(* ===== verification/Runtime_Verify.thy ===== *)
theory Runtime_Verify
  imports Runtime_Activation Assurance
begin

text \<open>
  Verification after activation (\<^verbatim>\<open>verify.go\<close>): the digests of the artifacts of the current generation, then the
  effective graph re-derived from its own tree, and the rollback when either fails. Observing a tree
  (\<^verbatim>\<open>observe.Observe\<close>) and choosing the knowledge pack of a host (\<^verbatim>\<open>knowledge.Default\<close> and its resolution) are
  parameters.
\<close>

section \<open>The text of an error\<close>

fun err_text :: "err \<Rightarrow> string" where
  "err_text (Errorf f as) = Sprintf f as"
| "err_text (Wrapf f as e) = Sprintf f (as @ [AStr (err_text e)])"

section \<open>Cross-checking the effective graph\<close>

record VerificationResult =
  vr_Host :: string
  vr_GenerationID :: string
  vr_Passed :: bool
  vr_FailedArtifacts :: "string list"
  vr_Detail :: string

definition effectiveGraphSourceConcepts :: "string list" where
  "effectiveGraphSourceConcepts = [''instruction'', ''skill'', ''mcp_server'']"

definition found_count :: "EffectiveGraph \<Rightarrow> string \<Rightarrow> nat" where
  "found_count graph concept =
     length (filter (\<lambda>e. ee_Concept e = concept) (eg_Entries graph)) + length (filter (\<lambda>c. cn_Concept c = concept) (eg_Conflicts graph))"

definition observed_source :: "string \<Rightarrow> GenerationSourceEntry \<Rightarrow> bool" where
  "observed_source host s \<longleftrightarrow>
     \<not> (gs_Host s \<noteq> host \<or> \<not> gs_Included s \<or> gs_Scope s = desiredStateScope \<or> gs_Concept s \<notin> set effectiveGraphSourceConcepts)"

definition crossCheckEffectiveGraph ::
  "string \<Rightarrow> GenerationSourceEntry list \<Rightarrow> EffectiveGraph \<Rightarrow> string list \<times> string list" where
  "crossCheckEffectiveGraph host sources graph =
     (let included = filter (observed_source host) sources;
          of_concept = (\<lambda>concept. filter (\<lambda>s. gs_Concept s = concept) included);
          concepts = sort (remdups (map gs_Concept included));
          short = filter (\<lambda>concept. \<not> found_count graph concept \<ge> length (of_concept concept)) concepts
      in (concat (map (\<lambda>concept. map (\<lambda>s. if gs_Source s = '''' then gs_Concept s else gs_Source s) (of_concept concept)) short),
          map (\<lambda>concept. Sprintf
             ''effective-graph re-derivation: manifest records %d Included=true %q source(s) for %s, but re-observing the activated generation's own compiled tree found only %d of that concept in the re-derived effective graph''
             [AInt (int (length (of_concept concept))), AStr concept, AStr host, AInt (int (found_count graph concept))]) short))"

type_synonym observer = "HostDetection \<Rightarrow> string \<Rightarrow> disk \<Rightarrow> err + Observation list"
type_synonym knower = "string \<Rightarrow> string \<Rightarrow> string \<Rightarrow> HostKnowledge"

definition setupFailure :: "string \<Rightarrow> err \<Rightarrow> string list \<times> string list" where
  "setupFailure what e = ([''effective-graph-verification''], [''effective-graph re-derivation: '' @ what @ err_text e])"

definition verifyEffectiveGraphAgainstManifest ::
  "(json \<Rightarrow> string) \<Rightarrow> observer \<Rightarrow> knower \<Rightarrow> string \<Rightarrow> string \<Rightarrow> string \<Rightarrow> GenerationHostEntry \<Rightarrow> GenerationSourceEntry list \<Rightarrow> disk \<Rightarrow>
   string list \<times> string list" where
  "verifyEffectiveGraphAgainstManifest dg observe know worktreeStateDir generationDir host entry sources dk =
     (let surface = (if gh_Surface entry = '''' then defaultSurface else gh_Surface entry) in
      case NativeHomeDirName host of
        Inl e \<Rightarrow> setupFailure '''' e
      | Inr nativeHomeDirName \<Rightarrow>
      (case NativeHomeEnvVar host of
        Inl e \<Rightarrow> setupFailure '''' e
      | Inr nativeHomeEnvVar \<Rightarrow>
         (let hostVersion = (if gh_HostVersion entry = ''''
                then (case ReadCurrentRecord worktreeStateDir host dk of Inr rec \<Rightarrow> cr_HostVersion rec | Inl e \<Rightarrow> '''')
                else gh_HostVersion entry);
              hostPrefix = Join [generationDir, ''hosts'', host, surface];
              detection = \<lparr>hd_Host = host, hd_Surface = surface, hd_Platform = '''', hd_Installed = False, hd_BinaryPath = '''',
                hd_Version = hostVersion,
                hd_NativeHomes = [\<lparr>nh_Name = nativeHomeEnvVar, nh_Path = Join [hostPrefix, nativeHomeDirName], nh_FromEnvVar = ''''\<rparr>],
                hd_Error = ''''\<rparr>
          in case observe detection (Join [hostPrefix, ''instructions'']) dk of
            Inl e \<Rightarrow> setupFailure ''re-observing the activated generation's own compiled tree failed: '' e
          | Inr obs \<Rightarrow>
             (let hk = know host surface hostVersion in
              case ComputeEffectiveGraph dg host hostVersion obs hk \<lparr>op_ScopeRank = [], op_ScopePriority = [], op_DeniedRefs = []\<rparr> [] of
                Inl e \<Rightarrow> setupFailure ''computing the effective graph failed: '' e
              | Inr graph \<Rightarrow> crossCheckEffectiveGraph host sources (VerifyGraph host graph hk)))))"

section \<open>Verification\<close>

fun verify_artifacts :: "(json \<Rightarrow> string) \<Rightarrow> string \<Rightarrow> GenerationArtifact list \<Rightarrow> disk \<Rightarrow> string list \<times> string list" where
  "verify_artifacts dg currentDir [] dk = ([], [])"
| "verify_artifacts dg currentDir (a # as) dk =
     (let (failed, reasons) = verify_artifacts dg currentDir as dk in
      case read_file ReadFile (Join [currentDir, ga_Path a]) (dk_files dk) dk of
        Inl e \<Rightarrow> (ga_Path a # failed, (ga_Path a @ '': '' @ err_text (ioerr_err e)) # reasons)
      | Inr content \<Rightarrow>
          if CanonicalDigest dg (JStr content) \<noteq> ga_Digest a then (ga_Path a # failed, ga_Path a # reasons)
          else (failed, reasons))"

definition VerifyActivation ::
  "(json \<Rightarrow> string) \<Rightarrow> observer \<Rightarrow> knower \<Rightarrow> string \<Rightarrow> string \<Rightarrow> gotime \<Rightarrow> disk \<Rightarrow> err + VerificationResult" where
  "VerifyActivation dg observe know worktreeStateDir host now dk =
     (case first_err
        [require (worktreeStateDir \<noteq> '''') (Errorf ''runtime: VerifyActivation: worktreeStateDir is required'' []),
         wrap_err ''runtime: VerifyActivation: %w'' [] (ValidateHostID host),
         require (now \<noteq> 0) (Errorf ''runtime: VerifyActivation: now is required (this package never reads the clock implicitly)'' [])] of
        Some e \<Rightarrow> Inl e
      | None \<Rightarrow>
      (case CurrentGenerationDir worktreeStateDir host dk of
        Inl e \<Rightarrow> Inl (Wrapf ''runtime: VerifyActivation: no current generation for %s to verify: %w'' [AStr host] (ioerr_err e))
      | Inr currentDir \<Rightarrow>
      (case ReadGenerationManifest currentDir dk of
        Inl e \<Rightarrow> Inl (Wrapf ''runtime: VerifyActivation: current generation manifest for %s at %s is unreadable: %w''
                   [AStr host, AStr currentDir] (ioerr_err e))
      | Inr gen \<Rightarrow>
      (case map_of (gp_Hosts (gn_Spec gen)) host of
        None \<Rightarrow> Inl (Errorf ''runtime: VerifyActivation: current generation %s for %s has no host entry for %q in its own manifest''
                   [AStr (gen_id gen), AStr host, AStr host])
      | Some entry \<Rightarrow>
         (let (failed1, reasons1) = verify_artifacts dg currentDir (gh_Artifacts entry) dk;
              (failed2, reasons2) = verifyEffectiveGraphAgainstManifest dg observe know worktreeStateDir currentDir host entry (gp_Sources (gn_Spec gen)) dk;
              failed = failed1 @ failed2; failReasons = reasons1 @ reasons2
          in Inr (if length failed > 0 then
               \<lparr>vr_Host = host, vr_GenerationID = gen_id gen, vr_Passed = False, vr_FailedArtifacts = failed,
                vr_Detail = Sprintf ''%d issue(s) found verifying %s's generation %s (artifact-digest integrity and/or a re-derived effective graph): %v''
                  [AInt (int (length failed)), AStr host, AStr (gen_id gen), AStrs failReasons]\<rparr>
             else
               \<lparr>vr_Host = host, vr_GenerationID = gen_id gen, vr_Passed = True, vr_FailedArtifacts = [],
                vr_Detail = Sprintf ''%d artifact(s) for %s match generation %s's recorded manifest digests, and its effective graph re-derives cleanly from the compiled tree''
                  [AInt (int (length (gh_Artifacts entry))), AStr host, AStr (gen_id gen)]\<rparr>))))))"

section \<open>Activation with verification\<close>

text \<open>The error values as errors, for wrapping.\<close>

fun aerr_err :: "aerr \<Rightarrow> err" where
  "aerr_err (Fail e) = e"
| "aerr_err (ActivationInProgress w host) = Errorf
     ''runtime: %s: another activation or rollback is already in progress for this host under %s -- wait for it to finish and try again''
     [AStr host, AStr w]"
| "aerr_err (CASMismatch host pid pendingDigest freshDigest) = Errorf ''%s'' [AStr (CASMismatchError_Error host pid pendingDigest freshDigest)]"

record ActivateAndVerifyResult =
  vv_Activation :: ActivationResult
  vv_Verification :: VerificationResult
  vv_RolledBack :: bool
  vv_Rollback :: "RollbackResult option"

text \<open>The function returns a result and an error, and after a successful activation the result comes with either.\<close>

definition ActivateAndVerify ::
  "(json \<Rightarrow> string) \<Rightarrow> observer \<Rightarrow> knower \<Rightarrow> ActivateRequest \<Rightarrow> string \<Rightarrow> disk \<Rightarrow>
   (ActivateAndVerifyResult option \<times> aerr option) \<times> disk" where
  "ActivateAndVerify dg observe know req generationsRoot dk =
     (let w = aq_WorktreeStateDir req; host = aq_Host req in
      case Activate dg req dk of
        (Inl e, dk1) \<Rightarrow> ((None, Some e), dk1)
      | (Inr actResult, dk1) \<Rightarrow>
         (let verResult = (case VerifyActivation dg observe know w host (aq_Now req) dk1 of
                Inr v \<Rightarrow> v
              | Inl e \<Rightarrow> \<lparr>vr_Host = host, vr_GenerationID = av_ActivatedGenerationID actResult, vr_Passed = False, vr_FailedArtifacts = [],
                  vr_Detail = ''post-activation verification could not run: '' @ err_text e\<rparr>);
              result = \<lparr>vv_Activation = actResult, vv_Verification = verResult, vv_RolledBack = False, vv_Rollback = None\<rparr>;
              failure = (\<lambda>f e. Some (Fail (Wrapf f [AStr host, AStr (vr_Detail verResult)] e)));
              ledgerGenID = (if vr_GenerationID verResult = '''' then av_ActivatedGenerationID actResult else vr_GenerationID verResult)
          in if vr_Passed verResult then ((Some result, None), dk1)
             else (case AppendLedgerEntry w host
                 \<lparr>le_Host = host, le_GenerationID = ledgerGenID, le_Kind = ''verification-failed'', le_RecordedAt = RFC3339 (aq_Now req),
                  le_Detail = vr_Detail verResult\<rparr> dk1 of
               (Some e, dk2) \<Rightarrow>
                 ((Some result, failure ''runtime: ActivateAndVerify: %s: post-activation verification failed (%s) and recording that failure to the Ledger also failed: %w'' e), dk2)
             | (None, dk2) \<Rightarrow>
             (case detectionForHost (cq_Hosts (aq_Fresh req)) host of
               None \<Rightarrow> ((Some result, Some (Fail (Errorf
                 ''runtime: ActivateAndVerify: %s: post-activation verification failed (%s) and automated rollback cannot proceed: Fresh.Hosts has no entry for %q''
                 [AStr host, AStr (vr_Detail verResult), AStr host]))), dk2)
             | Some detection \<Rightarrow>
             (case Rollback w generationsRoot host detection (aq_Now req) dk2 of
               (Inl e, dk3) \<Rightarrow>
                 ((Some result, failure ''runtime: ActivateAndVerify: %s: post-activation verification failed (%s) and automated rollback also failed: %w'' (aerr_err e)), dk3)
             | (Inr rbResult, dk3) \<Rightarrow>
                 ((Some (result\<lparr>vv_RolledBack := True, vv_Rollback := Some rbResult\<rparr>), None), dk3))))))"

section \<open>Properties\<close>





text \<open>The cross-check counts. It reports nothing exactly when the graph holds, for every concept, at least as many
entries and conflicts as the manifest has observed, included sources of the host with that concept.\<close>

theorem cross_check_counts:
  "fst (crossCheckEffectiveGraph host sources graph) = [] \<longleftrightarrow>
     (\<forall>concept. length (filter (\<lambda>s. gs_Concept s = concept) (filter (observed_source host) sources)) \<le> found_count graph concept)"
    (is "?L \<longleftrightarrow> (\<forall>concept. length (?of concept) \<le> _)")
proof -
  have "?L \<longleftrightarrow> (\<forall>concept \<in> gs_Concept ` {s \<in> set sources. observed_source host s}. \<not> length (?of concept) \<le> found_count graph concept \<longrightarrow> ?of concept = [])"
    by (auto simp: crossCheckEffectiveGraph_def Let_def)
  also have "\<dots> \<longleftrightarrow> (\<forall>concept. length (?of concept) \<le> found_count graph concept)"
  proof (intro iffI allI ballI impI)
    fix concept assume a: "\<forall>concept \<in> gs_Concept ` {s \<in> set sources. observed_source host s}. \<not> length (?of concept) \<le> found_count graph concept \<longrightarrow> ?of concept = []"
    show "length (?of concept) \<le> found_count graph concept"
    proof (cases "?of concept = []")
      case False
      then obtain s where "s \<in> set sources" "observed_source host s" "gs_Concept s = concept" by (auto simp: filter_empty_conv)
      then show ?thesis using a False by blast
    qed simp
  qed simp
  finally show ?thesis .
qed

text \<open>C19: a failed verification leaves a recoverable generation. If the pending generation's recorded parent is the
current one, lies in the store and suits the detected host, then on a working disk activation with verification
always returns without an error, whatever the verification finds: either it passed and the pending generation
is current, or the failure is reported as rolled back and the current pointer names the directory it named
before.\<close>

theorem activate_and_verify_recovers:
  assumes ready: "activation_ready dg req pd gen dk"
    and before: "CurrentGenerationDir (aq_WorktreeStateDir req) (aq_Host req) dk = Inr (generationDirFor root (gen_id old))"
      "ReadGenerationManifest (generationDirFor root (gen_id old)) dk = Inr old" "gen_parent gen = Some (gen_id old)"
    and compat: "detectionForHost (cq_Hosts (aq_Fresh req)) (aq_Host req) = Some det" "validateCompiledHost old (aq_Host req) det = None" "IsAbs root"
  shows "let w = aq_WorktreeStateDir req; host = aq_Host req in
    \<exists>res dk'. ActivateAndVerify dg observe know req root dk = ((Some res, None), dk') \<and>
      av_ActivatedGenerationID (vv_Activation res) = gen_id gen \<and> dk_locks dk' = dk_locks dk \<and>
      (if vr_Passed (vv_Verification res)
       then CurrentGenerationDir w host dk' = Inr pd \<and> \<not> vv_RolledBack res
       else CurrentGenerationDir w host dk' = CurrentGenerationDir w host dk \<and> vv_RolledBack res \<and>
         (\<exists>rb. vv_Rollback res = Some rb \<and> rb_RestoredGenerationID rb = gen_id old \<and> rb_SupersededGenerationID rb = gen_id gen))"
proof -
  let ?w = "aq_WorktreeStateDir req" and ?host = "aq_Host req"
  from Activate_ok [OF ready] obtain res dk1 where a: "Activate dg req dk = (Inr res, dk1)" "av_ActivatedGenerationID res = gen_id gen"
    "CurrentGenerationDir ?w ?host dk1 = Inr pd" "dk_manifests dk1 = dk_manifests dk" "dk_locks dk1 = dk_locks dk" "working dk1" by blast
  have r: "IsAbs ?w" "ValidateHostID ?host = None" "activationLockPath ?w ?host \<notin> set (dk_locks dk1)" "ReadGenerationManifest pd dk = Inr gen"
    "working dk" "aq_Now req \<noteq> 0"
    using ready a(5) by (simp_all add: activation_ready_def)
  have gid: "gen_id gen \<noteq> []" using r(4) ReadGenerationManifest_Inr ValidateGeneration_id by blast
  define ver where "ver = (case VerifyActivation dg observe know ?w ?host (aq_Now req) dk1 of
                Inr v \<Rightarrow> v
              | Inl e \<Rightarrow> \<lparr>vr_Host = ?host, vr_GenerationID = av_ActivatedGenerationID res, vr_Passed = False, vr_FailedArtifacts = [],
                  vr_Detail = ''post-activation verification could not run: '' @ err_text e\<rparr>)"
  show ?thesis
  proof (cases "vr_Passed ver")
    case True
    then show ?thesis using a by (simp add: ActivateAndVerify_def Let_def flip: ver_def)
  next
    case False
    define entry where "entry = \<lparr>le_Host = ?host,
      le_GenerationID = (if vr_GenerationID ver = '''' then av_ActivatedGenerationID res else vr_GenerationID ver),
      le_Kind = ''verification-failed'', le_RecordedAt = RFC3339 (aq_Now req), le_Detail = vr_Detail ver\<rparr>"
    have "?w \<noteq> []" using r(1) by auto
    then have l: "AppendLedgerEntry ?w ?host entry dk1 = (None, dk1\<lparr>dk_ledgers := (dk_ledgers dk1)(ledgerPath ?w ?host \<mapsto>
        (case dk_ledgers dk1 (ledgerPath ?w ?host) of None \<Rightarrow> [] | Some es \<Rightarrow> es) @ [Doc entry])\<rparr>)" (is "_ = (None, ?dk2)")
      using r(2) a(2,6) gid by (intro AppendLedgerEntry_ok) (simp_all add: entry_def)
    have m: "ReadGenerationManifest d ?dk2 = ReadGenerationManifest d dk" for d
      using a(4,6) r(5) by (intro ReadGenerationManifest_cong ext) simp_all
    have c: "CurrentGenerationDir ?w ?host ?dk2 = Inr pd" using a(3) current_cong [of ?dk2 dk1] by simp
    have f: "working ?dk2" "activationLockPath ?w ?host \<notin> set (dk_locks ?dk2)" using a(6) r(3) by simp_all
    from Rollback_ok [OF f(1) r(1) compat(3) r(2) r(6) f(2) c, of gen old det] m before compat(2) r(4)
    obtain rb dk3 where "Rollback ?w root ?host det (aq_Now req) ?dk2 = (Inr rb, dk3)" "rb_RestoredGenerationID rb = gen_id old"
      "rb_SupersededGenerationID rb = gen_id gen" "CurrentGenerationDir ?w ?host dk3 = Inr (generationDirFor root (gen_id old))"
      "dk_locks dk3 = dk_locks dk1" by auto
    moreover have "ActivateAndVerify dg observe know req root dk =
        ((Some \<lparr>vv_Activation = res, vv_Verification = ver, vv_RolledBack = True, vv_Rollback = Some rb\<rparr>, None), dk3)"
      unfolding ActivateAndVerify_def Let_def a(1) prod.case sum.case ver_def [symmetric] entry_def [symmetric]
      using l False compat(1) \<open>Rollback ?w root ?host det (aq_Now req) ?dk2 = (Inr rb, dk3)\<close> by simp
    ultimately show ?thesis using a False before(1) by simp
  qed
qed

section \<open>Witnesses\<close>

definition sample_observer :: observer where
  "sample_observer det root dk = Inr []"



lemma activate_and_verify_recovers_witness:
  "\<exists>res dk'. ActivateAndVerify sample_sha sample_observer (\<lambda>host surface version. sample_knowledge []) sample_activate ''/s/generations'' sample_store
       = ((Some res, None), dk') \<and> av_ActivatedGenerationID (vv_Activation res) = ''g1''"
proof -
  let ?old = "sample_generation ''g0'' None"
  have id: "gen_id ?old = ''g0''" "gen_id (sample_generation ''g1'' p) = ''g1''" for p by (simp_all add: sample_generation_def)
  have 1: "CurrentGenerationDir (aq_WorktreeStateDir sample_activate) (aq_Host sample_activate) sample_store =
      Inr (generationDirFor ''/s/generations'' (gen_id ?old))" using sample_paths by (simp add: id)
  have 2: "ReadGenerationManifest (generationDirFor ''/s/generations'' (gen_id ?old)) sample_store = Inr ?old"
    using sample_manifests sample_paths by (simp add: id)
  have 3: "gen_parent (sample_generation ''g1'' (Some ''g0'')) = Some (gen_id ?old)" by (simp add: sample_generation_def)
  have 4: "detectionForHost (cq_Hosts (aq_Fresh sample_activate)) (aq_Host sample_activate) = Some sample_detection"
    "validateCompiledHost ?old (aq_Host sample_activate) sample_detection = None"
    unfolding sample_activate_simps by code_simp+
  have 5: "IsAbs ''/s/generations''" by simp
  from activate_and_verify_recovers [OF sample_ready 1 2 3 4 5] show ?thesis unfolding Let_def id by blast
qed

end
