(* ===== verification/Runtime_Confirmation.thy ===== *)
theory Runtime_Confirmation
  imports Runtime_Generations
begin

text \<open>
  What an activation would turn on and which of it an operator has to confirm (\<^verbatim>\<open>confirmation.go\<close>,
  \<^verbatim>\<open>diffchanges.go\<close>): the newly included sources of a pending generation become proposed changes, every change
  has a confirmation class, and the gate refuses while a change that needs confirmation has none.
\<close>

section \<open>Changes and their classes\<close>

datatype ConfirmationClass =
    ConfirmationAutoStage
  | ConfirmationWithDetail
  | ConfirmationAlways
  | ConfirmationReviewableDiff
  | ConfirmationProhibited

datatype ChangeKind =
    ChangeSelectReviewedInstruction
  | ChangeSelectReviewedSkill
  | ChangeModelOrDisplayPreference
  | ChangeEnableMCPServer
  | ChangeEnableHookPluginExtension
  | ChangeExpandAccess
  | ChangeModifySharedProfile
  | ChangeImportNativeCredential
  | ChangeOther string

record ProposedChange =
  pc_Kind :: ChangeKind
  pc_AssetID :: string
  pc_Host :: string
  pc_Detail :: "string gomap"

record ConfirmationRequirement =
  cn_Class :: ConfirmationClass
  cn_RequiresConfirmation :: bool
  cn_RequiredDetailKeys :: "string list"
  cn_Reachable :: bool
  cn_Explanation :: string

definition requirement :: "ConfirmationClass \<Rightarrow> bool \<Rightarrow> string list \<Rightarrow> bool \<Rightarrow> string \<Rightarrow> ConfirmationRequirement" where
  "requirement cls needed keys reachable explanation =
     \<lparr>cn_Class = cls, cn_RequiresConfirmation = needed, cn_RequiredDetailKeys = keys, cn_Reachable = reachable, cn_Explanation = explanation\<rparr>"

text \<open>The references to the requirements document, \<^verbatim>\<open>docs/product/requirements.md\<close> and its section 7.\<close>

definition requirements_7 :: string where
  "requirements_7 = ''docs/product/requirements.md '' @ section_sign @ ''7''"

definition ClassifyChange :: "ProposedChange \<Rightarrow> ConfirmationRequirement" where
  "ClassifyChange c =
     (case pc_Kind c of
        ChangeSelectReviewedInstruction \<Rightarrow> requirement ConfirmationAutoStage False [] True
          (''selecting an already-reviewed Instruction stages the pending generation automatically ('' @ requirements_7 @ '')'')
      | ChangeSelectReviewedSkill \<Rightarrow> requirement ConfirmationAutoStage False [] True
          (''selecting an already-reviewed Skill stages the pending generation automatically ('' @ requirements_7 @ '')'')
      | ChangeModelOrDisplayPreference \<Rightarrow> requirement ConfirmationAutoStage False [] False
          (''a model or display preference change stages automatically per '' @ requirements_7 @ '', but no such concept exists in domain.Profile/domain.Activation yet -- classified only, not reachable through any real activation code path'')
      | ChangeEnableMCPServer \<Rightarrow> requirement ConfirmationWithDetail True [''command'', ''networkDestinations'', ''secretReferences''] True
          (Sprintf ''enabling MCP server %q requires confirming command, network destinations, and secret references ('' [AStr (pc_AssetID c)] @ requirements_7 @
           ''); this repository's schema can supply the asset ID and resolver reason today, not a structured command/network/secret breakdown -- see ClassifyChange's own doc comment'')
      | ChangeEnableHookPluginExtension \<Rightarrow> requirement ConfirmationAlways True [] False
          (''enabling a Hook, Plugin, or Extension always requires confirmation per '' @ requirements_7 @ '', but internal/resolve.AssetKind has no Hook/Plugin/Extension kind yet -- classified only, not reachable through any real activation code path'')
      | ChangeExpandAccess \<Rightarrow> requirement ConfirmationAlways True [] True
          (Sprintf ''expanding filesystem, network, approval, or sandbox access (permission %q) always requires confirmation ('' [AStr (pc_AssetID c)] @ requirements_7 @ '')'')
      | ChangeModifySharedProfile \<Rightarrow> requirement ConfirmationReviewableDiff True [] False
          (''modifying a shared project/company Profile must produce a reviewable repository diff per '' @ requirements_7 @ '', but no shared-Profile-editing UI or code path exists yet -- classified only, not reachable through any real activation code path'')
      | ChangeImportNativeCredential \<Rightarrow> requirement ConfirmationProhibited True [] False
          (''importing a native credential file is prohibited by default per '' @ requirements_7 @ '' and docs/architecture/runtime.md '' @ section_sign @ ''8; no credential-import code path exists anywhere in this repository to gate -- classified only, not reachable through any real activation code path'')
      | ChangeOther kind \<Rightarrow> requirement ConfirmationAlways True [] False
          (Sprintf ''unrecognized change kind %q; failing closed to always-confirm rather than guessing at a lower-risk class'' [AStr kind]))"

type_synonym ConfirmationKey = "ChangeKind \<times> string \<times> string"

definition ProposedChange_Key :: "ProposedChange \<Rightarrow> ConfirmationKey" where
  "ProposedChange_Key c = (pc_Kind c, pc_AssetID c, pc_Host c)"

section \<open>The gate\<close>

record ConfirmationRequiredError =
  ce_Requirements :: "ConfirmationRequirement list"
  ce_Changes :: "ProposedChange list"

fun RequireConfirmation_loop ::
  "(ConfirmationKey \<Rightarrow> bool) \<Rightarrow> ProposedChange list \<Rightarrow> ConfirmationRequirement list \<Rightarrow> ProposedChange list \<Rightarrow>
   ConfirmationRequirement list \<times> ProposedChange list" where
  "RequireConfirmation_loop confirmed [] reqs changes = (reqs, changes)"
| "RequireConfirmation_loop confirmed (c # cs) reqs changes =
     (let req = ClassifyChange c in
      if \<not> cn_RequiresConfirmation req then RequireConfirmation_loop confirmed cs reqs changes
      else if confirmed (ProposedChange_Key c) then RequireConfirmation_loop confirmed cs reqs changes
      else RequireConfirmation_loop confirmed cs (reqs @ [req]) (changes @ [c]))"

definition RequireConfirmation :: "ProposedChange list \<Rightarrow> (ConfirmationKey \<Rightarrow> bool) \<Rightarrow> ConfirmationRequiredError option" where
  "RequireConfirmation changes confirmed =
     (case RequireConfirmation_loop confirmed changes [] [] of
        (pendingReqs, pendingChanges) \<Rightarrow>
          if pendingReqs = [] then None else Some \<lparr>ce_Requirements = pendingReqs, ce_Changes = pendingChanges\<rparr>)"

section \<open>The newly included sources\<close>

definition counts :: "string \<Rightarrow> GenerationSourceEntry \<Rightarrow> bool" where
  "counts host s \<longleftrightarrow> gs_Included s \<and> gs_Host s = host"

definition source_key :: "GenerationSourceEntry \<Rightarrow> string \<times> string" where
  "source_key s = (gs_Concept s, gs_Source s)"

text \<open>A Go map from keys to the last entry with the key.\<close>

definition includedSourceSet :: "Generation \<Rightarrow> string \<Rightarrow> (string \<times> string) \<rightharpoonup> GenerationSourceEntry" where
  "includedSourceSet gen host =
     foldl (\<lambda>out s. if counts host s then out(source_key s \<mapsto> s) else out) Map.empty (gp_Sources (gn_Spec gen))"

definition proposed_change :: "string \<Rightarrow> GenerationSourceEntry \<Rightarrow> ProposedChange list" where
  "proposed_change host s =
     (let change = (\<lambda>kind. [\<lparr>pc_Kind = kind, pc_AssetID = gs_Source s, pc_Host = host,
            pc_Detail = (if gs_Reason s \<noteq> '''' then [(''reason'', gs_Reason s)] else [])\<rparr>])
      in if gs_Concept s = ''mcpServer'' then change ChangeEnableMCPServer
         else if gs_Concept s = ''skill'' then change ChangeSelectReviewedSkill
         else if gs_Concept s = ''instruction'' then change ChangeSelectReviewedInstruction
         else if gs_Concept s = ''permission'' then change ChangeExpandAccess
         else [])"

definition DiffProposedChanges :: "Generation \<Rightarrow> Generation \<Rightarrow> string \<Rightarrow> ProposedChange list" where
  "DiffProposedChanges currentGen pendingGen host =
     (let before = includedSourceSet currentGen host
      in concat (map (\<lambda>s.
           if \<not> counts host s then []
           else if before (source_key s) \<noteq> None then []
           else proposed_change host s) (gp_Sources (gn_Spec pendingGen))))"

section \<open>Lemmas\<close>

lemma RequireConfirmation_loop_eq:
  "RequireConfirmation_loop confirmed cs reqs changes =
     (let left = filter (\<lambda>c. cn_RequiresConfirmation (ClassifyChange c) \<and> \<not> confirmed (ProposedChange_Key c)) cs
      in (reqs @ map ClassifyChange left, changes @ left))"
  by (induction confirmed cs reqs changes rule: RequireConfirmation_loop.induct) (simp_all add: Let_def)

lemma RequireConfirmation_eq:
  "RequireConfirmation cs confirmed =
     (let left = filter (\<lambda>c. cn_RequiresConfirmation (ClassifyChange c) \<and> \<not> confirmed (ProposedChange_Key c)) cs
      in if left = [] then None else Some \<lparr>ce_Requirements = map ClassifyChange left, ce_Changes = left\<rparr>)"
  by (simp add: RequireConfirmation_def RequireConfirmation_loop_eq Let_def)

lemma fold_included:
  "foldl (\<lambda>out s. if counts host s then out(source_key s \<mapsto> s) else out) m ss k = None \<longleftrightarrow>
     m k = None \<and> (\<forall>s \<in> set ss. counts host s \<longrightarrow> source_key s \<noteq> k)"
  by (induction ss arbitrary: m) auto

lemma includedSourceSet_None:
  "includedSourceSet gen host k = None \<longleftrightarrow> (\<forall>s \<in> set (gp_Sources (gn_Spec gen)). counts host s \<longrightarrow> source_key s \<noteq> k)"
  by (simp add: includedSourceSet_def fold_included)

lemma DiffProposedChanges_iff:
  "c \<in> set (DiffProposedChanges cur pend host) \<longleftrightarrow>
     (\<exists>s \<in> set (gp_Sources (gn_Spec pend)). counts host s \<and> c \<in> set (proposed_change host s) \<and>
        (\<forall>s' \<in> set (gp_Sources (gn_Spec cur)). counts host s' \<longrightarrow> source_key s' \<noteq> source_key s))"
  by (auto simp: DiffProposedChanges_def includedSourceSet_None Let_def simp flip: not_None_eq split: if_splits)

lemma ClassifyChange_needed:
  "cn_RequiresConfirmation (ClassifyChange c) \<longleftrightarrow>
     pc_Kind c \<notin> {ChangeSelectReviewedInstruction, ChangeSelectReviewedSkill, ChangeModelOrDisplayPreference}"
  by (cases "pc_Kind c") (simp_all add: ClassifyChange_def requirement_def del: Sprintf.simps)

lemma sandbox_source:
  "resolveSandboxPermission host permissions = (v, Some e) \<Longrightarrow> source_key (e\<lparr>gs_Host := host\<rparr>) = (''permission'', ''sandbox'')"
proof -
  assume "resolveSandboxPermission host permissions = (v, Some e)"
  then have "\<exists>b r. e = sandbox_entry b r"
    by (auto simp: resolveSandboxPermission_def Let_def split: option.splits Intent.splits if_splits)
  then show ?thesis by (auto simp: sandbox_entry_def source_key_def)
qed

section \<open>Properties\<close>

text \<open>The gate is exact. It lets an activation pass exactly when every change that is not an automatically staged
one has been confirmed by its own kind, asset and host; otherwise it reports, in order, precisely the changes
that still need confirmation, each with its class. A change of an unknown kind needs confirmation.\<close>

theorem confirmation_gate_exact:
  "(RequireConfirmation cs confirmed = None \<longleftrightarrow>
      (\<forall>c \<in> set cs. pc_Kind c \<in> {ChangeSelectReviewedInstruction, ChangeSelectReviewedSkill, ChangeModelOrDisplayPreference} \<or>
         confirmed (pc_Kind c, pc_AssetID c, pc_Host c))) \<and>
   (\<forall>e. RequireConfirmation cs confirmed = Some e \<longrightarrow>
      ce_Changes e = filter (\<lambda>c. pc_Kind c \<notin> {ChangeSelectReviewedInstruction, ChangeSelectReviewedSkill, ChangeModelOrDisplayPreference} \<and>
         \<not> confirmed (pc_Kind c, pc_AssetID c, pc_Host c)) cs \<and>
      ce_Requirements e = map ClassifyChange (ce_Changes e))"
  unfolding RequireConfirmation_eq ClassifyChange_needed ProposedChange_Key_def Let_def
  by (auto simp: filter_empty_conv)

definition sample_source :: "string \<Rightarrow> string \<Rightarrow> GenerationSourceEntry" where
  "sample_source concept source =
     \<lparr>gs_Concept = concept, gs_Source = source, gs_Scope = '''', gs_Host = ''codex'', gs_Included = True, gs_Reason = ''r'',
      gs_CapabilityGap = False, gs_TrackingIssue = ''''\<rparr>"

definition sample_sources :: "GenerationSourceEntry list \<Rightarrow> Generation" where
  "sample_sources ss =
     \<lparr>gn_APIVersion = SupportedAPIVersion, gn_Kind = ''Generation'',
      gn_Metadata = \<lparr>gm_ID = ''g'', gm_Worktree = ''w'', gm_Invocation = '''', gm_Parent = None, gm_CreatedAt = ''t''\<rparr>,
      gn_Spec = \<lparr>gp_DesiredGraphDigest = '''', gp_KnowledgePacks = [], gp_Hosts = [], gp_Sources = ss, gp_Status = '''',
        gp_OntologyVersion = '''', gp_SourceDigest = '''', gp_DesiredState = None, gp_Diff = None, gp_RiskConfirmations = [],
        gp_ExpectedEvidence = []\<rparr>\<rparr>"

lemma confirmation_gate_exact_witness:
  "RequireConfirmation [\<lparr>pc_Kind = ChangeOther ''new'', pc_AssetID = ''a'', pc_Host = ''codex'', pc_Detail = []\<rparr>] (\<lambda>_. False) \<noteq> None"
  using confirmation_gate_exact [of "[\<lparr>pc_Kind = ChangeOther ''new'', pc_AssetID = ''a'', pc_Host = ''codex'', pc_Detail = []\<rparr>]" "\<lambda>_. False"]
  by auto

text \<open>C18: new servers and permissions are confirmed. When the gate lets the changes between two generations pass, every
MCP server or permission that the pending generation includes for the host, and the current one does not, has
been confirmed by name.\<close>

theorem new_access_is_confirmed:
  assumes "RequireConfirmation (DiffProposedChanges cur pend host) confirmed = None"
    and "s \<in> set (gp_Sources (gn_Spec pend))" "gs_Included s" "gs_Host s = host"
    and "\<forall>s' \<in> set (gp_Sources (gn_Spec cur)). gs_Included s' \<and> gs_Host s' = host \<longrightarrow> (gs_Concept s', gs_Source s') \<noteq> (gs_Concept s, gs_Source s)"
  shows "(gs_Concept s = ''mcpServer'' \<longrightarrow> confirmed (ChangeEnableMCPServer, gs_Source s, host)) \<and>
     (gs_Concept s = ''permission'' \<longrightarrow> confirmed (ChangeExpandAccess, gs_Source s, host))"
proof -
  have new: "c \<in> set (DiffProposedChanges cur pend host)" if "c \<in> set (proposed_change host s)" for c
    unfolding DiffProposedChanges_iff by (rule bexI [OF _ assms(2)]) (use assms(3-5) that in \<open>auto simp: counts_def source_key_def\<close>)
  have "cn_RequiresConfirmation (ClassifyChange c) \<longrightarrow> confirmed (ProposedChange_Key c)" if "c \<in> set (proposed_change host s)" for c
    using assms(1) new [OF that] by (auto simp: RequireConfirmation_eq Let_def filter_empty_conv split: if_splits)
  then show ?thesis by (auto simp: proposed_change_def ClassifyChange_needed ProposedChange_Key_def Let_def)
qed

lemma new_access_is_confirmed_witness:
  "(let cur = sample_sources []; pend = sample_sources [sample_source ''mcpServer'' ''db'']; ok = (\<lambda>k. k = (ChangeEnableMCPServer, ''db'', ''codex''))
    in RequireConfirmation (DiffProposedChanges cur pend ''codex'') ok = None \<and> ok (ChangeEnableMCPServer, ''db'', ''codex'') \<and>
       RequireConfirmation (DiffProposedChanges cur pend ''codex'') (\<lambda>k. False) \<noteq> None)"
proof -
  let ?cur = "sample_sources []" and ?pend = "sample_sources [sample_source ''mcpServer'' ''db'']"
  let ?ok = "\<lambda>k. k = (ChangeEnableMCPServer, ''db'', ''codex'')"
  have 1: "RequireConfirmation (DiffProposedChanges ?cur ?pend ''codex'') ?ok = None" by code_simp
  have 2: "RequireConfirmation (DiffProposedChanges ?cur ?pend ''codex'') (\<lambda>k. False) \<noteq> None"
    using new_access_is_confirmed [of ?cur ?pend "''codex''" "\<lambda>k. False" "sample_source ''mcpServer'' ''db''"]
    by (auto simp: sample_sources_def sample_source_def)
  from 1 2 show ?thesis by (simp only: Let_def simp_thms)
qed

text \<open>C30: a wider sandbox is not a change. The sandbox value of a host is not part of the identity of its source: when
both generations record an included sandbox permission for the host, then whatever the two values are, even
from the most conservative to the widest, no access change is proposed for it and none has to be confirmed.\<close>

theorem sandbox_value_not_compared:
  assumes "resolveSandboxPermission host (mergePermissions ps) = (v, Some e)" "gs_Included e"
    and "resolveSandboxPermission host (mergePermissions ps') = (v', Some e')" "gs_Included e'"
    and "gp_Sources (gn_Spec cur) = ss @ [e\<lparr>gs_Host := host\<rparr>]" "gp_Sources (gn_Spec pend) = ss @ [e'\<lparr>gs_Host := host\<rparr>]"
  shows "DiffProposedChanges cur pend host = [] \<and> RequireConfirmation (DiffProposedChanges cur pend host) confirmed = None"
proof -
  have "source_key (e\<lparr>gs_Host := host\<rparr>) = source_key (e'\<lparr>gs_Host := host\<rparr>)"
    using sandbox_source [OF assms(1)] sandbox_source [OF assms(3)] by simp
  then have "c \<notin> set (DiffProposedChanges cur pend host)" for c
    unfolding DiffProposedChanges_iff using assms(2,4-6) by (auto simp: counts_def)
  then have "DiffProposedChanges cur pend host = []" using list.set_intros(1) by (metis neq_Nil_conv)
  then show ?thesis by (simp add: RequireConfirmation_eq)
qed

lemma sandbox_value_not_compared_witness:
  "(let policy = (\<lambda>v. snd (resolveSandboxPermission ''codex'' (mergePermissions [sample_policy ''team'' IntentRequired v])));
        gen = (\<lambda>v. sample_sources [(the (policy v))\<lparr>gs_Host := ''codex''\<rparr>])
    in fst (resolveSandboxPermission ''codex'' (mergePermissions [sample_policy ''team'' IntentRequired ''danger-full-access''])) = ''danger-full-access'' \<and>
       RequireConfirmation (DiffProposedChanges (gen ''read-only'') (gen ''danger-full-access'') ''codex'') (\<lambda>k. False) = None)"
proof -
  let ?p = "\<lambda>v. mergePermissions [sample_policy ''team'' IntentRequired v]"
  let ?e = "\<lambda>v. the (snd (resolveSandboxPermission ''codex'' (?p v)))"
  let ?g = "\<lambda>v. sample_sources [(?e v)\<lparr>gs_Host := ''codex''\<rparr>]"
  have 1: "resolveSandboxPermission ''codex'' (?p v) = (v, Some (?e v)) \<and> gs_Included (?e v)" if "v \<in> {''read-only'', ''danger-full-access''}" for v
    using that by (elim insertE emptyE; hypsubst; code_simp)
  have "RequireConfirmation (DiffProposedChanges (?g ''read-only'') (?g ''danger-full-access'') ''codex'') (\<lambda>k. False) = None"
    by (rule sandbox_value_not_compared [THEN conjunct2, of "''codex''" _ "''read-only''" "?e ''read-only''" _ "''danger-full-access''" "?e ''danger-full-access''" _ "[]"])
      (use 1 in \<open>simp_all add: sample_sources_def\<close>)
  moreover have "fst (resolveSandboxPermission ''codex'' (?p ''danger-full-access'')) = ''danger-full-access''"
    using 1 [of "''danger-full-access''"] by (metis fst_conv insertCI)
  ultimately show ?thesis unfolding Let_def by (rule conjI [rotated])
qed

end
