(* ===== verification/Profile_Match.thy ===== *)
theory Profile_Match
  imports Domain_Docs Go_Strings
begin

text \<open>
  Which bindings select a worktree (\<^verbatim>\<open>internal/profiles/binding.go\<close>): the exact repository or a glob of path segments,
  with \<^verbatim>\<open>path.Match\<close> of Go's standard library inside a segment. Texts are ASCII, so a rune is a byte. A segment that
  \<^verbatim>\<open>path.Match\<close> reports as malformed does not match, so its error and its refusal are one value here.
\<close>

section \<open>path.Match\<close>

text \<open>\<^verbatim>\<open>scanChunk\<close>: the text up to the next star outside of a class, and the rest.\<close>

fun scan_chunk :: "bool \<Rightarrow> string \<Rightarrow> string \<times> string" where
  "scan_chunk inrange [] = ([], [])"
| "scan_chunk inrange [c] = (if c = CHR ''*'' \<and> \<not> inrange then ([], [c]) else ([c], []))"
| "scan_chunk inrange (c # d # cs) =
     (if c = CHR 0x5C then (case scan_chunk inrange cs of (a, b) \<Rightarrow> (c # d # a, b))
      else if c = CHR ''*'' \<and> \<not> inrange then ([], c # d # cs)
      else (case scan_chunk (if c = CHR ''['' then True else if c = CHR '']'' then False else inrange) (d # cs) of (a, b) \<Rightarrow> (c # a, b)))"

text \<open>A bound of a class, which needs more text after it.\<close>

definition get_esc :: "string \<Rightarrow> (char \<times> string) option" where
  "get_esc chunk =
     (case chunk of
        [] \<Rightarrow> None
      | c # cs \<Rightarrow>
          if c = CHR ''-'' \<or> c = CHR '']'' then None
          else let rest = (if c = CHR 0x5C then cs else chunk)
          in case rest of [] \<Rightarrow> None | r # rest' \<Rightarrow> if rest' = [] then None else Some (r, rest'))"

lemma get_esc_shorter: "get_esc s = Some (r, t) \<Longrightarrow> length t < length s"
  by (auto simp: get_esc_def Let_def split: list.splits if_splits)

text \<open>The items of a class up to its closing bracket: whether one of them holds the character, and the text after it.\<close>

function class_items :: "char \<Rightarrow> bool \<Rightarrow> bool \<Rightarrow> string \<Rightarrow> (bool \<times> string) option" where
  "class_items r first hit chunk =
     (if \<not> first \<and> chunk \<noteq> [] \<and> hd chunk = CHR '']'' then Some (hit, tl chunk)
      else (case get_esc chunk of
          None \<Rightarrow> None
        | Some (lo, rest) \<Rightarrow>
            (if hd rest = CHR ''-'' then
               (case get_esc (tl rest) of
                  None \<Rightarrow> None
                | Some (hi, rest') \<Rightarrow> class_items r False (hit \<or> lo \<le> r \<and> r \<le> hi) rest')
             else class_items r False (hit \<or> lo = r) rest)))"
  by pat_completeness auto
termination
proof (relation "measure (\<lambda>(r, first, hit, chunk). length chunk)")
  fix r :: char and first hit :: bool and chunk rest rest' :: string and lo hi :: char and x y
  assume "get_esc chunk = Some x" "(lo, rest) = x" "get_esc (tl rest) = Some y" "(hi, rest') = y"
  then have "length rest < length chunk" "length rest' < length (tl rest)" by (auto dest: get_esc_shorter)
  then show "((r, False, hit \<or> lo \<le> r \<and> r \<le> hi, rest'), r, first, hit, chunk) \<in> measure (\<lambda>(r, first, hit, chunk). length chunk)" by simp
qed (auto dest: get_esc_shorter)

declare class_items.simps [simp del]

lemma class_items_shorter: "class_items r first hit s = Some (b, t) \<Longrightarrow> length t < length s"
proof (induction r first hit s rule: class_items.induct)
  case (1 r first hit chunk)
  show ?case
  proof (cases "\<not> first \<and> chunk \<noteq> [] \<and> hd chunk = CHR '']''")
    case True
    then have "class_items r first hit chunk = Some (hit, tl chunk)" by (subst class_items.simps) simp
    then show ?thesis using "1.prems" True by auto
  next
    case no_end: False
    then obtain lo rest where g: "get_esc chunk = Some (lo, rest)"
      using "1.prems" by (auto simp: class_items.simps [of r first hit chunk] split: option.splits)
    have s: "length rest < length chunk" by (rule get_esc_shorter [OF g])
    show ?thesis
    proof (cases "hd rest = CHR ''-''")
      case True
      then obtain hi rest' where h: "get_esc (tl rest) = Some (hi, rest')"
        using "1.prems" no_end g by (auto simp: class_items.simps [of r first hit chunk] split: option.splits if_splits)
      have "class_items r False (hit \<or> lo \<le> r \<and> r \<le> hi) rest' = Some (b, t)"
        using "1.prems" no_end g h True by (simp add: class_items.simps [of r first hit chunk])
      then have "length t < length rest'" using "1.IH"(1) [OF no_end g refl True h refl] by simp
      then show ?thesis using s get_esc_shorter [OF h] by simp
    next
      case False
      have "class_items r False (hit \<or> lo = r) rest = Some (b, t)"
        using "1.prems" no_end g False by (auto simp: class_items.simps [of r first hit chunk])
      then show ?thesis using "1.IH"(2) [OF no_end g refl False] s by simp
    qed
  qed
qed

text \<open>\<^verbatim>\<open>matchChunk\<close>: the text after a match of a chunk without stars. \<open>None\<close> is a refusal or a malformed chunk.\<close>

function match_chunk :: "string \<Rightarrow> string \<Rightarrow> string option" where
  "match_chunk [] s = Some s"
| "match_chunk (c # cs) s =
     (case s of
        [] \<Rightarrow> None
      | r # s' \<Rightarrow>
          if c = CHR ''['' then
            (let negated = (cs \<noteq> [] \<and> hd cs = CHR ''^'')
             in case class_items r True False (if negated then tl cs else cs) of
                  None \<Rightarrow> None
                | Some (hit, rest) \<Rightarrow> if hit = negated then None else match_chunk rest s')
          else if c = CHR ''?'' then (if r = CHR ''/'' then None else match_chunk cs s')
          else if c = CHR 0x5C then (case cs of [] \<Rightarrow> None | d # ds \<Rightarrow> if d = r then match_chunk ds s' else None)
          else if c = r then match_chunk cs s' else None)"
  by pat_completeness auto
termination by (relation "measure (\<lambda>(c, s). length s)") auto

definition is_star :: "char \<Rightarrow> bool" where
  "is_star c \<longleftrightarrow> c = CHR ''*''"

text \<open>The search for the first position after a star at which the chunk matches, to the end if it is the last one.\<close>

fun match_after :: "string \<Rightarrow> bool \<Rightarrow> string \<Rightarrow> string option" where
  "match_after chunk final [] = None"
| "match_after chunk final (x # name) =
     (if x = CHR ''/'' then None
      else case match_chunk chunk name of
        Some t \<Rightarrow> if final \<and> t \<noteq> [] then match_after chunk final name else Some t
      | None \<Rightarrow> match_after chunk final name)"

lemma scan_chunk_app: "scan_chunk i p = (a, b) \<Longrightarrow> p = a @ b"
  by (induction i p arbitrary: a b rule: scan_chunk.induct) (auto split: if_splits prod.splits)

lemma scan_chunk_moves:
  assumes "scan_chunk False p = (a, b)" "p \<noteq> []" "\<not> is_star (hd p)"
  shows "length b < length p"
proof -
  have "a \<noteq> []" using assms by (cases "(False, p)" rule: scan_chunk.cases) (auto simp: is_star_def split: if_splits prod.splits)
  then show ?thesis using scan_chunk_app [OF assms(1)] by simp
qed

lemma scan_rest_shorter:
  assumes "p \<noteq> []" "scan_chunk False (dropWhile is_star p) = (a, b)"
  shows "length b < length p"
proof (cases "is_star (hd p)")
  case True
  then have "length (dropWhile is_star p) < length p" using assms(1) by (cases p) (auto simp: le_imp_less_Suc length_dropWhile_le)
  then show ?thesis using scan_chunk_app [OF assms(2)] by (metis le_add2 length_append order_le_less_trans)
next
  case False
  then have "dropWhile is_star p = p" using assms(1) by (cases p) auto
  then show ?thesis using scan_chunk_moves [of p a b] assms False by simp
qed

function PathMatch :: "string \<Rightarrow> string \<Rightarrow> bool" where
  "PathMatch pattern name =
     (if pattern = [] then name = []
      else
        (let star = is_star (hd pattern); (chunk, rest) = scan_chunk False (dropWhile is_star pattern)
         in if star \<and> chunk = [] then CHR ''/'' \<notin> set name
            else (case match_chunk chunk name of
                Some t \<Rightarrow>
                  if t = [] \<or> rest \<noteq> [] then PathMatch rest t
                  else if star then (case match_after chunk True name of Some u \<Rightarrow> PathMatch rest u | None \<Rightarrow> False)
                  else False
              | None \<Rightarrow>
                  if star then (case match_after chunk (rest = []) name of Some u \<Rightarrow> PathMatch rest u | None \<Rightarrow> False)
                  else False)))"
  by pat_completeness auto
termination by (relation "measure (\<lambda>(p, n). length p)") (auto dest: scan_rest_shorter [OF _ sym])

declare PathMatch.simps [simp del]

text \<open>A pattern without special characters matches exactly itself.\<close>

definition plain_pattern :: "string \<Rightarrow> bool" where
  "plain_pattern p \<longleftrightarrow> set p \<inter> {CHR ''*'', CHR ''?'', CHR ''['', CHR 0x5C} = {}"

lemma scan_plain: "plain_pattern p \<Longrightarrow> scan_chunk i p = (p, [])"
  by (induction i p rule: scan_chunk.induct) (auto simp: plain_pattern_def)

lemma match_plain: "plain_pattern p \<Longrightarrow> match_chunk p s = (if has_prefix p s then Some (drop (length p) s) else None)"
  by (induction p s rule: match_chunk.induct) (auto simp: plain_pattern_def has_prefix_def split: list.splits)

lemma PathMatch_plain: "plain_pattern p \<Longrightarrow> PathMatch p s \<longleftrightarrow> s = p"
proof (cases p)
  case (Cons c cs)
  assume p: "plain_pattern p"
  then have "\<not> is_star (hd p)" "dropWhile is_star p = p" using Cons by (auto simp: plain_pattern_def is_star_def)
  then have "PathMatch p s \<longleftrightarrow> has_prefix p s \<and> drop (length p) s = []"
    unfolding PathMatch.simps [of p s] using Cons p by (auto simp: scan_plain match_plain PathMatch.simps [of "[]"] simp del: match_chunk.simps)
  then show ?thesis by (auto simp: has_prefix_def)
qed (simp add: PathMatch.simps)

lemma PathMatch_star: "PathMatch ''*'' s \<longleftrightarrow> CHR ''/'' \<notin> set s"
  by (simp add: PathMatch.simps is_star_def)

lemma PathMatch_samples:
  "PathMatch ''a*[x-z]?'' ''abcy1''" "\<not> PathMatch ''a*[^x-z]'' ''aby''" "\<not> PathMatch ''[a'' ''a''" "PathMatch ''*.go*'' ''a.g.go.b''"
  by code_simp+

text \<open>
  What a pattern with stars means: a star stands for any text. In a name without slashes, the search of
  \<^verbatim>\<open>path.Match\<close>, which takes the first position that fits and never comes back to it, finds every match.
\<close>

primrec wild :: "string \<Rightarrow> string \<Rightarrow> bool" where
  "wild [] s \<longleftrightarrow> s = []"
| "wild (c # p) s \<longleftrightarrow> (if is_star c then \<exists>u v. s = u @ v \<and> wild p v else \<exists>t. s = c # t \<and> wild p t)"

definition star_pattern :: "string \<Rightarrow> bool" where
  "star_pattern p \<longleftrightarrow> set p \<inter> {CHR ''?'', CHR ''['', CHR 0x5C} = {}"

lemma wild_absorbs: "wild (c # p) v \<Longrightarrow> is_star c \<Longrightarrow> wild (c # p) (u @ v)"
  by simp (metis append.assoc)

lemma wild_plain: "\<forall>x \<in> set c. \<not> is_star x \<Longrightarrow> wild (c @ p) s \<longleftrightarrow> (\<exists>t. s = c @ t \<and> wild p t)"
  by (induction c arbitrary: s) auto

lemma wild_stars:
  assumes "p \<noteq> []" "is_star (hd p)"
  shows "wild p s \<longleftrightarrow> (\<exists>u v. s = u @ v \<and> wild (dropWhile is_star p) v)"
  using assms
proof (induction p arbitrary: s)
  case (Cons c p)
  show ?case
  proof (cases "p \<noteq> [] \<and> is_star (hd p)")
    case True
    then have "wild (c # p) s \<longleftrightarrow> (\<exists>u v. s = u @ v \<and> (\<exists>u' v'. v = u' @ v' \<and> wild (dropWhile is_star p) v'))"
      using Cons by simp
    also have "\<dots> \<longleftrightarrow> (\<exists>u v. s = u @ v \<and> wild (dropWhile is_star p) v)" by (metis append.assoc append_Nil)
    finally show ?thesis using Cons.prems by simp
  next
    case False
    then have "dropWhile is_star p = p" by (cases p) auto
    then show ?thesis using Cons.prems by simp
  qed
qed simp

lemma scan_star_pattern: "star_pattern p \<Longrightarrow> scan_chunk False p = (takeWhile (\<lambda>c. \<not> is_star c) p, dropWhile (\<lambda>c. \<not> is_star c) p)"
  by (induction "False" p rule: scan_chunk.induct) (auto simp: star_pattern_def is_star_def split: prod.splits)

text \<open>The first position, and the last chunk's.\<close>

lemma match_after_first:
  assumes "plain_pattern c" "CHR ''/'' \<notin> set s"
  shows "case match_after c False s of
      Some t \<Rightarrow> \<exists>u. s = u @ c @ t \<and> (\<forall>u' t'. s = u' @ c @ t' \<and> u' \<noteq> [] \<longrightarrow> (\<exists>w. t = w @ t'))
    | None \<Rightarrow> \<forall>u t. s = u @ c @ t \<longrightarrow> u = []"
  using assms(2)
proof (induction s)
  case (Cons x s)
  have slash: "x \<noteq> CHR ''/''" "CHR ''/'' \<notin> set s" using Cons.prems by auto
  note IH = Cons.IH [OF slash(2)]
  have shift: "\<exists>v. s = v @ c @ t'" if e: "x # s = u' @ c @ t'" "u' \<noteq> []" for u' t'
    using e by (cases u') auto
  show ?case
  proof (cases "has_prefix c s")
    case True
    then have s: "s = c @ drop (length c) s" by (metis append_take_drop_id has_prefix_def)
    have "\<exists>w. drop (length c) s = w @ t'" if "x # s = u' @ c @ t'" "u' \<noteq> []" for u' t'
    proof -
      obtain v where "s = v @ c @ t'" using shift \<open>x # s = u' @ c @ t'\<close> \<open>u' \<noteq> []\<close> by blast
      then have "drop (length c) s = drop (length c) (v @ c) @ t'" by simp
      then show ?thesis by blast
    qed
    moreover have "x # s = [x] @ c @ drop (length c) s" using s by simp
    ultimately show ?thesis using True slash match_plain [OF assms(1), of s] by auto
  next
    case no: False
    have later: "v \<noteq> []" if "s = v @ c @ t'" for v t' using that no by (auto simp: has_prefix_def)
    show ?thesis
    proof (cases "match_after c False s")
      case None
      have "u = []" if "x # s = u @ c @ t" for u t using shift that later IH None by fastforce
      then show ?thesis using None no slash match_plain [OF assms(1), of s] by auto
    next
      case (Some t)
      obtain u where u: "s = u @ c @ t" "\<forall>u' t'. s = u' @ c @ t' \<and> u' \<noteq> [] \<longrightarrow> (\<exists>w. t = w @ t')" using IH Some by auto
      have "\<exists>w. t = w @ t'" if "x # s = u' @ c @ t'" "u' \<noteq> []" for u' t' using shift [OF that] later u(2) by blast
      moreover have "x # s = (x # u) @ c @ t" using u(1) by simp
      ultimately show ?thesis using Some no slash match_plain [OF assms(1), of s] by auto
    qed
  qed
qed auto

lemma match_after_last:
  assumes "plain_pattern c" "CHR ''/'' \<notin> set s" "c \<noteq> []"
  shows "(case match_after c True s of Some t \<Rightarrow> t = [] | None \<Rightarrow> False) \<longleftrightarrow> (\<exists>u. u \<noteq> [] \<and> s = u @ c)"
  using assms(2)
proof (induction s)
  case (Cons x s)
  have slash: "x \<noteq> CHR ''/''" "CHR ''/'' \<notin> set s" using Cons.prems by auto
  have eq: "(\<exists>u. u \<noteq> [] \<and> x # s = u @ c) \<longleftrightarrow> s = c \<or> (\<exists>u. u \<noteq> [] \<and> s = u @ c)"
    by (metis append_Cons append_Nil list.discI list.inject list.exhaust)
  have pre: "has_prefix c s \<Longrightarrow> drop (length c) s = [] \<longleftrightarrow> s = c" by (auto simp: has_prefix_def)
  show ?case unfolding eq using Cons.IH [OF slash(2)] slash pre match_plain [OF assms(1), of s] by (auto simp: has_prefix_def)
qed (use assms(3) in auto)

lemma PathMatch_wild:
  assumes "star_pattern p" "CHR ''/'' \<notin> set s"
  shows "PathMatch p s \<longleftrightarrow> wild p s"
  using assms
proof (induction "length p" arbitrary: p s rule: less_induct)
  case less
  show ?case
  proof (cases "p = []")
    case False
    define q where "q = dropWhile is_star p"
    define c where "c = takeWhile (\<lambda>c. \<not> is_star c) q"
    define r where "r = dropWhile (\<lambda>c. \<not> is_star c) q"
    have q: "q = c @ r" by (simp add: c_def r_def)
    have spq: "star_pattern q" using less.prems(1) set_dropWhileD unfolding q_def star_pattern_def by (metis (no_types, lifting) disjoint_iff)
    then have sc: "scan_chunk False q = (c, r)" by (simp add: scan_star_pattern c_def r_def)
    have c: "\<forall>x \<in> set c. \<not> is_star x" unfolding c_def by (auto dest: set_takeWhileD)
    then have plain: "plain_pattern c" using spq unfolding plain_pattern_def star_pattern_def q is_star_def by auto
    have spr: "star_pattern r" using spq by (auto simp: star_pattern_def q)
    have short: "length r < length p" using scan_rest_shorter [OF False] sc unfolding q_def by blast
    have r: "r = [] \<or> is_star (hd r)" unfolding r_def by (metis hd_dropWhile)
    have pm: "PathMatch p s \<longleftrightarrow>
        (if is_star (hd p) \<and> c = [] then True
         else (case match_chunk c s of
             Some t \<Rightarrow> if t = [] \<or> r \<noteq> [] then PathMatch r t
                      else is_star (hd p) \<and> (case match_after c True s of Some u \<Rightarrow> PathMatch r u | None \<Rightarrow> False)
           | None \<Rightarrow> is_star (hd p) \<and> (case match_after c (r = []) s of Some u \<Rightarrow> PathMatch r u | None \<Rightarrow> False)))"
      unfolding PathMatch.simps [of p s] using False less.prems(2) sc by (simp add: q_def [symmetric] Let_def split: option.split)
    have IH: "PathMatch r t \<longleftrightarrow> wild r t" if "CHR ''/'' \<notin> set t" for t using less.hyps [OF short spr that] .
    have rest: "wild r t' \<Longrightarrow> wild r (w @ t')" if "r \<noteq> []" for w t' using that r by (cases r) (auto intro!: wild_absorbs simp del: wild.simps)
    show ?thesis
    proof (cases "is_star (hd p)")
      case star: True
      have w: "wild p s \<longleftrightarrow> (\<exists>u t. s = u @ c @ t \<and> wild r t)"
        using wild_stars [OF False star, of s] wild_plain [OF c, of r] unfolding q_def [symmetric] q by auto
      show ?thesis
      proof (cases "c = []")
        case True
        then have "r = []" using q unfolding q_def by (metis (no_types, lifting) append_Nil hd_dropWhile r)
        then show ?thesis using True star by (simp add: pm w)
      next
        case cne: False
        note first = match_after_first [OF plain less.prems(2)]
        show ?thesis
        proof (cases "r = []")
          case True
          have "wild p s \<longleftrightarrow> (\<exists>u. s = u @ c)" by (simp add: w True)
          also have "\<dots> \<longleftrightarrow> s = c \<or> (\<exists>u. u \<noteq> [] \<and> s = u @ c)" by (metis append_Nil)
          finally show ?thesis using match_after_last [OF plain less.prems(2) cne] star cne True match_plain [OF plain, of s]
            by (auto simp: pm PathMatch.simps [of "[]"] has_prefix_def split: option.splits)
        next
          case rne: False
          show ?thesis
          proof (cases "has_prefix c s")
            case True
            then have s: "s = c @ drop (length c) s" by (metis append_take_drop_id has_prefix_def)
            have "wild p s \<longleftrightarrow> wild r (drop (length c) s)"
            proof
              assume "wild p s"
              then obtain u t where "s = u @ c @ t" "wild r t" unfolding w by blast
              moreover then have "c @ drop (length c) s = (u @ c) @ t" using s by simp
              then obtain x where "drop (length c) s = x @ t"
                by (metis append_eq_append_conv_if append_take_drop_id le_add2 length_append)
              ultimately show "wild r (drop (length c) s)" using rest [OF rne] by simp
            next
              assume "wild r (drop (length c) s)"
              then show "wild p s" unfolding w using s by (metis append_Nil)
            qed
            then show ?thesis using True rne cne less.prems(2) IH match_plain [OF plain, of s] by (simp add: pm) (meson in_set_dropD)
          next
            case no: False
            show ?thesis
            proof (cases "match_after c False s")
              case None
              have "\<not> wild p s" unfolding w using first None no by (force simp: has_prefix_def)
              then show ?thesis using None no rne cne match_plain [OF plain, of s] by (simp add: pm)
            next
              case (Some t)
              obtain u where u: "s = u @ c @ t" "\<forall>u' t'. s = u' @ c @ t' \<and> u' \<noteq> [] \<longrightarrow> (\<exists>w. t = w @ t')"
                using first Some by auto
              have "wild p s \<longleftrightarrow> wild r t"
              proof
                assume "wild p s"
                then obtain u' t' where t': "s = u' @ c @ t'" "wild r t'" unfolding w by blast
                moreover have "u' \<noteq> []" using t'(1) no by (auto simp: has_prefix_def)
                ultimately show "wild r t" using u(2) rest [OF rne] by blast
              qed (use u(1) w in blast)
              moreover have "CHR ''/'' \<notin> set t" using less.prems(2) u(1) by auto
              ultimately show ?thesis using Some no rne cne star IH match_plain [OF plain, of s] by (simp add: pm)
            qed
          qed
        qed
      qed
    next
      case star: False
      then have pq: "p = q" unfolding q_def using False by (cases p) auto
      have w: "wild p s \<longleftrightarrow> (\<exists>t. s = c @ t \<and> wild r t)" unfolding pq q by (rule wild_plain [OF c])
      show ?thesis
      proof (cases "has_prefix c s")
        case True
        then have s: "s = c @ drop (length c) s" by (metis append_take_drop_id has_prefix_def)
        have "wild p s \<longleftrightarrow> wild r (drop (length c) s)" unfolding w using s by (metis append_eq_conv_conj)
        moreover have "CHR ''/'' \<notin> set (drop (length c) s)" using less.prems(2) by (meson in_set_dropD)
        ultimately show ?thesis using True star IH match_plain [OF plain, of s] by (cases "r = []") (auto simp: pm)
      next
        case no: False
        then show ?thesis using star match_plain [OF plain, of s] by (auto simp: pm w has_prefix_def)
      qed
    qed
  qed (simp add: PathMatch.simps)
qed

section \<open>Globs of segments\<close>

function globMatchSegments :: "string list \<Rightarrow> string list \<Rightarrow> bool" where
  "globMatchSegments [] seg = (seg = [])"
| "globMatchSegments (p # ps) seg =
     (if p = ''**'' then
        (if globMatchSegments ps seg then True
         else (case seg of [] \<Rightarrow> False | s # ss \<Rightarrow> globMatchSegments (p # ps) ss))
      else (case seg of [] \<Rightarrow> False | s # ss \<Rightarrow> if \<not> PathMatch p s then False else globMatchSegments ps ss))"
  by pat_completeness auto
termination by (relation "measure (\<lambda>(p, s). length p + length s)") auto

definition globMatch :: "string \<Rightarrow> string \<Rightarrow> bool" where
  "globMatch pattern p =
     globMatchSegments (split_on CHR ''/'' pattern) (if p = '''' then [] else split_on CHR ''/'' p)"

section \<open>Bindings\<close>

definition matchesRepository :: "BindingMatch \<Rightarrow> string \<Rightarrow> bool" where
  "matchesRepository m repository =
     (if bm_RepositoryGlob m \<noteq> '''' then globMatch (bm_RepositoryGlob m) repository
      else if bm_Repository m \<noteq> '''' then bm_Repository m = repository
      else False)"

definition matchesPaths :: "string list \<Rightarrow> string \<Rightarrow> bool" where
  "matchesPaths patterns relPath = (if patterns = [] then True else list_ex (\<lambda>pattern. globMatch pattern relPath) patterns)"

definition MatchBindingsWithMain :: "Binding list \<Rightarrow> string \<Rightarrow> string \<Rightarrow> string \<Rightarrow> Binding list" where
  "MatchBindingsWithMain bindings repository mainRepository relPath =
     filter (\<lambda>b. (matchesRepository (bd_Match b) repository \<or> mainRepository \<noteq> '''' \<and> matchesRepository (bd_Match b) mainRepository) \<and>
        matchesPaths (bm_Paths (bd_Match b)) relPath) bindings"

definition MatchBindings :: "Binding list \<Rightarrow> string \<Rightarrow> string \<Rightarrow> Binding list" where
  "MatchBindings bindings repository relPath = MatchBindingsWithMain bindings repository '''' relPath"

definition MatchedProfileIDs :: "Binding list \<Rightarrow> string list" where
  "MatchedProfileIDs bindings = dedup_on id (concat (map bd_Profiles bindings))"

section \<open>Properties\<close>

text \<open>A list of patterns takes a list of segments when the segments can be cut into blocks, one per pattern.\<close>

definition takes :: "string \<Rightarrow> string list \<Rightarrow> bool" where
  "takes p b \<longleftrightarrow> p = ''**'' \<or> (\<exists>s. b = [s] \<and> wild p s)"

lemma split_no_sep: "x \<in> set (split_on c s) \<Longrightarrow> c \<notin> set x"
proof (induction s arbitrary: x)
  case (Cons a s)
  then show ?case by (cases "split_on c s") (fastforce split: if_splits)+
qed simp

lemma split_chars: "x \<in> set (split_on c s) \<Longrightarrow> set x \<subseteq> set s"
proof (induction s arbitrary: x)
  case (Cons a s)
  then show ?case by (cases "split_on c s") (fastforce split: if_splits)+
qed simp

lemma blocks_Cons:
  "(\<exists>bs. concat bs = seg \<and> list_all2 R (p # ps) bs) \<longleftrightarrow>
     (\<exists>b rest. seg = b @ rest \<and> R p b \<and> (\<exists>bs. concat bs = rest \<and> list_all2 R ps bs))"
proof
  assume "\<exists>bs. concat bs = seg \<and> list_all2 R (p # ps) bs"
  then obtain b bs where "seg = b @ concat bs" "R p b" "list_all2 R ps bs" by (auto simp: list_all2_Cons1)
  then show "\<exists>b rest. seg = b @ rest \<and> R p b \<and> (\<exists>bs. concat bs = rest \<and> list_all2 R ps bs)" by blast
next
  assume "\<exists>b rest. seg = b @ rest \<and> R p b \<and> (\<exists>bs. concat bs = rest \<and> list_all2 R ps bs)"
  then obtain b bs where "seg = b @ concat bs" "R p b" "list_all2 R ps bs" by blast
  then show "\<exists>bs. concat bs = seg \<and> list_all2 R (p # ps) bs" by (intro exI [of _ "b # bs"]) simp
qed

lemma globMatchSegments_blocks:
  assumes "\<forall>p \<in> set ps. star_pattern p" "\<forall>s \<in> set seg. CHR ''/'' \<notin> set s"
  shows "globMatchSegments ps seg \<longleftrightarrow> (\<exists>bs. concat bs = seg \<and> list_all2 takes ps bs)"
  using assms
proof (induction ps seg rule: globMatchSegments.induct)
  case (2 p ps seg)
  note cons = blocks_Cons [of seg takes p ps]
  show ?case
  proof (cases "p = ''**''")
    case True
    have any: "takes p b" for b by (simp add: takes_def True)
    show ?thesis
    proof (cases seg)
      case Nil
      then show ?thesis unfolding cons using 2 True any by simp
    next
      case (Cons s ss)
      have "(\<exists>b rest. s # ss = b @ rest \<and> Q rest) \<longleftrightarrow> Q (s # ss) \<or> (\<exists>b rest. ss = b @ rest \<and> Q rest)" for Q
        by (auto simp: Cons_eq_append_conv)
      then have "(\<exists>b rest. seg = b @ rest \<and> takes p b \<and> (\<exists>bs. concat bs = rest \<and> list_all2 takes ps bs)) \<longleftrightarrow>
          (\<exists>bs. concat bs = seg \<and> list_all2 takes ps bs) \<or>
          (\<exists>b rest. ss = b @ rest \<and> takes p b \<and> (\<exists>bs. concat bs = rest \<and> list_all2 takes ps bs))"
        unfolding Cons using any by simp
      moreover have "(\<exists>bs. concat bs = ss \<and> list_all2 takes (p # ps) bs) \<longleftrightarrow>
          (\<exists>b rest. ss = b @ rest \<and> takes p b \<and> (\<exists>bs. concat bs = rest \<and> list_all2 takes ps bs))"
        by (rule blocks_Cons)
      ultimately show ?thesis unfolding cons using 2 True Cons by auto
    qed
  next
    case False
    then have one: "takes p b \<longleftrightarrow> (\<exists>s. b = [s] \<and> wild p s)" for b by (simp add: takes_def)
    show ?thesis
    proof (cases seg)
      case Nil
      then show ?thesis unfolding cons using False one by auto
    next
      case (Cons s ss)
      have "PathMatch p s \<longleftrightarrow> wild p s" using "2.prems" Cons by (intro PathMatch_wild) auto
      moreover have "(\<exists>b rest. seg = b @ rest \<and> takes p b \<and> (\<exists>bs. concat bs = rest \<and> list_all2 takes ps bs)) \<longleftrightarrow>
          wild p s \<and> (\<exists>bs. concat bs = ss \<and> list_all2 takes ps bs)"
      proof -
        have "(\<exists>b rest. s # ss = b @ rest \<and> (\<exists>x. b = [x] \<and> wild p x) \<and> Q rest) \<longleftrightarrow> wild p s \<and> Q ss" for Q
        proof
          assume "wild p s \<and> Q ss"
          then show "\<exists>b rest. s # ss = b @ rest \<and> (\<exists>x. b = [x] \<and> wild p x) \<and> Q rest" by (intro exI [of _ "[s]"] exI [of _ ss]) simp
        qed auto
        then show ?thesis unfolding one Cons .
      qed
      moreover have "globMatchSegments ps ss \<longleftrightarrow> (\<exists>bs. concat bs = ss \<and> list_all2 takes ps bs)" if "PathMatch p s"
        using "2.IH"(3) [OF False Cons] that "2.prems" Cons by simp
      ultimately show ?thesis unfolding cons using False Cons by auto
    qed
  qed
qed auto

text \<open>C38: globs mean what they say. For patterns built of literal characters and stars, a path matches exactly when its
segments can be cut into consecutive blocks, one for each segment of the pattern, where a double star takes any
block, the empty one included, and any other segment takes a single segment whose text it covers with each star
standing for any text; the search neither misses a match nor invents one.\<close>

theorem glob_match_exact:
  assumes "star_pattern pattern"
  shows "globMatch pattern p \<longleftrightarrow>
    (\<exists>bs. concat bs = (if p = '''' then [] else split_on CHR ''/'' p) \<and> list_all2 takes (split_on CHR ''/'' pattern) bs)"
  unfolding globMatch_def
proof (rule globMatchSegments_blocks)
  show "\<forall>q \<in> set (split_on CHR ''/'' pattern). star_pattern q"
  proof
    fix q assume "q \<in> set (split_on CHR ''/'' pattern)"
    then have "set q \<subseteq> set pattern" by (rule split_chars)
    then show "star_pattern q" using assms unfolding star_pattern_def by auto
  qed
  show "\<forall>s \<in> set (if p = '''' then [] else split_on CHR ''/'' p). CHR ''/'' \<notin> set s"
    using split_no_sep [of _ "CHR ''/''" p] by auto
qed

theorem glob_match_exact_witness: "globMatch ''src/**/*_test.go'' ''src/a/b/x_test.go'' \<and> \<not> globMatch ''*'' ''''"
proof
  have "star_pattern ''src/**/*_test.go''" "star_pattern ''*''" by (simp_all add: star_pattern_def)
  note e = this [THEN glob_match_exact]
  have "wild ''*_test.go'' ''x_test.go''" by (simp add: is_star_def)
  then show "globMatch ''src/**/*_test.go'' ''src/a/b/x_test.go''"
    unfolding e(1) by (intro exI [of _ "[[''src''], [''a'', ''b''], [''x_test.go'']]"]) (simp add: takes_def is_star_def)
  show "\<not> globMatch ''*'' ''''" unfolding e(2) by (auto simp: takes_def list_all2_Cons1)
qed

end
