(* ===== verification/Go_Text.thy ===== *)
theory Go_Text
  imports Go_Strings Go_Fmt
begin

text \<open>
  More of Go's \<^verbatim>\<open>strings\<close> package, over ASCII text: \<^verbatim>\<open>Fields\<close>, \<^verbatim>\<open>ToUpper\<close>, \<^verbatim>\<open>ContainsAny\<close>, decimal numbers, and the sorted keys of a
  map, with the laws the hub relies on.
\<close>

fun split_space :: "string \<Rightarrow> string list" where
  "split_space [] = [[]]"
| "split_space (x # xs) =
     (if is_space x then [] # split_space xs
      else (case split_space xs of [] \<Rightarrow> [[x]] | y # ys \<Rightarrow> (x # y) # ys))"

definition Fields :: "string \<Rightarrow> string list" where
  "Fields s = filter (\<lambda>w. w \<noteq> []) (split_space s)"

definition upper_char :: "char \<Rightarrow> char" where
  "upper_char c = (if is_lower c then char_of (of_char c - 32 :: nat) else c)"

definition ToUpper :: "string \<Rightarrow> string" where
  "ToUpper s = map upper_char s"

definition ContainsAny :: "string \<Rightarrow> string \<Rightarrow> bool" where
  "ContainsAny s chars = list_ex (\<lambda>c. c \<in> set chars) s"

definition sorted_keys :: "'v gomap \<Rightarrow> string list" where
  "sorted_keys m = sort (map_keys m)"

lemma set_sorted_keys [simp]: "set (sorted_keys m) = dom (map_of m)"
  by (simp add: sorted_keys_def map_keys_def dom_map_of_conv_image_fst)

lemma sorted_sorted_keys [simp]: "sorted (sorted_keys m)" "distinct (sorted_keys m)"
  by (simp_all add: sorted_keys_def map_keys_def)

lemma split_space_not_Nil [simp]: "split_space s \<noteq> []"
  by (cases s) (auto split: list.splits)

lemma split_space_single: "\<forall>c \<in> set w. \<not> is_space c \<Longrightarrow> split_space w = [w]"
  by (induction w) auto

lemma split_space_append: "\<forall>c \<in> set w. \<not> is_space c \<Longrightarrow> is_space c \<Longrightarrow> split_space (w @ c # s) = w # split_space s"
  by (induction w) auto

lemma split_space_no_space: "w \<in> set (split_space s) \<Longrightarrow> \<forall>c \<in> set w. \<not> is_space c"
proof (induction s arbitrary: w)
  case (Cons x s)
  then show ?case by (cases "split_space s") (fastforce split: if_splits)+
qed simp

lemma Fields_no_space: "w \<in> set (Fields s) \<Longrightarrow> w \<noteq> [] \<and> (\<forall>c \<in> set w. \<not> is_space c)"
  using split_space_no_space by (auto simp: Fields_def)

lemma Fields_line: "w \<noteq> [] \<Longrightarrow> \<forall>c \<in> set w. \<not> is_space c \<Longrightarrow> Fields (w @ [CHR 0x0A]) = [w]"
  by (simp add: Fields_def split_space_append is_space_def)

lemma hex_chars:
  assumes "c \<in> set ''0123456789abcdef''"
  shows "\<not> is_space c" "\<not> is_upper c"
  using assms by (auto simp: is_space_def is_upper_def less_eq_char_def)

lemma ToLower_id: "\<forall>c \<in> set s. \<not> is_upper c \<Longrightarrow> ToLower s = s"
  by (simp add: ToLower_def lower_char_def map_idI)

definition dec_value :: "string \<Rightarrow> nat" where
  "dec_value s = foldl (\<lambda>a c. a * 10 + (of_char c - 48)) 0 s"

lemma nat_dec_digits: "c \<in> set (nat_dec n) \<Longrightarrow> 48 \<le> (of_char c :: nat) \<and> (of_char c :: nat) < 58"
proof (induction n rule: nat_dec.induct)
  case (1 n)
  then show ?case by (cases "n < 10") (auto simp: nat_dec.simps [of n] of_char_of)
qed

lemma dec_value_nat_dec: "dec_value (nat_dec n) = n"
proof (induction n rule: nat_dec.induct)
  case (1 n)
  show ?case
  proof (cases "n < 10")
    case True
    then show ?thesis by (simp add: nat_dec.simps [of n] dec_value_def of_char_of)
  next
    case False
    then show ?thesis using 1 by (simp add: nat_dec.simps [of n] dec_value_def of_char_of)
  qed
qed

lemma nat_dec_inj: "nat_dec m = nat_dec n \<longleftrightarrow> m = n"
  using dec_value_nat_dec by metis

lemma nat_dec_is_digit: "c \<in> set (nat_dec n) \<Longrightarrow> is_digit c"
  using nat_dec_digits [of c n] by (auto simp: is_digit_def less_eq_char_def)

lemma nat_dec_not_Nil [simp]: "nat_dec n \<noteq> []"
  by (subst nat_dec.simps) simp

text \<open>\<^verbatim>\<open>strconv.Atoi\<close> of a text of digits, on a 64-bit machine.\<close>

definition Atoi :: "string \<Rightarrow> nat option" where
  "Atoi s = (if s \<noteq> [] \<and> list_all is_digit s \<and> dec_value s < 2 ^ 63 then Some (dec_value s) else None)"

lemma Atoi_nat_dec: "n < 2 ^ 63 \<Longrightarrow> Atoi (nat_dec n) = Some n"
  by (auto simp: Atoi_def dec_value_nat_dec list_all_iff nat_dec_is_digit)


text \<open>The bound is compared on integers, which evaluation keeps in binary.\<close>

definition dec_int :: "string \<Rightarrow> int" where
  "dec_int s = foldl (\<lambda>a c. a * 10 + int (of_char c - 48)) 0 s"

lemma dec_int_value: "dec_int s = int (dec_value s)"
proof -
  have *: "foldl (\<lambda>a c. a * 10 + int (of_char c - 48)) (int n) s = int (foldl (\<lambda>a c. a * 10 + (of_char c - 48)) n s)" for n
  proof (induction s arbitrary: n)
    case (Cons c s)
    then show ?case using Cons.IH [of "n * 10 + (of_char c - 48)"] by simp
  qed simp
  show ?thesis using * [of 0] by (simp only: dec_int_def dec_value_def of_nat_0)
qed

lemma Atoi_code [code]: "Atoi s = (if s \<noteq> [] \<and> list_all is_digit s \<and> dec_int s < 9223372036854775808 then Some (nat (dec_int s)) else None)"
  by (simp add: Atoi_def dec_int_value)

end
