(* ===== verification/Profile_Composition.thy ===== *)
theory Profile_Composition
  imports Profile_Match Go_Text Worktree_Store
begin

text \<open>
  \<^verbatim>\<open>internal/profiles\<close>: loading the desired-state documents, resolving which identities apply to a worktree, and
  composing the input of the resolver (\<^verbatim>\<open>document.go\<close>, \<^verbatim>\<open>profile.go\<close>, \<^verbatim>\<open>binding.go\<close>, \<^verbatim>\<open>activation.go\<close>, \<^verbatim>\<open>exception.go\<close>,
  \<^verbatim>\<open>identity.go\<close>, \<^verbatim>\<open>compose.go\<close>).

  The text of a file is read from the disk of the worktree state. Parameters (\<open>documents\<close>): which directories exist and
  what walking one visits, YAML decoding into a generic value, its rendering as JSON, the decoding of JSON into
  each document, and both directions for the document of a selection.
\<close>

section \<open>Documents\<close>

record identitySelectionDocument =
  id_Worktree :: string
  id_SelectedAt :: gotime
  id_Selection :: "string gomap"

record documents =
  dc_stat :: "string \<Rightarrow> ioerr + bool"
  dc_walk :: "string \<Rightarrow> err + (string \<times> bool) list"
  dc_yaml :: "string \<Rightarrow> err + json"
  dc_render :: "json \<Rightarrow> err + string"
  dc_profile :: "string \<Rightarrow> err + Profile"
  dc_binding :: "string \<Rightarrow> err + Binding"
  dc_activation :: "string \<Rightarrow> err + Activation"
  dc_exception :: "string \<Rightarrow> err + Exception"
  dc_marshal :: "identitySelectionDocument \<Rightarrow> err + string"
  dc_unmarshal :: "string \<Rightarrow> err + identitySelectionDocument"

text \<open>\<^verbatim>\<open>filepath.Ext\<close>: from the last dot of the last element on.\<close>

definition Ext :: "string \<Rightarrow> string" where
  "Ext path =
     (let name = rev (takeWhile (\<lambda>c. c \<noteq> CHR ''/'') (rev path))
      in if CHR ''.'' \<in> set name then CHR ''.'' # rev (takeWhile (\<lambda>c. c \<noteq> CHR ''.'') (rev name)) else '''')"

definition decodeYAMLDocument :: "documents \<Rightarrow> (string \<Rightarrow> err + 'a) \<Rightarrow> string \<Rightarrow> disk \<Rightarrow> err + 'a" where
  "decodeYAMLDocument dc unmarshal path dk =
     (case read_file ReadFile path (dk_files dk) dk of
        Inl e \<Rightarrow> Inl (Wrapf ''profiles: %s: %w'' [AStr path] (ioerr_err e))
      | Inr raw \<Rightarrow>
      (case dc_yaml dc raw of
        Inl e \<Rightarrow> Inl (Wrapf ''profiles: %s: invalid YAML: %w'' [AStr path] e)
      | Inr generic \<Rightarrow>
      (case dc_render dc generic of
        Inl e \<Rightarrow> Inl (Wrapf ''profiles: %s: %w'' [AStr path] e)
      | Inr jsonBytes \<Rightarrow>
      (case unmarshal jsonBytes of
        Inl e \<Rightarrow> Inl (Wrapf ''profiles: %s: %w'' [AStr path] e)
      | Inr v \<Rightarrow> Inr v))))"

definition discoverYAMLFiles :: "documents \<Rightarrow> string \<Rightarrow> err + string list" where
  "discoverYAMLFiles dc root =
     (case dc_stat dc root of
        Inl NotExist \<Rightarrow> Inr []
      | Inl (IOErr e) \<Rightarrow> Inl (Wrapf ''profiles: %s: %w'' [AStr root] e)
      | Inr isDir \<Rightarrow>
          if \<not> isDir then Inl (Errorf ''profiles: %s: not a directory'' [AStr root])
          else (case dc_walk dc root of
              Inl e \<Rightarrow> Inl (Wrapf ''profiles: walking %s: %w'' [AStr root] e)
            | Inr entries \<Rightarrow> Inr (sort (map fst (filter (\<lambda>(path, dir). \<not> dir \<and> (Ext path = ''.yaml'' \<or> Ext path = ''.yml'')) entries)))))"

text \<open>The loops over directories and their files: the first error ends them.\<close>

fun load_files :: "(string \<Rightarrow> err + 'a) \<Rightarrow> ('a \<Rightarrow> err option) \<Rightarrow> string list \<Rightarrow> err + 'a list" where
  "load_files decode validate [] = Inr []"
| "load_files decode validate (f # fs) =
     (case decode f of
        Inl e \<Rightarrow> Inl e
      | Inr x \<Rightarrow>
      (case validate x of
        Some e \<Rightarrow> Inl (Wrapf ''profiles: %s: %w'' [AStr f] e)
      | None \<Rightarrow> (case load_files decode validate fs of Inl e \<Rightarrow> Inl e | Inr xs \<Rightarrow> Inr (x # xs))))"

fun load_dirs :: "documents \<Rightarrow> (string \<Rightarrow> err + 'a) \<Rightarrow> ('a \<Rightarrow> err option) \<Rightarrow> string list \<Rightarrow> err + 'a list" where
  "load_dirs dc decode validate [] = Inr []"
| "load_dirs dc decode validate (d # ds) =
     (case discoverYAMLFiles dc d of
        Inl e \<Rightarrow> Inl e
      | Inr files \<Rightarrow>
      (case load_files decode validate files of
        Inl e \<Rightarrow> Inl e
      | Inr xs \<Rightarrow> (case load_dirs dc decode validate ds of Inl e \<Rightarrow> Inl e | Inr ys \<Rightarrow> Inr (xs @ ys))))"

definition LoadProfiles :: "documents \<Rightarrow> string list \<Rightarrow> disk \<Rightarrow> err + Profile list" where
  "LoadProfiles dc dirs dk = load_dirs dc (\<lambda>f. decodeYAMLDocument dc (dc_profile dc) f dk) ValidateProfile dirs"

definition LoadBindings :: "documents \<Rightarrow> string list \<Rightarrow> disk \<Rightarrow> err + Binding list" where
  "LoadBindings dc dirs dk = load_dirs dc (\<lambda>f. decodeYAMLDocument dc (dc_binding dc) f dk) ValidateBinding dirs"

definition Activation_zero :: Activation where
  "Activation_zero =
     \<lparr>ac_APIVersion = '''', ac_Kind = '''', ac_Worktree = '''', ac_Enable = \<lparr>as_Skills = [], as_MCPServers = []\<rparr>,
      ac_Disable = \<lparr>as_Skills = [], as_MCPServers = []\<rparr>, ac_Hosts = []\<rparr>"

text \<open>The activation of a worktree, and whether there is one.\<close>

definition LoadActivation :: "documents \<Rightarrow> string \<Rightarrow> disk \<Rightarrow> err + Activation \<times> bool" where
  "LoadActivation dc path dk =
     (case dc_stat dc path of
        Inl NotExist \<Rightarrow> Inr (Activation_zero, False)
      | Inl (IOErr e) \<Rightarrow> Inl (Wrapf ''profiles: %s: %w'' [AStr path] e)
      | Inr _ \<Rightarrow>
      (case decodeYAMLDocument dc (dc_activation dc) path dk of
        Inl e \<Rightarrow> Inl e
      | Inr a \<Rightarrow> (case ValidateActivation a of Some e \<Rightarrow> Inl (Wrapf ''profiles: %s: %w'' [AStr path] e) | None \<Rightarrow> Inr (a, True))))"

definition activationPath :: "string \<Rightarrow> string" where
  "activationPath worktreeStateDir = Join [worktreeStateDir, ''desired'', ''activation.yaml'']"

text \<open>The document is written to a temporary file (created, written, given its mode) that then replaces the old one.\<close>

definition PersistActivation :: "(Activation \<Rightarrow> err + string) \<Rightarrow> string \<Rightarrow> Activation \<Rightarrow> disk \<Rightarrow> err option \<times> disk" where
  "PersistActivation encode worktreeStateDir a dk =
     (let wrap = Wrapf ''profiles: PersistActivation: %w'' []; path = activationPath worktreeStateDir
      in if worktreeStateDir = '''' then (Some (Errorf ''profiles: PersistActivation: worktreeStateDir is required'' []), dk)
         else (case ValidateActivation a of
             Some e \<Rightarrow> (Some (Wrapf ''profiles: PersistActivation: refusing to persist an invalid Activation: %w'' [] e), dk)
           | None \<Rightarrow>
         (case dk_fault dk MkdirAll (Join [worktreeStateDir, ''desired'']) of
             Some e \<Rightarrow> (Some (wrap e), dk)
           | None \<Rightarrow>
         (case encode a of
             Inl e \<Rightarrow> (Some (wrap e), dk)
           | Inr data \<Rightarrow>
         (case first_err [dk_fault dk WriteFile path, dk_fault dk Chmod path, dk_fault dk Rename path] of
             Some e \<Rightarrow> (Some (wrap e), dk)
           | None \<Rightarrow> (None, dk\<lparr>dk_files := (dk_files dk)(path \<mapsto> data @ [CHR 0x0A])\<rparr>))))))"

record ExceptionLoadResult =
  xl_Live :: "Exception list"
  xl_Expired :: "Exception list"

definition LoadExceptions :: "documents \<Rightarrow> string list \<Rightarrow> gotime \<Rightarrow> disk \<Rightarrow> err + ExceptionLoadResult" where
  "LoadExceptions dc dirs referenceTime dk =
     (case load_dirs dc (\<lambda>f. decodeYAMLDocument dc (dc_exception dc) f dk) ValidateException dirs of
        Inl e \<Rightarrow> Inl e
      | Inr es \<Rightarrow> Inr \<lparr>xl_Live = filter (\<lambda>e. referenceTime < ex_ExpiresAt e) es,
                        xl_Expired = filter (\<lambda>e. \<not> referenceTime < ex_ExpiresAt e) es\<rparr>)"

section \<open>Identities\<close>

definition categoryOrder :: "string list" where
  "categoryOrder = [''personal'', ''company'', ''team'', ''project'', ''task'']"

definition profileCategory :: "string \<Rightarrow> string" where
  "profileCategory pid = takeWhile (\<lambda>c. c \<noteq> CHR '':'') pid"

record AmbiguousCategory =
  am_Category :: string
  am_Candidates :: "string list"

record IdentityResolution =
  ir_Resolved :: "string gomap"
  ir_Ambiguous :: "AmbiguousCategory list"

definition IsAmbiguous :: "IdentityResolution \<Rightarrow> bool" where
  "IsAmbiguous r \<longleftrightarrow> length (ir_Ambiguous r) > 0"

definition dedupeSorted :: "string list \<Rightarrow> string list" where
  "dedupeSorted ids = sort (dedup_on id ids)"

definition resolve_category :: "string list \<Rightarrow> IdentityResolution \<Rightarrow> string \<Rightarrow> IdentityResolution" where
  "resolve_category matchedProfileIDs res cat =
     (let ids = filter (\<lambda>i. profileCategory i = cat) matchedProfileIDs
      in if length ids = 1 then res\<lparr>ir_Resolved := map_put cat (hd ids) (ir_Resolved res)\<rparr>
         else let distinct_ids = dedupeSorted ids
         in if length distinct_ids = 1 then res\<lparr>ir_Resolved := map_put cat (hd distinct_ids) (ir_Resolved res)\<rparr>
            else res\<lparr>ir_Ambiguous := ir_Ambiguous res @ [\<lparr>am_Category = cat, am_Candidates = distinct_ids\<rparr>]\<rparr>)"

definition ResolveIdentities :: "string list \<Rightarrow> IdentityResolution" where
  "ResolveIdentities matchedProfileIDs =
     (let order = sort (dedup_on id (map profileCategory matchedProfileIDs))
      in foldl (resolve_category matchedProfileIDs) \<lparr>ir_Resolved = [], ir_Ambiguous = []\<rparr> order)"

text \<open>The known categories in their order, then the others by name.\<close>

definition category_key :: "string \<Rightarrow> nat \<times> string" where
  "category_key cat =
     (if cat \<in> set categoryOrder then (length (takeWhile (\<lambda>c. c \<noteq> cat) categoryOrder), '''')
      else (length categoryOrder, cat))"

definition orderedCategories :: "string list \<Rightarrow> string list" where
  "orderedCategories categories = sort_key category_key categories"

definition choose_identity :: "IdentityResolution \<Rightarrow> string gomap \<Rightarrow> string \<Rightarrow> err + string" where
  "choose_identity res selection cat =
     (case map_of (ir_Resolved res) cat of
        Some i \<Rightarrow> Inr i
      | None \<Rightarrow>
         (let cands = (case find (\<lambda>a. am_Category a = cat) (ir_Ambiguous res) of Some a \<Rightarrow> am_Candidates a | None \<Rightarrow> []);
              chosen = map_get '''' selection cat
          in if chosen = '''' then
               Inl (Errorf ''profiles: identity category %q is ambiguous (candidates: %v) and no selection was provided'' [AStr cat, AStrs cands])
             else if chosen \<notin> set cands then
               Inl (Errorf ''profiles: selected identity %q for category %q is not one of the plausible candidates %v'' [AStr chosen, AStr cat, AStrs cands])
             else Inr chosen))"

fun FinalProfileIDs_loop :: "IdentityResolution \<Rightarrow> string gomap \<Rightarrow> string list \<Rightarrow> err + string list" where
  "FinalProfileIDs_loop res selection [] = Inr []"
| "FinalProfileIDs_loop res selection (cat # cats) =
     (case choose_identity res selection cat of
        Inl e \<Rightarrow> Inl e
      | Inr i \<Rightarrow> (case FinalProfileIDs_loop res selection cats of Inl e \<Rightarrow> Inl e | Inr out \<Rightarrow> Inr (i # out)))"

definition FinalProfileIDs :: "IdentityResolution \<Rightarrow> string gomap \<Rightarrow> err + string list" where
  "FinalProfileIDs res selection =
     FinalProfileIDs_loop res selection (orderedCategories (map fst (ir_Resolved res) @ map am_Category (ir_Ambiguous res)))"

definition identitiesPath :: "string \<Rightarrow> string" where
  "identitiesPath worktreeStateDir = Join [worktreeStateDir, ''desired'', ''identities.yaml'']"

definition PersistSelection :: "documents \<Rightarrow> string \<Rightarrow> string \<Rightarrow> string gomap \<Rightarrow> gotime \<Rightarrow> disk \<Rightarrow> err option \<times> disk" where
  "PersistSelection dc worktreeStateDir worktreeID selection now dk =
     (let wrap = Wrapf ''profiles: PersistSelection: %w'' []; path = identitiesPath worktreeStateDir
      in if worktreeStateDir = '''' then (Some (Errorf ''profiles: PersistSelection: worktreeStateDir is required'' []), dk)
         else (case dk_fault dk MkdirAll (Join [worktreeStateDir, ''desired'']) of
             Some e \<Rightarrow> (Some (wrap e), dk)
           | None \<Rightarrow>
         (case dc_marshal dc \<lparr>id_Worktree = worktreeID, id_SelectedAt = now, id_Selection = selection\<rparr> of
             Inl e \<Rightarrow> (Some (wrap e), dk)
           | Inr data \<Rightarrow>
         (case first_err [dk_fault dk WriteFile path, dk_fault dk Rename path] of
             Some e \<Rightarrow> (Some (wrap e), dk)
           | None \<Rightarrow> (None, dk\<lparr>dk_files := (dk_files dk)(path \<mapsto> data)\<rparr>)))))"

definition ReadSelection :: "documents \<Rightarrow> string \<Rightarrow> disk \<Rightarrow> err + string gomap \<times> bool" where
  "ReadSelection dc worktreeStateDir dk =
     (let path = identitiesPath worktreeStateDir
      in case read_file ReadFile path (dk_files dk) dk of
           Inl NotExist \<Rightarrow> Inr ([], False)
         | Inl (IOErr e) \<Rightarrow> Inl (Wrapf ''profiles: ReadSelection: %s: %w'' [AStr path] e)
         | Inr raw \<Rightarrow>
         (case dc_unmarshal dc raw of
             Inl e \<Rightarrow> Inl (Wrapf ''profiles: ReadSelection: %s: %w'' [AStr path] e)
           | Inr doc \<Rightarrow> Inr (id_Selection doc, True)))"

section \<open>Composition\<close>

record CompositionInput =
  ci_Repository :: string
  ci_MainRepository :: string
  ci_RelPath :: string
  ci_ProfileDirs :: "string list"
  ci_BindingDirs :: "string list"
  ci_ExceptionDirs :: "string list"
  ci_ActivationPath :: string
  ci_WorktreeStateDir :: string
  ci_Now :: gotime

record CompositionResult =
  cs_Profiles :: "Profile list"
  cs_Activation :: Activation
  cs_Exceptions :: "Exception list"
  cs_ExpiredExceptions :: "Exception list"

datatype compose_error = AmbiguousIdentityError "AmbiguousCategory list" | ComposeError err

definition AmbiguousIdentityError_Error :: "AmbiguousCategory list \<Rightarrow> err" where
  "AmbiguousIdentityError_Error ambiguous =
     Errorf ''profiles: %d identity categories are ambiguous and need an explicit selection'' [AInt (int (length ambiguous))]"

definition selectProfilesByID :: "Profile list \<Rightarrow> string list \<Rightarrow> Profile list" where
  "selectProfilesByID profiles ids =
     (let byID = foldl (\<lambda>m p. map_put (pf_ID p) p m) [] profiles
      in concat (map (\<lambda>i. case map_of byID i of Some p \<Rightarrow> [p] | None \<Rightarrow> []) ids))"

definition Compose :: "documents \<Rightarrow> CompositionInput \<Rightarrow> disk \<Rightarrow> compose_error + CompositionResult" where
  "Compose dc input dk =
     (case LoadProfiles dc (ci_ProfileDirs input) dk of
        Inl e \<Rightarrow> Inl (ComposeError e)
      | Inr allProfiles \<Rightarrow>
      (case LoadBindings dc (ci_BindingDirs input) dk of
        Inl e \<Rightarrow> Inl (ComposeError e)
      | Inr bindings \<Rightarrow>
      (let matched = MatchBindingsWithMain bindings (ci_Repository input) (ci_MainRepository input) (ci_RelPath input);
           resolution = ResolveIdentities (MatchedProfileIDs matched)
       in case ReadSelection dc (ci_WorktreeStateDir input) dk of
        Inl e \<Rightarrow> Inl (ComposeError e)
      | Inr (selection, _) \<Rightarrow>
      (case FinalProfileIDs resolution selection of
        Inl e \<Rightarrow> if IsAmbiguous resolution then Inl (AmbiguousIdentityError (ir_Ambiguous resolution)) else Inl (ComposeError e)
      | Inr finalIDs \<Rightarrow>
      (case LoadActivation dc (ci_ActivationPath input) dk of
        Inl e \<Rightarrow> Inl (ComposeError e)
      | Inr (activation, _) \<Rightarrow>
      (case LoadExceptions dc (ci_ExceptionDirs input) (ci_Now input) dk of
        Inl e \<Rightarrow> Inl (ComposeError e)
      | Inr exResult \<Rightarrow>
          Inr \<lparr>cs_Profiles = selectProfilesByID allProfiles finalIDs, cs_Activation = activation,
                cs_Exceptions = xl_Live exResult, cs_ExpiredExceptions = xl_Expired exResult\<rparr>))))))"

section \<open>Identities: lemmas\<close>

lemma map_put_new: "k \<notin> fst ` set m \<Longrightarrow> map_put k v m = m @ [(k, v)]"
  by (induction k v m rule: map_put.induct) auto

definition ids_in :: "string list \<Rightarrow> string \<Rightarrow> string list" where
  "ids_in m cat = dedupeSorted (filter (\<lambda>i. profileCategory i = cat) m)"

lemma set_dedupeSorted [simp]: "set (dedupeSorted ids) = set ids"
  using dedup_seen_keys [of id "[]" ids] by (simp add: dedupeSorted_def dedup_on_def)

lemma distinct_dedupeSorted [simp]: "distinct (dedupeSorted ids)"
  using dedup_seen_distinct [of id "[]" ids] by (simp add: dedupeSorted_def dedup_on_def)

lemma set_ids_in [simp]: "set (ids_in m cat) = {i \<in> set m. profileCategory i = cat}"
  by (auto simp: ids_in_def)

lemma ids_in_single: "length (ids_in m cat) = 1 \<longleftrightarrow> (\<exists>i. {j \<in> set m. profileCategory j = cat} = {i})"
proof -
  have "length (ids_in m cat) = card {j \<in> set m. profileCategory j = cat}"
    using distinct_card [of "ids_in m cat"] by (simp add: ids_in_def [symmetric]) (simp add: ids_in_def)
  then show ?thesis by (simp add: card_1_singleton_iff)
qed

lemma resolve_category_eq:
  "resolve_category m res cat =
     (if length (ids_in m cat) = 1 then res\<lparr>ir_Resolved := map_put cat (hd (ids_in m cat)) (ir_Resolved res)\<rparr>
      else res\<lparr>ir_Ambiguous := ir_Ambiguous res @ [\<lparr>am_Category = cat, am_Candidates = ids_in m cat\<rparr>]\<rparr>)"
proof (cases "length (filter (\<lambda>i. profileCategory i = cat) m) = 1")
  case True
  then obtain i where i: "filter (\<lambda>i. profileCategory i = cat) m = [i]" by (auto simp: length_Suc_conv)
  then have "ids_in m cat = [i]" by (simp add: ids_in_def dedupeSorted_def dedup_on_def)
  then show ?thesis using i by (simp add: resolve_category_def Let_def)
qed (simp add: resolve_category_def ids_in_def Let_def)

lemma resolve_categories:
  assumes "distinct order"
  shows "foldl (resolve_category m) \<lparr>ir_Resolved = [], ir_Ambiguous = []\<rparr> order =
     \<lparr>ir_Resolved = map (\<lambda>c. (c, hd (ids_in m c))) (filter (\<lambda>c. length (ids_in m c) = 1) order),
      ir_Ambiguous = map (\<lambda>c. \<lparr>am_Category = c, am_Candidates = ids_in m c\<rparr>) (filter (\<lambda>c. length (ids_in m c) \<noteq> 1) order)\<rparr>"
  using assms
proof (induction order rule: rev_induct)
  case (snoc c order)
  then have "c \<notin> fst ` set (map (\<lambda>c. (c, hd (ids_in m c))) (filter (\<lambda>c. length (ids_in m c) = 1) order))" by auto
  then show ?case using snoc by (simp add: resolve_category_eq map_put_new)
qed simp

definition categories_of :: "string list \<Rightarrow> string list" where
  "categories_of m = sort (dedup_on id (map profileCategory m))"

lemma categories_of [simp]: "set (categories_of m) = profileCategory ` set m" "distinct (categories_of m)"
  using dedup_seen_keys [of id "[]" "map profileCategory m"] dedup_seen_distinct [of id "[]" "map profileCategory m"]
  by (simp_all add: categories_of_def dedup_on_def)

lemma ResolveIdentities_eq:
  "ResolveIdentities m =
     \<lparr>ir_Resolved = map (\<lambda>c. (c, hd (ids_in m c))) (filter (\<lambda>c. length (ids_in m c) = 1) (categories_of m)),
      ir_Ambiguous = map (\<lambda>c. \<lparr>am_Category = c, am_Candidates = ids_in m c\<rparr>) (filter (\<lambda>c. length (ids_in m c) \<noteq> 1) (categories_of m))\<rparr>"
  unfolding ResolveIdentities_def Let_def categories_of_def [symmetric] by (rule resolve_categories) simp

text \<open>The identity of a category: the only one that matched, or the selected one of those that matched.\<close>

definition identity_of :: "string list \<Rightarrow> string gomap \<Rightarrow> string \<Rightarrow> string \<Rightarrow> bool" where
  "identity_of m selection cat i \<longleftrightarrow>
     i \<in> set m \<and> profileCategory i = cat \<and>
     ((\<forall>j \<in> set m. profileCategory j = cat \<longrightarrow> j = i) \<or> i \<noteq> '''' \<and> map_of selection cat = Some i)"

lemma map_of_pairs: "map_of (map (\<lambda>c. (c, f c)) xs) c = (if c \<in> set xs then Some (f c) else None)"
  by (induction xs) auto

lemma find_category: "find (\<lambda>a. am_Category a = c) (map (\<lambda>c. \<lparr>am_Category = c, am_Candidates = f c\<rparr>) xs) =
    (if c \<in> set xs then Some \<lparr>am_Category = c, am_Candidates = f c\<rparr> else None)"
  by (induction xs) auto

lemma choose_identity_exact:
  assumes "cat \<in> profileCategory ` set m"
  shows "choose_identity (ResolveIdentities m) selection cat = Inr i \<longleftrightarrow> identity_of m selection cat i"
proof (cases "length (ids_in m cat) = 1")
  case True
  then obtain j where j: "ids_in m cat = [j]" by (auto simp: length_Suc_conv)
  then have s: "{i \<in> set m. profileCategory i = cat} = {j}" using set_ids_in [of m cat] by simp
  have "choose_identity (ResolveIdentities m) selection cat = Inr j"
    using assms True j by (simp add: choose_identity_def ResolveIdentities_eq map_of_pairs)
  moreover have only: "i' \<in> set m \<and> profileCategory i' = cat \<longleftrightarrow> i' = j" for i' using s by blast
  then have "identity_of m selection cat i \<longleftrightarrow> i = j" unfolding identity_of_def by metis
  ultimately show ?thesis by auto
next
  case False
  then have many: "\<not> (\<forall>j \<in> set m. profileCategory j = cat \<longrightarrow> j = i)" if "i \<in> set m" "profileCategory i = cat" for i
    using that unfolding ids_in_single by auto
  have r: "map_of (ir_Resolved (ResolveIdentities m)) cat = None" using False by (simp add: ResolveIdentities_eq map_of_pairs)
  have a: "find (\<lambda>a. am_Category a = cat) (ir_Ambiguous (ResolveIdentities m)) = Some \<lparr>am_Category = cat, am_Candidates = ids_in m cat\<rparr>"
    using assms False by (simp add: ResolveIdentities_eq find_category)
  have "choose_identity (ResolveIdentities m) selection cat = Inr i \<longleftrightarrow>
      i \<noteq> '''' \<and> map_get '''' selection cat = i \<and> i \<in> set (ids_in m cat)"
    unfolding choose_identity_def r a Let_def by auto
  then show ?thesis using many by (auto simp: identity_of_def map_get_def split: option.splits)
qed

lemma FinalProfileIDs_loop_Inr:
  "FinalProfileIDs_loop res selection cats = Inr out \<longleftrightarrow> list_all2 (\<lambda>c i. choose_identity res selection c = Inr i) cats out"
proof (induction cats arbitrary: out)
  case (Cons c cs)
  show ?case
    by (cases "choose_identity res selection c"; cases "FinalProfileIDs_loop res selection cs")
      (auto simp: list_all2_Cons1 Cons.IH [symmetric])
qed auto

lemma FinalProfileIDs_loop_Inl:
  "(\<exists>e. FinalProfileIDs_loop res selection cats = Inl e) \<longleftrightarrow> (\<exists>c \<in> set cats. \<nexists>i. choose_identity res selection c = Inr i)"
  by (induction cats) (auto split: sum.splits)

definition ordered_categories_of :: "string list \<Rightarrow> string list" where
  "ordered_categories_of m = orderedCategories (map fst (ir_Resolved (ResolveIdentities m)) @ map am_Category (ir_Ambiguous (ResolveIdentities m)))"

lemma ordered_categories_of [simp]:
  "set (ordered_categories_of m) = profileCategory ` set m" "distinct (ordered_categories_of m)"
  "sorted (map category_key (ordered_categories_of m))"
  by (auto simp: ordered_categories_of_def orderedCategories_def ResolveIdentities_eq comp_def distinct_sort)

lemma FinalProfileIDs_Inr:
  assumes "FinalProfileIDs (ResolveIdentities m) selection = Inr out"
  shows "map profileCategory out = ordered_categories_of m" "\<forall>i \<in> set out. identity_of m selection (profileCategory i) i"
proof -
  have a: "list_all2 (\<lambda>c i. choose_identity (ResolveIdentities m) selection c = Inr i) (ordered_categories_of m) out"
    using assms by (simp add: FinalProfileIDs_def FinalProfileIDs_loop_Inr ordered_categories_of_def)
  then have b: "list_all2 (\<lambda>c i. identity_of m selection c i) (ordered_categories_of m) out"
    by (rule list.rel_mono_strong) (simp add: choose_identity_exact)
  have "list_all2 (\<lambda>c i. profileCategory i = c) (ordered_categories_of m) out"
    by (rule list.rel_mono_strong [OF b]) (simp add: identity_of_def)
  then show "map profileCategory out = ordered_categories_of m" by (induction rule: list_all2_induct) auto
  have "list_all2 (\<lambda>c i. identity_of m selection (profileCategory i) i) (ordered_categories_of m) out"
    by (rule list.rel_mono_strong [OF b]) (auto simp: identity_of_def)
  then show "\<forall>i \<in> set out. identity_of m selection (profileCategory i) i" by (induction rule: list_all2_induct) auto
qed

lemma FinalProfileIDs_Inl:
  "(\<exists>e. FinalProfileIDs (ResolveIdentities m) selection = Inl e) \<longleftrightarrow>
     (\<exists>c \<in> profileCategory ` set m. \<nexists>i. identity_of m selection c i)"
  unfolding FinalProfileIDs_def FinalProfileIDs_loop_Inl ordered_categories_of_def [symmetric] by (auto simp: choose_identity_exact)

section \<open>Composition: lemmas\<close>



lemma byID_lookup:
  "map_of (foldl (\<lambda>m p. map_put (pf_ID p) p m) [] ps) i = find (\<lambda>p. pf_ID p = i) (rev ps)"
  by (induction ps rule: rev_induct) auto

lemma find_ID: "find (\<lambda>p. pf_ID p = i) ps = Some p \<Longrightarrow> p \<in> set ps \<and> pf_ID p = i"
  by (auto simp: find_Some_iff)

lemma selectProfilesByID_eq:
  "selectProfilesByID ps ids = concat (map (\<lambda>i. case find (\<lambda>p. pf_ID p = i) (rev ps) of Some p \<Rightarrow> [p] | None \<Rightarrow> []) ids)"
  by (simp add: selectProfilesByID_def byID_lookup)


lemma selectProfilesByID_IDs: "map pf_ID (selectProfilesByID ps ids) = filter (\<lambda>i. i \<in> pf_ID ` set ps) ids"
proof (induction ids)
  case (Cons i ids)
  have "find (\<lambda>p. pf_ID p = i) (rev ps) = None \<longleftrightarrow> i \<notin> pf_ID ` set ps" by (auto simp: find_None_iff)
  then show ?case using Cons by (auto simp: selectProfilesByID_eq split: option.splits dest: find_ID)
qed (simp add: selectProfilesByID_eq)


definition matched_ids :: "CompositionInput \<Rightarrow> Binding list \<Rightarrow> string list" where
  "matched_ids input bindings =
     MatchedProfileIDs (MatchBindingsWithMain bindings (ci_Repository input) (ci_MainRepository input) (ci_RelPath input))"

lemma Compose_loaded:
  assumes "LoadProfiles dc (ci_ProfileDirs input) dk = Inr ps" "LoadBindings dc (ci_BindingDirs input) dk = Inr bs"
    and "ReadSelection dc (ci_WorktreeStateDir input) dk = Inr (selection, found)"
  shows "Compose dc input dk =
    (case FinalProfileIDs (ResolveIdentities (matched_ids input bs)) selection of
        Inl e \<Rightarrow> if IsAmbiguous (ResolveIdentities (matched_ids input bs)) then Inl (AmbiguousIdentityError (ir_Ambiguous (ResolveIdentities (matched_ids input bs))))
                else Inl (ComposeError e)
      | Inr finalIDs \<Rightarrow>
      (case LoadActivation dc (ci_ActivationPath input) dk of
        Inl e \<Rightarrow> Inl (ComposeError e)
      | Inr (activation, _) \<Rightarrow>
      (case LoadExceptions dc (ci_ExceptionDirs input) (ci_Now input) dk of
        Inl e \<Rightarrow> Inl (ComposeError e)
      | Inr exResult \<Rightarrow>
          Inr \<lparr>cs_Profiles = selectProfilesByID ps finalIDs, cs_Activation = activation,
                cs_Exceptions = xl_Live exResult, cs_ExpiredExceptions = xl_Expired exResult\<rparr>)))"
  using assms by (simp add: Compose_def matched_ids_def Let_def split: sum.split)


lemma unresolved_is_ambiguous:
  assumes "FinalProfileIDs (ResolveIdentities m) selection = Inl e"
  shows "IsAmbiguous (ResolveIdentities m)"
proof -
  obtain c where c: "c \<in> profileCategory ` set m" "\<nexists>i. identity_of m selection c i"
    using FinalProfileIDs_Inl [of m selection] assms by blast
  then obtain j where "j \<in> set m" "profileCategory j = c" by blast
  have "length (ids_in m c) \<noteq> 1"
  proof
    assume "length (ids_in m c) = 1"
    then obtain i where "{j \<in> set m. profileCategory j = c} = {i}" unfolding ids_in_single by blast
    then have "identity_of m selection c i" unfolding identity_of_def by blast
    then show False using c(2) by blast
  qed
  then show ?thesis using c(1) by (auto simp: IsAmbiguous_def ResolveIdentities_eq filter_empty_conv)
qed

lemma ambiguous_exact:
  "c \<in> am_Category ` set (ir_Ambiguous (ResolveIdentities m)) \<longleftrightarrow>
     (\<exists>i \<in> set m. \<exists>j \<in> set m. i \<noteq> j \<and> profileCategory i = c \<and> profileCategory j = c)"
proof -
  have "c \<in> am_Category ` set (ir_Ambiguous (ResolveIdentities m)) \<longleftrightarrow> c \<in> profileCategory ` set m \<and> length (ids_in m c) \<noteq> 1"
    by (force simp: ResolveIdentities_eq)
  also have "\<dots> \<longleftrightarrow> (\<exists>i \<in> set m. \<exists>j \<in> set m. i \<noteq> j \<and> profileCategory i = c \<and> profileCategory j = c)"
  proof
    assume a: "c \<in> profileCategory ` set m \<and> length (ids_in m c) \<noteq> 1"
    then obtain i where i: "i \<in> set m" "profileCategory i = c" by blast
    then have "{j \<in> set m. profileCategory j = c} \<noteq> {i}" using a unfolding ids_in_single by blast
    then show "\<exists>i \<in> set m. \<exists>j \<in> set m. i \<noteq> j \<and> profileCategory i = c \<and> profileCategory j = c" using i by blast
  next
    assume "\<exists>i \<in> set m. \<exists>j \<in> set m. i \<noteq> j \<and> profileCategory i = c \<and> profileCategory j = c"
    then obtain i j where ij: "i \<in> set m" "j \<in> set m" "i \<noteq> j" "profileCategory i = c" "profileCategory j = c" by blast
    have "length (ids_in m c) \<noteq> 1"
    proof
      assume "length (ids_in m c) = 1"
      then obtain k where "{j \<in> set m. profileCategory j = c} = {k}" unfolding ids_in_single by blast
      then have "i = k" "j = k" using ij by blast+
      then show False using ij(3) by simp
    qed
    then show "c \<in> profileCategory ` set m \<and> length (ids_in m c) \<noteq> 1" using ij by blast
  qed
  finally show ?thesis .
qed

section \<open>Properties\<close>



text \<open>An ambiguity is reported exactly when it is open. Once profiles, bindings and the selection are read, composition
asks the user exactly when for some category several identities matched and the selection names none of them, and
then it names exactly the categories with several matches; and otherwise it fails only if the activation or the
exceptions cannot be read.\<close>

theorem ambiguity_reported_exactly:
  assumes "LoadProfiles dc (ci_ProfileDirs input) dk = Inr ps" "LoadBindings dc (ci_BindingDirs input) dk = Inr bs"
    and "ReadSelection dc (ci_WorktreeStateDir input) dk = Inr (selection, found)"
  shows "((\<exists>amb. Compose dc input dk = Inl (AmbiguousIdentityError amb)) \<longleftrightarrow>
      (\<exists>c \<in> profileCategory ` set (matched_ids input bs). \<nexists>i. identity_of (matched_ids input bs) selection c i)) \<and>
    (\<forall>amb. Compose dc input dk = Inl (AmbiguousIdentityError amb) \<longrightarrow>
      am_Category ` set amb = {c. \<exists>i \<in> set (matched_ids input bs). \<exists>j \<in> set (matched_ids input bs). i \<noteq> j \<and> profileCategory i = c \<and> profileCategory j = c}) \<and>
    (\<forall>e. Compose dc input dk = Inl (ComposeError e) \<longrightarrow>
      LoadActivation dc (ci_ActivationPath input) dk = Inl e \<or> LoadExceptions dc (ci_ExceptionDirs input) (ci_Now input) dk = Inl e)"
proof -
  let ?m = "matched_ids input bs"
  have amb: "am_Category ` set (ir_Ambiguous (ResolveIdentities ?m)) =
      {c. \<exists>i \<in> set ?m. \<exists>j \<in> set ?m. i \<noteq> j \<and> profileCategory i = c \<and> profileCategory j = c}"
    using ambiguous_exact by blast
  note c = Compose_loaded [OF assms]
  show ?thesis
  proof (cases "FinalProfileIDs (ResolveIdentities ?m) selection")
    case (Inl e)
    then have "Compose dc input dk = Inl (AmbiguousIdentityError (ir_Ambiguous (ResolveIdentities ?m)))"
      using unresolved_is_ambiguous [OF Inl] by (simp add: c)
    then show ?thesis using amb Inl FinalProfileIDs_Inl [of ?m selection] by simp
  next
    case (Inr ids)
    then have "\<nexists>c. c \<in> profileCategory ` set ?m \<and> (\<nexists>i. identity_of ?m selection c i)" using FinalProfileIDs_Inl [of ?m selection] by auto
    moreover have "\<nexists>amb. Compose dc input dk = Inl (AmbiguousIdentityError amb)" by (auto simp: c Inr split: sum.splits)
    moreover have "LoadActivation dc (ci_ActivationPath input) dk = Inl e \<or> LoadExceptions dc (ci_ExceptionDirs input) (ci_Now input) dk = Inl e"
      if "Compose dc input dk = Inl (ComposeError e)" for e
      using that by (auto simp: c Inr split: sum.splits)
    ultimately show ?thesis by blast
  qed
qed

text \<open>C35: a selection settles the identities. When a selection that names, for every category with several matches, one of
them has been persisted, the next composition reads it back and succeeds, with exactly one identity of every matched
category, the selected one where there was a choice; profiles that are named but not present are left out.\<close>

theorem selection_settles_identities:
  assumes persist: "PersistSelection dc (ci_WorktreeStateDir input) wid selection now dk0 = (None, dk)"
    and yaml: "\<And>s. dc_marshal dc \<lparr>id_Worktree = wid, id_SelectedAt = now, id_Selection = selection\<rparr> = Inr s \<Longrightarrow>
      \<exists>doc'. dc_unmarshal dc s = Inr doc' \<and> id_Selection doc' = selection"
    and readable: "dk_fault dk0 ReadFile (identitiesPath (ci_WorktreeStateDir input)) = None"
    and load: "LoadProfiles dc (ci_ProfileDirs input) dk = Inr ps" "LoadBindings dc (ci_BindingDirs input) dk = Inr bs"
      "LoadActivation dc (ci_ActivationPath input) dk = Inr act" "LoadExceptions dc (ci_ExceptionDirs input) (ci_Now input) dk = Inr exs"
    and complete: "\<forall>c \<in> profileCategory ` set (matched_ids input bs). \<exists>i. identity_of (matched_ids input bs) selection c i"
  shows "\<exists>res. Compose dc input dk = Inr res \<and>
    pf_ID ` set (cs_Profiles res) = {i. identity_of (matched_ids input bs) selection (profileCategory i) i} \<inter> pf_ID ` set ps"
proof -
  let ?m = "matched_ids input bs"
  obtain data where data: "dc_marshal dc \<lparr>id_Worktree = wid, id_SelectedAt = now, id_Selection = selection\<rparr> = Inr data"
    "dk = dk0\<lparr>dk_files := (dk_files dk0)(identitiesPath (ci_WorktreeStateDir input) \<mapsto> data)\<rparr>"
    using persist by (auto simp: PersistSelection_def Let_def split: if_splits option.splits sum.splits)
  obtain doc where "dc_unmarshal dc data = Inr doc" "id_Selection doc = selection" using yaml [OF data(1)] by auto
  then have read: "ReadSelection dc (ci_WorktreeStateDir input) dk = Inr (selection, True)"
    using readable by (simp add: ReadSelection_def read_file_def data(2) Let_def)
  obtain ids where ids: "FinalProfileIDs (ResolveIdentities ?m) selection = Inr ids"
    using FinalProfileIDs_Inl [of ?m selection] complete by (cases "FinalProfileIDs (ResolveIdentities ?m) selection") auto
  note final = FinalProfileIDs_Inr [OF ids]
  obtain a b where act: "act = (a, b)" by force
  have c: "Compose dc input dk = Inr \<lparr>cs_Profiles = selectProfilesByID ps ids, cs_Activation = a,
      cs_Exceptions = xl_Live exs, cs_ExpiredExceptions = xl_Expired exs\<rparr>"
    using load(3,4) ids act by (simp add: Compose_loaded [OF load(1,2) read])
  have "set ids = {i. identity_of ?m selection (profileCategory i) i}"
  proof
    show "{i. identity_of ?m selection (profileCategory i) i} \<subseteq> set ids"
    proof
      fix i assume "i \<in> {i. identity_of ?m selection (profileCategory i) i}"
      then have i: "identity_of ?m selection (profileCategory i) i" "i \<in> set ?m" by (auto simp: identity_of_def)
      then have "profileCategory i \<in> set (map profileCategory ids)" by (simp add: final(1))
      then obtain j where j: "j \<in> set ids" "profileCategory j = profileCategory i" by auto
      then have "identity_of ?m selection (profileCategory i) j" using final(2) by auto
      then have "j = i" using i(1) by (auto simp: identity_of_def)
      then show "i \<in> set ids" using j(1) by simp
    qed
  qed (use final(2) in auto)
  moreover have "pf_ID ` set (selectProfilesByID ps ids) = set ids \<inter> pf_ID ` set ps"
    using selectProfilesByID_IDs [of ps ids] by (metis Int_Collect image_set set_filter inf_commute Collect_mem_eq Int_def)
  ultimately show ?thesis using c by simp
qed


text \<open>At the root, a pattern matches only if all its segments are double stars.\<close>

lemma root_matches_only_doublestars: "globMatchSegments ps [] \<longleftrightarrow> set ps \<subseteq> {''**''}"
  by (induction ps) auto

lemma scoped_binding_unmatched:
  assumes "bm_Paths (bd_Match b) \<noteq> []" "\<forall>pattern \<in> set (bm_Paths (bd_Match b)). \<exists>s \<in> set (split_on CHR ''/'' pattern). s \<noteq> ''**''"
  shows "\<not> matchesPaths (bm_Paths (bd_Match b)) ''''"
proof -
  have "\<not> globMatch pattern ''''" if "pattern \<in> set (bm_Paths (bd_Match b))" for pattern
    using assms(2) that by (auto simp: globMatch_def root_matches_only_doublestars)
  then show ?thesis using assms(1) by (auto simp: matchesPaths_def list_ex_iff)
qed

text \<open>A saved activation is read back. When the activation of a worktree has been persisted, loading it yields the same
document; what would not load is not written.\<close>

theorem activation_reads_back:
  assumes "PersistActivation encode w a dk = (None, dk')"
    and "\<And>text. encode a = Inr text \<Longrightarrow> \<exists>g j. dc_yaml dc (text @ [CHR 0x0A]) = Inr g \<and> dc_render dc g = Inr j \<and> dc_activation dc j = Inr a"
    and "dc_stat dc (activationPath w) = Inr False" "dk_fault dk ReadFile (activationPath w) = None"
  shows "LoadActivation dc (activationPath w) dk' = Inr (a, True)"
proof -
  obtain data where t: "encode a = Inr data" "dk' = dk\<lparr>dk_files := (dk_files dk)(activationPath w \<mapsto> data @ [CHR 0x0A])\<rparr>" "ValidateActivation a = None"
    using assms(1) by (auto simp: PersistActivation_def Let_def split: if_splits option.splits sum.splits)
  then show ?thesis using assms(2) [OF t(1)] assms(3,4)
    by (auto simp: LoadActivation_def decodeYAMLDocument_def read_file_def)
qed

section \<open>Samples\<close>

definition sample_pf :: "string \<Rightarrow> Intent \<Rightarrow> Profile" where
  "sample_pf i intent = \<lparr>pf_APIVersion = SupportedAPIVersion, pf_Kind = ''Profile'', pf_ID = i,
     pf_Skills = [\<lparr>ar_ID = ''lint'', ar_Intent = intent, ar_Hosts = []\<rparr>], pf_MCPServers = [], pf_Instructions = [], pf_Permissions = []\<rparr>"

definition sample_bd :: "string list \<Rightarrow> string list \<Rightarrow> Binding" where
  "sample_bd ids paths = \<lparr>bd_APIVersion = SupportedAPIVersion, bd_Kind = ''Binding'', bd_ID = ''b'',
     bd_Match = \<lparr>bm_Repository = ''/r'', bm_RepositoryGlob = '''', bm_Paths = paths\<rparr>, bd_Profiles = ids\<rparr>"

text \<open>Two teams are bound to the repository, and one file of the repository repeats the identifier of the company's.\<close>

definition sample_documents :: documents where
  "sample_documents = \<lparr>
     dc_stat = (\<lambda>p. if p = ''/p'' \<or> p = ''/b'' then Inr True else Inl NotExist),
     dc_walk = (\<lambda>p. Inr (if p = ''/p'' then [(''/p'', True), (''/p/1.yaml'', False), (''/p/2.yaml'', False), (''/p/3.yml'', False), (''/p/4.yml'', False), (''/p/x.md'', False)]
                        else [(''/b/1.yaml'', False)])),
     dc_yaml = (\<lambda>s. Inr (JStr s)), dc_render = (\<lambda>j. case j of JStr s \<Rightarrow> Inr s | _ \<Rightarrow> Inl (Errorf '''' [])),
     dc_profile = (\<lambda>s. Inr (if s = ''later'' then sample_pf ''company:x'' IntentDefault else sample_pf s (if s = ''company:x'' then IntentDenied else IntentDefault))),
     dc_binding = (\<lambda>s. Inr (sample_bd [''company:x'', ''team:a'', ''team:b''] [''**''])),
     dc_activation = (\<lambda>s. Inr Activation_zero), dc_exception = (\<lambda>s. Inl (Errorf '''' [])),
     dc_marshal = (\<lambda>d. Inr (map_get '''' (id_Selection d) ''team'')),
     dc_unmarshal = (\<lambda>s. Inr \<lparr>id_Worktree = '''', id_SelectedAt = 0, id_Selection = [(''team'', s)]\<rparr>)\<rparr>"

definition sample_files :: "(string \<rightharpoonup> string) \<Rightarrow> disk" where
  "sample_files extra = \<lparr>dk_links = Map.empty, dk_records = Map.empty, dk_manifests = Map.empty,
     dk_files = [''/p/1.yaml'' \<mapsto> ''company:x'', ''/p/2.yaml'' \<mapsto> ''team:a'', ''/p/3.yml'' \<mapsto> ''team:b'', ''/p/4.yml'' \<mapsto> ''later'', ''/b/1.yaml'' \<mapsto> ''b''] ++ extra,
     dk_ledgers = Map.empty, dk_locks = [], dk_fault = (\<lambda>_ _. None)\<rparr>"

definition sample_composition :: CompositionInput where
  "sample_composition = \<lparr>ci_Repository = ''/r'', ci_MainRepository = '''', ci_RelPath = '''', ci_ProfileDirs = [''/p''], ci_BindingDirs = [''/b''],
     ci_ExceptionDirs = [''/e''], ci_ActivationPath = ''/s/desired/activation.yaml'', ci_WorktreeStateDir = ''/s'', ci_Now = 1\<rparr>"

lemma sample_identities: "identitiesPath ''/s'' = ''/s/desired/identities.yaml''"
  by code_simp

lemma sample_ext:
  "Ext ''/p/1.yaml'' = ''.yaml''" "Ext ''/p/2.yaml'' = ''.yaml''" "Ext ''/p/3.yml'' = ''.yml''" "Ext ''/p/4.yml'' = ''.yml''"
  "Ext ''/p/x.md'' = ''.md''" "Ext ''/b/1.yaml'' = ''.yaml''"
  by (simp_all add: Ext_def)

lemma sample_discover:
  "discoverYAMLFiles sample_documents ''/p'' = Inr [''/p/1.yaml'', ''/p/2.yaml'', ''/p/3.yml'', ''/p/4.yml'']"
  "discoverYAMLFiles sample_documents ''/b'' = Inr [''/b/1.yaml'']"
  "discoverYAMLFiles sample_documents ''/e'' = Inr []"
proof -
  have "sort [''/p/1.yaml'', ''/p/2.yaml'', ''/p/3.yml'', ''/p/4.yml''] = [''/p/1.yaml'', ''/p/2.yaml'', ''/p/3.yml'', ''/p/4.yml'']" by code_simp
  then show "discoverYAMLFiles sample_documents ''/p'' = Inr [''/p/1.yaml'', ''/p/2.yaml'', ''/p/3.yml'', ''/p/4.yml'']"
    by (simp add: discoverYAMLFiles_def sample_documents_def sample_ext)
qed (simp_all add: discoverYAMLFiles_def sample_documents_def sample_ext)

definition sample_profiles :: "Profile list" where
  "sample_profiles = [sample_pf ''company:x'' IntentDenied, sample_pf ''team:a'' IntentDefault, sample_pf ''team:b'' IntentDefault]"

lemma sample_valid: "ValidateProfile (sample_pf i intent) = None \<longleftrightarrow> i \<noteq> [] \<and> Intent_Valid intent"
  "ValidateBinding (sample_bd ids paths) = None \<longleftrightarrow> ids \<noteq> []"
  by (auto simp: ValidateProfile_None_iff ValidateBinding_None_iff sample_pf_def sample_bd_def profile_refs_def)

lemma sample_loads:
  assumes "dom extra \<subseteq> {identitiesPath ''/s''}"
  shows "LoadProfiles sample_documents (ci_ProfileDirs sample_composition) (sample_files extra) = Inr (sample_profiles @ [sample_pf ''company:x'' IntentDefault])"
    "LoadBindings sample_documents (ci_BindingDirs sample_composition) (sample_files extra) = Inr [sample_bd [''company:x'', ''team:a'', ''team:b''] [''**'']]"
    "LoadActivation sample_documents (ci_ActivationPath sample_composition) (sample_files extra) = Inr (Activation_zero, False)"
    "LoadExceptions sample_documents (ci_ExceptionDirs sample_composition) (ci_Now sample_composition) (sample_files extra) = Inr \<lparr>xl_Live = [], xl_Expired = []\<rparr>"
proof -
  have e: "extra f = None" if "f \<noteq> ''/s/desired/identities.yaml''" for f using assms that by (auto simp: sample_identities)
  have read: "read_file ReadFile f (dk_files (sample_files extra)) (sample_files extra) = Inr t"
    if "f \<noteq> ''/s/desired/identities.yaml''" "dk_files (sample_files Map.empty) f = Some t" for f t
    using that e [OF that(1)] by (simp add: read_file_def sample_files_def map_add_def)
  have r: "read_file ReadFile ''/p/1.yaml'' (dk_files (sample_files extra)) (sample_files extra) = Inr ''company:x''"
    "read_file ReadFile ''/p/2.yaml'' (dk_files (sample_files extra)) (sample_files extra) = Inr ''team:a''"
    "read_file ReadFile ''/p/3.yml'' (dk_files (sample_files extra)) (sample_files extra) = Inr ''team:b''"
    "read_file ReadFile ''/p/4.yml'' (dk_files (sample_files extra)) (sample_files extra) = Inr ''later''"
    "read_file ReadFile ''/b/1.yaml'' (dk_files (sample_files extra)) (sample_files extra) = Inr ''b''"
    by (rule read; simp add: sample_files_def)+
  have p: "decodeYAMLDocument sample_documents (dc_profile sample_documents) f (sample_files extra) = dc_profile sample_documents t"
    "decodeYAMLDocument sample_documents (dc_binding sample_documents) f (sample_files extra) = dc_binding sample_documents t"
    if "read_file ReadFile f (dk_files (sample_files extra)) (sample_files extra) = Inr t" for f t
    unfolding decodeYAMLDocument_def that by (simp_all add: sample_documents_def)
  note d = p(1) [OF r(1)] p(1) [OF r(2)] p(1) [OF r(3)] p(1) [OF r(4)] p(2) [OF r(5)]
  have t: "dc_profile sample_documents ''company:x'' = Inr (sample_pf ''company:x'' IntentDenied)"
    "dc_profile sample_documents ''team:a'' = Inr (sample_pf ''team:a'' IntentDefault)"
    "dc_profile sample_documents ''team:b'' = Inr (sample_pf ''team:b'' IntentDefault)"
    "dc_profile sample_documents ''later'' = Inr (sample_pf ''company:x'' IntentDefault)"
    "dc_binding sample_documents ''b'' = Inr (sample_bd [''company:x'', ''team:a'', ''team:b''] [''**''])"
    by (simp_all add: sample_documents_def)
  have v: "ValidateProfile (sample_pf ''company:x'' IntentDenied) = None" "ValidateProfile (sample_pf ''team:a'' IntentDefault) = None"
    "ValidateProfile (sample_pf ''team:b'' IntentDefault) = None" "ValidateProfile (sample_pf ''company:x'' IntentDefault) = None"
    "ValidateBinding (sample_bd [''company:x'', ''team:a'', ''team:b''] [''**'']) = None" by (simp_all add: sample_valid)
  show "LoadProfiles sample_documents (ci_ProfileDirs sample_composition) (sample_files extra) = Inr (sample_profiles @ [sample_pf ''company:x'' IntentDefault])"
    by (simp add: LoadProfiles_def sample_composition_def sample_discover d t v sample_profiles_def)
  show "LoadBindings sample_documents (ci_BindingDirs sample_composition) (sample_files extra) = Inr [sample_bd [''company:x'', ''team:a'', ''team:b''] [''**'']]"
    by (simp add: LoadBindings_def sample_composition_def sample_discover d t v)
  show "LoadActivation sample_documents (ci_ActivationPath sample_composition) (sample_files extra) = Inr (Activation_zero, False)"
    by (simp add: LoadActivation_def sample_composition_def sample_documents_def)
  show "LoadExceptions sample_documents (ci_ExceptionDirs sample_composition) (ci_Now sample_composition) (sample_files extra) = Inr \<lparr>xl_Live = [], xl_Expired = []\<rparr>"
    by (simp add: LoadExceptions_def sample_composition_def sample_discover)
qed

definition sample_bindings :: "Binding list" where
  "sample_bindings = [sample_bd [''company:x'', ''team:a'', ''team:b''] [''**'']]"

lemma sample_matched: "matched_ids sample_composition sample_bindings = [''company:x'', ''team:a'', ''team:b'']"
proof -
  have "globMatch ''**'' ''''" by code_simp
  then show ?thesis
    by (simp add: matched_ids_def MatchBindingsWithMain_def sample_composition_def sample_bindings_def sample_bd_def matchesRepository_def matchesPaths_def
        MatchedProfileIDs_def dedup_on_def)
qed

definition selected_files :: disk where
  "selected_files = sample_files [identitiesPath ''/s'' \<mapsto> ''team:a'']"

lemma sample_persist: "PersistSelection sample_documents ''/s'' ''w'' [(''team'', ''team:a'')] 1 (sample_files Map.empty) = (None, selected_files)"
  by (simp add: PersistSelection_def sample_files_def selected_files_def sample_documents_def map_get_def)

lemma sample_complete:
  "\<forall>c \<in> profileCategory ` set (matched_ids sample_composition sample_bindings).
     \<exists>i. identity_of (matched_ids sample_composition sample_bindings) [(''team'', ''team:a'')] c i"
proof -
  have k: "profileCategory ''company:x'' = ''company''" "profileCategory ''team:a'' = ''team''" "profileCategory ''team:b'' = ''team''"
    by (simp_all add: profileCategory_def)
  have "identity_of [''company:x'', ''team:a'', ''team:b''] [(''team'', ''team:a'')] ''company'' ''company:x''"
    "identity_of [''company:x'', ''team:a'', ''team:b''] [(''team'', ''team:a'')] ''team'' ''team:a''"
    by (simp_all add: identity_of_def k)
  then show ?thesis unfolding sample_matched by (auto simp: k)
qed

lemma sample_selected:
  "LoadProfiles sample_documents (ci_ProfileDirs sample_composition) selected_files = Inr (sample_profiles @ [sample_pf ''company:x'' IntentDefault])"
  "LoadBindings sample_documents (ci_BindingDirs sample_composition) selected_files = Inr sample_bindings"
  "LoadActivation sample_documents (ci_ActivationPath sample_composition) selected_files = Inr (Activation_zero, False)"
  "LoadExceptions sample_documents (ci_ExceptionDirs sample_composition) (ci_Now sample_composition) selected_files = Inr \<lparr>xl_Live = [], xl_Expired = []\<rparr>"
  using sample_loads [of "[identitiesPath ''/s'' \<mapsto> ''team:a'']"] by (simp_all add: sample_bindings_def selected_files_def)


theorem ambiguity_reported_exactly_witness:
  "\<exists>amb. Compose sample_documents sample_composition (sample_files Map.empty) = Inl (AmbiguousIdentityError amb) \<and> ''team'' \<in> am_Category ` set amb"
proof -
  have l: "LoadProfiles sample_documents (ci_ProfileDirs sample_composition) (sample_files Map.empty) = Inr (sample_profiles @ [sample_pf ''company:x'' IntentDefault])"
    "LoadBindings sample_documents (ci_BindingDirs sample_composition) (sample_files Map.empty) = Inr sample_bindings"
    using sample_loads [of Map.empty] by (simp_all add: sample_bindings_def)
  have r: "ReadSelection sample_documents (ci_WorktreeStateDir sample_composition) (sample_files Map.empty) = Inr ([], False)"
    by (simp add: ReadSelection_def sample_composition_def sample_identities read_file_def sample_files_def)
  have t: "\<nexists>i. identity_of [''company:x'', ''team:a'', ''team:b''] [] ''team'' i"
    by (auto simp: identity_of_def profileCategory_def)
  have c: "''team'' \<in> profileCategory ` set [''company:x'', ''team:a'', ''team:b'']" by (simp add: profileCategory_def)
  have d: "''team:a'' \<noteq> ''team:b''" "profileCategory ''team:a'' = ''team''" "profileCategory ''team:b'' = ''team''" by (simp_all add: profileCategory_def)
  note th = ambiguity_reported_exactly [OF l r, unfolded sample_matched]
  obtain amb where amb: "Compose sample_documents sample_composition (sample_files Map.empty) = Inl (AmbiguousIdentityError amb)" using th t c by blast
  then show ?thesis using th d by auto
qed

theorem selection_settles_identities_witness:
  "\<exists>res. Compose sample_documents sample_composition selected_files = Inr res \<and> ''team:a'' \<in> pf_ID ` set (cs_Profiles res) \<and> ''team:b'' \<notin> pf_ID ` set (cs_Profiles res)"
proof -
  have p: "PersistSelection sample_documents (ci_WorktreeStateDir sample_composition) ''w'' [(''team'', ''team:a'')] 1 (sample_files Map.empty) = (None, selected_files)"
    using sample_persist by (simp add: sample_composition_def)
  note l = sample_selected
  have f: "dk_fault (sample_files Map.empty) ReadFile (identitiesPath (ci_WorktreeStateDir sample_composition)) = None" by (simp add: sample_files_def)
  obtain res where res: "Compose sample_documents sample_composition selected_files = Inr res"
    "pf_ID ` set (cs_Profiles res) = {i. identity_of (matched_ids sample_composition sample_bindings) [(''team'', ''team:a'')] (profileCategory i) i} \<inter>
       pf_ID ` set (sample_profiles @ [sample_pf ''company:x'' IntentDefault])"
    using selection_settles_identities [OF p _ f l sample_complete] by (auto simp: sample_documents_def map_get_def)
  have "''team:a'' \<in> pf_ID ` set (cs_Profiles res)" "''team:b'' \<notin> pf_ID ` set (cs_Profiles res)"
    unfolding res(2) sample_matched by (auto simp: identity_of_def profileCategory_def sample_profiles_def sample_pf_def)
  then show ?thesis using res(1) by blast
qed



theorem activation_reads_back_witness:
  "LoadActivation (sample_documents\<lparr>dc_stat := \<lambda>_. Inr False, dc_activation := \<lambda>_. Inr (Activation_zero\<lparr>ac_APIVersion := SupportedAPIVersion, ac_Kind := ''Activation'', ac_Worktree := ''w''\<rparr>)\<rparr>)
     (activationPath ''/s'') (snd (PersistActivation (\<lambda>_. Inr ''{}'') ''/s'' (Activation_zero\<lparr>ac_APIVersion := SupportedAPIVersion, ac_Kind := ''Activation'', ac_Worktree := ''w''\<rparr>)
        (sample_files Map.empty))) =
   Inr (Activation_zero\<lparr>ac_APIVersion := SupportedAPIVersion, ac_Kind := ''Activation'', ac_Worktree := ''w''\<rparr>, True)"
proof (rule activation_reads_back)
  let ?a = "Activation_zero\<lparr>ac_APIVersion := SupportedAPIVersion, ac_Kind := ''Activation'', ac_Worktree := ''w''\<rparr>"
  have "ValidateActivation ?a = None" by (simp add: ValidateActivation_def go_check Activation_zero_def)
  then show "PersistActivation (\<lambda>_. Inr ''{}'') ''/s'' ?a (sample_files Map.empty) = (None, snd (PersistActivation (\<lambda>_. Inr ''{}'') ''/s'' ?a (sample_files Map.empty)))"
    by (simp add: PersistActivation_def sample_files_def)
qed (simp_all add: sample_documents_def sample_files_def)

text \<open>The only binding is for the services of the repository.\<close>

definition scoped_documents :: documents where
  "scoped_documents = sample_documents\<lparr>
     dc_stat := (\<lambda>p. if p = ''/c/bindings'' then Inr True else Inl NotExist),
     dc_walk := (\<lambda>p. Inr [(''/b/1.yaml'', False)]),
     dc_binding := (\<lambda>s. Inr ((sample_bd [''company:x''] [''services/**''])\<lparr>bd_Match := \<lparr>bm_Repository = ''/w'', bm_RepositoryGlob = '''', bm_Paths = [''services/**'']\<rparr>\<rparr>))\<rparr>"

definition scoped_disk :: disk where
  "scoped_disk = sample_files Map.empty"

end
