(* ===== verification/Operator_Actions.thy ===== *)
theory Operator_Actions
  imports Runtime_Verify Runtime_Confirmation Profile_Composition
begin

text \<open>
  The operator's actions of \<^verbatim>\<open>internal/tui/actions.go\<close>: stage an asset, review and confirm the changes, activate,
  roll back, and ask whether a running session is behind. Composing the desired state, detecting and observing
  hosts, writing the activation document and the environment are parameters (\<open>Outside\<close>); the disk is the
  worktree state of the runtime package.
\<close>

section \<open>The outside\<close>

record ActionContext =
  cx_Worktree :: Worktree
  cx_WorktreeStateDir :: string
  cx_ShimDir :: string
  cx_ConfigRoot :: string

record Outside =
  os_Compose :: "CompositionInput \<Rightarrow> compose_error + CompositionResult"
  os_DetectHost :: "string \<Rightarrow> err + HostDetection"
  os_Observe :: "HostDetection \<Rightarrow> string \<Rightarrow> err + Observation list"
  os_PersistActivation :: "string \<Rightarrow> Activation \<Rightarrow> err option"
  os_Env :: "string \<Rightarrow> string"

section \<open>Composing and observing\<close>

definition ActionContext_enabled :: "ActionContext \<Rightarrow> bool" where
  "ActionContext_enabled ctx \<longleftrightarrow>
     cx_WorktreeStateDir ctx \<noteq> '''' \<and> wt_Root (cx_Worktree ctx) \<noteq> '''' \<and> wt_ID (cx_Worktree ctx) \<noteq> '''' \<and>
     cx_ShimDir ctx \<noteq> '''' \<and> cx_ConfigRoot ctx \<noteq> ''''"

definition compositionDirsForAction :: "string \<Rightarrow> string \<Rightarrow> string list \<Rightarrow> string list \<times> string list \<times> string list" where
  "compositionDirsForAction configRoot repoRoot extraRoots =
     (let extras = filter (\<lambda>extra. extra \<noteq> '''' \<and> extra \<noteq> repoRoot) extraRoots
      in ([Join [configRoot, ''profiles'', ''personal''], Join [configRoot, ''profiles'', ''company''],
           Join [configRoot, ''profiles'', ''team''], Join [configRoot, ''profiles'', ''task''],
           Join [repoRoot, ''.omca'', ''profiles'']] @ map (\<lambda>extra. Join [extra, ''.omca'', ''profiles'']) extras,
          [Join [configRoot, ''bindings'']],
          [Join [configRoot, ''exceptions''], Join [repoRoot, ''.omca'', ''exceptions'']]
            @ map (\<lambda>extra. Join [extra, ''.omca'', ''exceptions'']) extras))"

definition omcaCommandPathForAction :: "string \<Rightarrow> string" where
  "omcaCommandPathForAction shimDir = Join [shimDir, ''omca'']"

definition composeDesiredState :: "Outside \<Rightarrow> ActionContext \<Rightarrow> gotime \<Rightarrow> err + CompositionResult" where
  "composeDesiredState out ctx now =
     (let root = wt_Root (cx_Worktree ctx); mainRoot = wt_MainRoot (cx_Worktree ctx);
          (profileDirs, bindingDirs, exceptionDirs) = compositionDirsForAction (cx_ConfigRoot ctx) root [mainRoot]
      in case os_Compose out \<lparr>ci_Repository = root, ci_MainRepository = mainRoot, ci_RelPath = '''', ci_ProfileDirs = profileDirs, ci_BindingDirs = bindingDirs,
             ci_ExceptionDirs = exceptionDirs, ci_ActivationPath = Join [cx_WorktreeStateDir ctx, ''desired'', ''activation.yaml''],
             ci_WorktreeStateDir = cx_WorktreeStateDir ctx, ci_Now = now\<rparr> of
        Inl (AmbiguousIdentityError categories) \<Rightarrow>
          Inl (Wrapf ''identity selection is ambiguous for %d categories (no interactive identity picker exists yet; run `omca activate` from a shell to resolve it first): %w'' [AInt (int (length categories))] (AmbiguousIdentityError_Error categories))
      | Inl (ComposeError e) \<Rightarrow> Inl e
      | Inr cmp \<Rightarrow> Inr cmp)"

definition detectAndObserveHost :: "Outside \<Rightarrow> ActionContext \<Rightarrow> string \<Rightarrow> err + HostDetection \<times> Observation list" where
  "detectAndObserveHost out ctx host =
     (case os_DetectHost out host of
        Inl e \<Rightarrow> Inl (Wrapf ''detecting %s: %w'' [AStr host] e)
      | Inr det \<Rightarrow>
          if \<not> hd_Installed det then Inl (Errorf ''%s is not installed -- cannot compile a generation for it'' [AStr host])
          else (case os_Observe out det (wt_Root (cx_Worktree ctx)) of
              Inl e \<Rightarrow> Inl (Wrapf ''observing %s: %w'' [AStr host] e)
            | Inr obs \<Rightarrow> Inr (det, obs)))"

section \<open>Selecting an asset\<close>

definition mergeHostActivationForAction :: "HostActivation \<Rightarrow> HostActivation \<Rightarrow> HostActivation" where
  "mergeHostActivationForAction dst src =
     \<lparr>ha_Enable = \<lparr>as_Skills = as_Skills (ha_Enable dst) @ as_Skills (ha_Enable src),
                   as_MCPServers = as_MCPServers (ha_Enable dst) @ as_MCPServers (ha_Enable src)\<rparr>,
      ha_Disable = \<lparr>as_Skills = as_Skills (ha_Disable dst) @ as_Skills (ha_Disable src),
                    as_MCPServers = as_MCPServers (ha_Disable dst) @ as_MCPServers (ha_Disable src)\<rparr>\<rparr>"

definition HostActivation_zero :: HostActivation where
  "HostActivation_zero = \<lparr>ha_Enable = \<lparr>as_Skills = [], as_MCPServers = []\<rparr>, ha_Disable = \<lparr>as_Skills = [], as_MCPServers = []\<rparr>\<rparr>"

definition activationSelectionFor :: "string \<Rightarrow> string \<Rightarrow> HostActivation option" where
  "activationSelectionFor concept logicalID =
     (if concept = ''skill'' then Some (HostActivation_zero\<lparr>ha_Enable := \<lparr>as_Skills = [logicalID], as_MCPServers = []\<rparr>\<rparr>)
      else if concept = ''mcpServer'' then Some (HostActivation_zero\<lparr>ha_Enable := \<lparr>as_Skills = [], as_MCPServers = [logicalID]\<rparr>\<rparr>)
      else None)"

text \<open>Of the report only the resolved assets of each host are read.\<close>

definition firstActivatableCandidate :: "ResolvedAsset list gomap \<Rightarrow> string \<Rightarrow> (string \<times> string) option" where
  "firstActivatableCandidate debug host =
     (case map_of debug host of
        None \<Rightarrow> None
      | Some assets \<Rightarrow>
          map_option (\<lambda>asset. (AssetKind_code (ra_Kind asset), ra_ID asset))
            (find (\<lambda>asset. \<not> (ra_Active asset \<or> ra_Intent asset \<noteq> IntentAvailable) \<and>
               activationSelectionFor (AssetKind_code (ra_Kind asset)) (ra_ID asset) \<noteq> None) assets))"

section \<open>Staging\<close>


text \<open>The activation document with the asset enabled for the host.\<close>

definition merged_activation :: "ActionContext \<Rightarrow> string \<Rightarrow> HostActivation \<Rightarrow> Activation \<Rightarrow> Activation" where
  "merged_activation ctx host sel act =
     act\<lparr>ac_APIVersion := SupportedAPIVersion, ac_Kind := ''Activation'', ac_Worktree := wt_ID (cx_Worktree ctx),
         ac_Hosts := map_put host (mergeHostActivationForAction (map_get HostActivation_zero (ac_Hosts act) host) sel) (ac_Hosts act)\<rparr>"


definition stage_request ::
  "ActionContext \<Rightarrow> HostDetection \<Rightarrow> Observation list \<Rightarrow> CompositionResult \<Rightarrow> Activation \<Rightarrow> gotime \<Rightarrow> string option \<Rightarrow> CompileRequest" where
  "stage_request ctx det obs cmp merged now parent =
     \<lparr>cq_Worktree = cx_Worktree ctx,
      cq_Hosts = [\<lparr>hc_Detection = det, hc_Observations = obs, hc_OMCABinaryPath = omcaCommandPathForAction (cx_ShimDir ctx)\<rparr>],
      cq_Profiles = cs_Profiles cmp, cq_Activation = merged, cq_Exceptions = cs_Exceptions cmp, cq_KnowledgePacks = [],
      cq_Now = now, cq_Parent = parent, cq_Invocation = ''tui_stage''\<rparr>"

text \<open>Compile into the store, or take what is there and set its parent.\<close>

definition stage_generation ::
  "(json \<Rightarrow> string) \<Rightarrow> CompileRequest \<Rightarrow> string \<Rightarrow> string option \<Rightarrow> disk \<Rightarrow> (err + Generation) \<times> disk" where
  "stage_generation dg req outputDir parent dk =
     (case ReadGenerationManifest outputDir dk of
        Inl (IOErr e) \<Rightarrow>
          (Inl (Wrapf ''existing generation directory %s is present but its manifest failed validation, refusing to overwrite a content-addressed path: %w''
             [AStr outputDir] e), dk)
      | Inl NotExist \<Rightarrow>
          (case Compile dg req outputDir dk of
             (Inl e, dk1) \<Rightarrow> (Inl (Wrapf ''compiling: %w'' [] e), dk1)
           | (Inr gen, dk1) \<Rightarrow> (Inr gen, dk1))
      | Inr _ \<Rightarrow>
          (case ReconcileGenerationParent outputDir parent dk of
             (Inl e, dk1) \<Rightarrow> (Inl (Wrapf ''reconciling cached generation's Parent: %w'' [] (ioerr_err e)), dk1)
           | (Inr gen, dk1) \<Rightarrow> (Inr gen, dk1)))"


section \<open>Review, activation, rollback\<close>

record changeReview =
  cv_Host :: string
  cv_Changes :: "ProposedChange list"
  cv_Requirements :: "ConfirmationRequirement list"

definition buildChangeReview :: "string \<Rightarrow> Generation \<Rightarrow> Generation \<Rightarrow> changeReview" where
  "buildChangeReview host currentGen pendingGen =
     (let changes = DiffProposedChanges currentGen pendingGen host
      in \<lparr>cv_Host = host, cv_Changes = changes, cv_Requirements = map ClassifyChange changes\<rparr>)"

definition approveAll :: "changeReview \<Rightarrow> ConfirmationKey \<Rightarrow> bool" where
  "approveAll r k \<longleftrightarrow> k \<in> ProposedChange_Key ` set (cv_Changes r)"

fun detect_hosts :: "Outside \<Rightarrow> ActionContext \<Rightarrow> string list \<Rightarrow> err + HostCompileInput list" where
  "detect_hosts out ctx [] = Inr []"
| "detect_hosts out ctx (h # hs) =
     (case detectAndObserveHost out ctx h of
        Inl e \<Rightarrow> Inl e
      | Inr (det, obs) \<Rightarrow>
          (case detect_hosts out ctx hs of
             Inl e \<Rightarrow> Inl e
           | Inr hosts \<Rightarrow>
               Inr (\<lparr>hc_Detection = det, hc_Observations = obs, hc_OMCABinaryPath = omcaCommandPathForAction (cx_ShimDir ctx)\<rparr> # hosts)))"

definition composeFreshForActivate :: "Outside \<Rightarrow> ActionContext \<Rightarrow> Generation \<Rightarrow> gotime \<Rightarrow> err + CompileRequest" where
  "composeFreshForActivate out ctx pendingGen now =
     (case composeDesiredState out ctx now of
        Inl e \<Rightarrow> Inl e
      | Inr cmp \<Rightarrow>
          (case detect_hosts out ctx (sort (map_keys (gp_Hosts (gn_Spec pendingGen)))) of
             Inl e \<Rightarrow> Inl e
           | Inr hosts \<Rightarrow>
               Inr \<lparr>cq_Worktree = cx_Worktree ctx, cq_Hosts = hosts, cq_Profiles = cs_Profiles cmp,
                    cq_Activation = cs_Activation cmp, cq_Exceptions = cs_Exceptions cmp, cq_KnowledgePacks = [],
                    cq_Now = now, cq_Parent = None, cq_Invocation = ''''\<rparr>))"

text \<open>The gate's refusal, or what activation with verification returns.\<close>

datatype action_error = ConfirmationRequired ConfirmationRequiredError | ActionError aerr

definition activateHost ::
  "(json \<Rightarrow> string) \<Rightarrow> observer \<Rightarrow> knower \<Rightarrow> Outside \<Rightarrow> ActionContext \<Rightarrow> changeReview \<Rightarrow> Generation \<Rightarrow> (ConfirmationKey \<Rightarrow> bool) \<Rightarrow>
   gotime \<Rightarrow> disk \<Rightarrow> (ActivateAndVerifyResult option \<times> action_error option) \<times> disk" where
  "activateHost dg observe know out ctx review pendingGen confirmed now dk =
     (case RequireConfirmation (cv_Changes review) confirmed of
        Some e \<Rightarrow> ((None, Some (ConfirmationRequired e)), dk)
      | None \<Rightarrow>
      (case composeFreshForActivate out ctx pendingGen now of
        Inl e \<Rightarrow> ((None, Some (ActionError (Fail (Wrapf ''recomposing fresh desired state: %w'' [] e)))), dk)
      | Inr fresh \<Rightarrow>
          (case ActivateAndVerify dg observe know
               \<lparr>aq_WorktreeStateDir = cx_WorktreeStateDir ctx, aq_Host = cv_Host review, aq_Fresh = fresh, aq_Now = now, aq_OnStep = None\<rparr>
               (Join [cx_WorktreeStateDir ctx, ''generations'']) dk of
             ((res, e), dk1) \<Rightarrow> ((res, map_option ActionError e), dk1))))"

definition rollbackHost :: "Outside \<Rightarrow> ActionContext \<Rightarrow> string \<Rightarrow> gotime \<Rightarrow> disk \<Rightarrow> (aerr + RollbackResult) \<times> disk" where
  "rollbackHost out ctx host now dk =
     (case os_DetectHost out host of
        Inl e \<Rightarrow> (Inl (Fail (Wrapf ''detecting %s: %w'' [AStr host] e)), dk)
      | Inr det \<Rightarrow> Rollback (cx_WorktreeStateDir ctx) (Join [cx_WorktreeStateDir ctx, ''generations'']) host det now dk)"

section \<open>Restarts\<close>

definition restartStatusForHost :: "Outside \<Rightarrow> ActionContext \<Rightarrow> string \<Rightarrow> disk \<Rightarrow> RestartStatus option" where
  "restartStatusForHost out ctx host dk =
     (let runID = os_Env out ''OMCA_RUN_ID'' in
      if runID = '''' then None
      else (case NativeHomeEnvVar host of
          Inl e \<Rightarrow> None
        | Inr envVar \<Rightarrow>
            if os_Env out envVar = '''' then None
            else (case DetectRestartRequired (cx_WorktreeStateDir ctx) host runID dk of
                Inl e \<Rightarrow> Some \<lparr>rq_Host = host, rq_SessionGenerationID = runID, rq_CurrentGenerationID = '''', rq_RestartRequired = False,
                             rq_Detail = err_text e\<rparr>
              | Inr status \<Rightarrow> Some status)))"

definition restartStatusesForHosts :: "Outside \<Rightarrow> ActionContext \<Rightarrow> string list \<Rightarrow> disk \<Rightarrow> RestartStatus list" where
  "restartStatusesForHosts out ctx hosts dk = List.map_filter (\<lambda>h. restartStatusForHost out ctx h dk) hosts"

section \<open>Lemmas\<close>

lemma ReconcileGenerationParent_ok:
  assumes "working dk" "ReadGenerationManifest d dk = Inr gen"
  shows "\<exists>dk'. ReconcileGenerationParent d p dk = (Inr (gen\<lparr>gn_Metadata := gn_Metadata gen\<lparr>gm_Parent := p\<rparr>\<rparr>), dk') \<and> same_pointers dk dk' \<and>
    ReadGenerationManifest d dk' = Inr (gen\<lparr>gn_Metadata := gn_Metadata gen\<lparr>gm_Parent := p\<rparr>\<rparr>)"
proof (cases "gen_parent gen = p")
  case True
  then have "gen\<lparr>gn_Metadata := gn_Metadata gen\<lparr>gm_Parent := p\<rparr>\<rparr> = gen" by auto
  then show ?thesis using assms True by (auto simp: ReconcileGenerationParent_def)
next
  case False
  have v: "ValidateGeneration gen = None" using assms(2) by (simp add: ReadGenerationManifest_Inr)
  let ?gen = "gen\<lparr>gn_Metadata := gn_Metadata gen\<lparr>gm_Parent := p\<rparr>\<rparr>"
  have "ReconcileGenerationParent d p dk = (Inr ?gen, dk\<lparr>dk_manifests := (dk_manifests dk)(manifestPath d \<mapsto> Doc ?gen)\<rparr>)"
    unfolding ReconcileGenerationParent_def assms(2) Let_def using assms(1) False v by simp
  then show ?thesis using assms(1) v by (simp add: same_pointers_def ReadGenerationManifest_Inr)
qed




lemma validateCompiledHost_cong:
  "gen_id g' = gen_id g \<Longrightarrow> gp_Hosts (gn_Spec g') = gp_Hosts (gn_Spec g) \<Longrightarrow> validateCompiledHost g' host det = validateCompiledHost g host det"
  by (simp only: validateCompiledHost_def)

section \<open>Properties\<close>


text \<open>C28: a generation can become its own parent. When staging finds that the generation to compile is the one that is
already current, it rewrites that generation's parent to itself: the link to the generation before is lost, and
a rollback then reports success while it restores the generation it supersedes.\<close>

theorem restaging_current_disables_rollback:
  assumes disk: "working dk" "activationLockPath w host \<notin> set (dk_locks dk)"
    and args: "IsAbs w" "IsAbs root" "ValidateHostID host = None" "now \<noteq> 0"
    and cur: "CurrentGenerationDir w host dk = Inr (generationDirFor root (gen_id gen))"
      "ReadGenerationManifest (generationDirFor root (gen_id gen)) dk = Inr gen"
    and compat: "validateCompiledHost gen host det = None"
  shows "\<exists>gen' dk1 rb dk2.
    stage_generation dg req (generationDirFor root (gen_id gen)) (Some (gen_id gen)) dk = (Inr gen', dk1) \<and>
    gen_id gen' = gen_id gen \<and> gen_parent gen' = Some (gen_id gen) \<and>
    Rollback w root host det now dk1 = (Inr rb, dk2) \<and> rb_RestoredGenerationID rb = gen_id gen \<and> rb_SupersededGenerationID rb = gen_id gen \<and>
    CurrentGenerationDir w host dk2 = CurrentGenerationDir w host dk"
proof -
  let ?d = "generationDirFor root (gen_id gen)" and ?gen = "gen\<lparr>gn_Metadata := gn_Metadata gen\<lparr>gm_Parent := Some (gen_id gen)\<rparr>\<rparr>"
  from ReconcileGenerationParent_ok [OF disk(1) cur(2)] obtain dk1 where
    r: "ReconcileGenerationParent ?d (Some (gen_id gen)) dk = (Inr ?gen, dk1)" "same_pointers dk dk1" "ReadGenerationManifest ?d dk1 = Inr ?gen" by blast
  have s: "stage_generation dg req ?d (Some (gen_id gen)) dk = (Inr ?gen, dk1)" using cur(2) r(1) by (simp add: stage_generation_def)
  have w1: "working dk1" "activationLockPath w host \<notin> set (dk_locks dk1)" using disk r(2) by (simp_all add: same_pointers_def)
  have c1: "CurrentGenerationDir w host dk1 = Inr ?d" using r(2) cur(1) current_cong [of dk1 dk] by (simp add: same_pointers_def)
  have "validateCompiledHost ?gen host det = validateCompiledHost gen host det" by (rule validateCompiledHost_cong) simp_all
  with compat have v: "validateCompiledHost ?gen host det = None" by simp
  from Rollback_ok [OF w1(1) args(1-4) w1(2) c1 r(3), of ?gen det] r(3) v
  obtain rb dk2 where "Rollback w root host det now dk1 = (Inr rb, dk2)" "rb_RestoredGenerationID rb = gen_id gen"
    "rb_SupersededGenerationID rb = gen_id gen" "CurrentGenerationDir w host dk2 = Inr ?d" by auto
  with s cur(1) show ?thesis by (intro exI [of _ ?gen]) auto
qed

text \<open>Another process that stages while an activation is about to switch.\<close>

definition staging_hook :: "string \<Rightarrow> string \<Rightarrow> string \<Rightarrow> Generation \<Rightarrow> HostDetection \<Rightarrow> gotime \<Rightarrow> StepHook" where
  "staging_hook w host d gen det now step dk =
     (if step = StepSwitchCurrent then SetPendingGeneration w host d gen det now dk else (None, dk))"

text \<open>C29: staging is not excluded by the activation lock, and an activation can lose what was staged meanwhile. If
another process stages a second generation after the first was validated and before the switch, which the lock
does not prevent, then its staging succeeds, the activation succeeds and makes the first generation current, and
clearing the pending pointer removes the second: neither pointer names it, and no error is reported.\<close>

theorem activation_loses_concurrent_staging:
  assumes ready: "activation_ready dg req pd gen dk" and second: "IsAbs pd2"
  defines "w \<equiv> aq_WorktreeStateDir req" and "host \<equiv> aq_Host req"
  shows "\<exists>res dk'. Activate dg (req\<lparr>aq_OnStep := Some (staging_hook w host pd2 gen2 det2 now2)\<rparr>) dk = (Inr res, dk') \<and>
    (\<forall>busy. working busy \<longrightarrow> fst (SetPendingGeneration w host pd2 gen2 det2 now2 busy) = None) \<and>
    av_ActivatedGenerationID res = gen_id gen \<and> CurrentGenerationDir w host dk' = Inr pd \<and>
    PendingGenerationDir w host dk' = Inl NotExist"
proof -
  let ?req = "req\<lparr>aq_OnStep := Some (staging_hook w host pd2 gen2 det2 now2)\<rparr>"
  note r = ready [unfolded activation_ready_def, folded w_def host_def]
  have wa: "IsAbs w" "ValidateHostID host = None" "w \<noteq> []" using r by auto
  have set2: "\<exists>rel. SetPendingGeneration w host pd2 gen2 det2 now2 busy =
      (None, busy\<lparr>dk_links := (dk_links busy)(pointerLinkPath w ''pending'' host \<mapsto> rel),
              dk_records := (dk_records busy)(pointerRecordPath w ''pending'' host \<mapsto>
                Doc \<lparr>cr_GenerationID = gen_id gen2, cr_HostBinaryPath = hd_BinaryPath det2,
                     cr_HostVersion = hd_Version det2, cr_RecordedAt = RFC3339 now2\<rparr>)\<rparr>)" if "working busy" for busy
    using setGenerationPointer_ok [OF that wa(1,2) second] unfolding SetPendingGeneration_def by blast
  let ?dk1 = "dk\<lparr>dk_locks := activationLockPath w host # dk_locks dk\<rparr>"
  have f1: "working ?dk1" using r by simp
  have pd: "IsAbs pd" "Clean pd = pd"
    using generationPointerDir_abs [of w "''pending''" host dk pd] r by (simp_all add: PendingGenerationDir_def)
  obtain det where det: "detectionForHost (cq_Hosts (aq_Fresh req)) host = Some det" using r by blast
  have lock: "acquireActivationLock w host dk = (None, ?dk1)" using r by (intro acquireActivationLock_ok) auto
  have "\<exists>prev. activate_validate ?req ?dk1 = Inr (pd, gen, prev)"
    using r by (auto simp: activate_validate_def PendingGenerationDir_def CurrentGenerationDir_def generationPointerDir_working Let_def
        simp flip: w_def host_def split: option.splits)
  then obtain prev where v: "activate_validate ?req ?dk1 = Inr (pd, gen, prev)" by blast
  have c: "activate_cas dg ?req gen ?dk1 = (Inr (), ?dk1)" using r by (simp add: activate_cas_def Let_def)
  obtain dk2 where h: "SetPendingGeneration w host pd2 gen2 det2 now2 ?dk1 = (None, dk2)" "working dk2"
    using set2 [OF f1] f1 by fastforce
  obtain dk3 where s: "SetCurrentGeneration w host pd gen det (aq_Now req) dk2 = (None, dk3)"
    "CurrentGenerationDir w host dk3 = Inr pd" "working dk3"
    using SetCurrentGeneration_ok [OF h(2) wa(1,2) pd, of gen det "aq_Now req"] by auto
  let ?dk4 = "clearPendingGeneration w host dk3"
  have sw: "activate_switch ?req pd gen dk2 = (Inr (), ?dk4)"
    using s(1) det by (simp add: activate_switch_def Let_def flip: w_def host_def)
  have gid: "gen_id gen \<noteq> []" using r ReadGenerationManifest_Inr ValidateGeneration_id by blast
  have "\<exists>dk5. activate_ledger ?req gen prev ?dk4 = (Inr \<lparr>av_Host = host, av_PreviousGenerationID = prev,
      av_ActivatedGenerationID = gen_id gen, av_ActivatedAt = RFC3339 (aq_Now req)\<rparr>, dk5) \<and> dk_links dk5 = dk_links ?dk4 \<and> dk_fault dk5 = dk_fault ?dk4"
    using wa gid s(3) by (simp add: activate_ledger_def AppendLedgerEntry_ok Let_def del: Sprintf.simps flip: w_def host_def)
  then obtain dk5 where l: "activate_ledger ?req gen prev ?dk4 = (Inr \<lparr>av_Host = host, av_PreviousGenerationID = prev,
      av_ActivatedGenerationID = gen_id gen, av_ActivatedAt = RFC3339 (aq_Now req)\<rparr>, dk5)" "dk_links dk5 = dk_links ?dk4" "dk_fault dk5 = dk_fault ?dk4"
    by blast
  have "activate_locked dg ?req ?dk1 = (Inr \<lparr>av_Host = host, av_PreviousGenerationID = prev, av_ActivatedGenerationID = gen_id gen,
      av_ActivatedAt = RFC3339 (aq_Now req)\<rparr>, dk5)"
    unfolding activate_locked_def using v c h sw l(1)
    by (simp add: hooked_def runHook_def staging_hook_def)
  then have "Activate dg ?req dk = (Inr \<lparr>av_Host = host, av_PreviousGenerationID = prev, av_ActivatedGenerationID = gen_id gen,
      av_ActivatedAt = RFC3339 (aq_Now req)\<rparr>, activationLock_release w host dk5)"
    unfolding Activate_def using r lock wa(3) by (simp add: require_def Let_def flip: w_def host_def)
  moreover have "CurrentGenerationDir w host dk5 = Inr pd" "PendingGenerationDir w host dk5 = Inl NotExist"
    using l current_after_clear [OF wa(1,2)] s(2) clearPendingGeneration_ok(1) [OF s(3) wa(1,2)]
      generationPointerDir_cong [of dk5 w _ host ?dk4] unfolding CurrentGenerationDir_def PendingGenerationDir_def by metis+
  moreover have "\<forall>busy. working busy \<longrightarrow> fst (SetPendingGeneration w host pd2 gen2 det2 now2 busy) = None"
    using set2 by (metis fst_conv)
  ultimately show ?thesis by (simp add: CurrentGenerationDir_def PendingGenerationDir_def)
qed

text \<open>C17: nothing is activated without its confirmations. If some change of the review needs confirmation and has none,
the action fails with exactly the open changes and the disk is untouched; approving every change of a review
always passes the gate.\<close>

theorem activation_needs_confirmation:
  assumes "c \<in> set (cv_Changes review)"
    and "pc_Kind c \<notin> {ChangeSelectReviewedInstruction, ChangeSelectReviewedSkill, ChangeModelOrDisplayPreference}"
    and "\<not> confirmed (ProposedChange_Key c)"
  shows "(\<exists>e. activateHost dg observe know out ctx review pend confirmed now dk = ((None, Some (ConfirmationRequired e)), dk) \<and>
      c \<in> set (ce_Changes e)) \<and>
    RequireConfirmation (cv_Changes review) (approveAll review) = None"
proof -
  have "c \<in> set (filter (\<lambda>c. cn_RequiresConfirmation (ClassifyChange c) \<and> \<not> confirmed (ProposedChange_Key c)) (cv_Changes review))"
    using assms by (simp add: ClassifyChange_needed)
  then obtain e where "RequireConfirmation (cv_Changes review) confirmed = Some e" "c \<in> set (ce_Changes e)"
    unfolding RequireConfirmation_eq Let_def by (metis (no_types, lifting) ConfirmationRequiredError.select_convs(2) empty_iff list.set(1))
  moreover have "RequireConfirmation (cv_Changes review) (approveAll review) = None"
    by (simp add: RequireConfirmation_eq approveAll_def Let_def filter_empty_conv)
  ultimately show ?thesis by (simp add: activateHost_def)
qed

section \<open>Witnesses\<close>

definition sample_context :: ActionContext where
  "sample_context = \<lparr>cx_Worktree = \<lparr>wt_ID = ''worktree:w'', wt_Root = ''/w'', wt_GitDir = '''', wt_MainRoot = ''''\<rparr>,
     cx_WorktreeStateDir = ''/s'', cx_ShimDir = ''/s/shims'', cx_ConfigRoot = ''/c''\<rparr>"

definition sample_outside :: Outside where
  "sample_outside = \<lparr>
     os_Compose = (\<lambda>inp. Inr \<lparr>cs_Profiles = [], cs_Activation = cq_Activation (sample_request [] None), cs_Exceptions = [], cs_ExpiredExceptions = []\<rparr>),
     os_DetectHost = (\<lambda>host. Inr sample_detection), os_Observe = (\<lambda>det root. Inr []),
     os_PersistActivation = (\<lambda>w act. None), os_Env = (\<lambda>var. '''')\<rparr>"

lemma sample_store_working: "working sample_store" "dk_locks sample_store = []"
  by (simp_all add: sample_store_def sample_disk_def)

lemma sample_host: "ValidateHostID ''codex'' = None"
  by code_simp

text \<open>The request that staging the skill compiles, and that it compiles.\<close>

definition sample_staged :: CompileRequest where
  "sample_staged = stage_request sample_context sample_detection [] \<lparr>cs_Profiles = [], cs_Activation = cq_Activation (sample_request [] None), cs_Exceptions = [], cs_ExpiredExceptions = []\<rparr>
     (merged_activation sample_context ''codex'' (the (activationSelectionFor ''skill'' ''s'')) (cq_Activation (sample_request [] None))) 1000000000 (Some ''g0'')"




lemma restaging_current_disables_rollback_witness:
  "\<exists>gen' dk1 rb dk2. stage_generation sample_sha sample_staged ''/s/generations/g0'' (Some ''g0'') sample_store = (Inr gen', dk1) \<and>
     gen_parent gen' = Some ''g0'' \<and> Rollback ''/s'' ''/s/generations'' ''codex'' sample_detection 1 dk1 = (Inr rb, dk2) \<and>
     rb_RestoredGenerationID rb = ''g0''"
proof -
  let ?g = "sample_generation ''g0'' None"
  have id: "gen_id ?g = ''g0''" by (simp add: sample_generation_def)
  have l: "activationLockPath ''/s'' ''codex'' \<notin> set (dk_locks sample_store)" by (simp add: sample_store_working)
  have a: "IsAbs ''/s''" "IsAbs ''/s/generations''" "(1::gotime) \<noteq> 0" by simp_all
  have c: "CurrentGenerationDir ''/s'' ''codex'' sample_store = Inr (generationDirFor ''/s/generations'' (gen_id ?g))"
    "ReadGenerationManifest (generationDirFor ''/s/generations'' (gen_id ?g)) sample_store = Inr ?g"
    using sample_paths sample_manifests by (simp_all add: id)
  have v: "validateCompiledHost ?g ''codex'' sample_detection = None" by code_simp
  from restaging_current_disables_rollback [OF sample_store_working(1) l a(1,2) sample_host a(3) c v, of sample_sha sample_staged]
  show ?thesis unfolding id sample_paths by blast
qed

lemma activation_loses_concurrent_staging_witness:
  "\<exists>res dk'. Activate sample_sha (sample_activate\<lparr>aq_OnStep := Some (staging_hook ''/s'' ''codex'' ''/s/generations/g2'' (sample_generation ''g2'' None) sample_detection 5)\<rparr>)
       sample_store = (Inr res, dk') \<and> PendingGenerationDir ''/s'' ''codex'' dk' = Inl NotExist"
proof -
  have "IsAbs ''/s/generations/g2''" by simp
  from activation_loses_concurrent_staging [OF sample_ready this, of "sample_generation ''g2'' None" sample_detection 5]
  show ?thesis unfolding sample_activate_simps by blast
qed

lemma activation_needs_confirmation_witness:
  "(let c = \<lparr>pc_Kind = ChangeExpandAccess, pc_AssetID = ''sandbox'', pc_Host = ''codex'', pc_Detail = []\<rparr>;
        review = \<lparr>cv_Host = ''codex'', cv_Changes = [c], cv_Requirements = []\<rparr>
    in \<exists>e. activateHost sample_sha sample_observer (\<lambda>h s v. sample_knowledge []) sample_outside sample_context review
         (sample_generation ''g1'' None) (\<lambda>k. False) 1 sample_store = ((None, Some (ConfirmationRequired e)), sample_store))"
proof -
  let ?c = "\<lparr>pc_Kind = ChangeExpandAccess, pc_AssetID = ''sandbox'', pc_Host = ''codex'', pc_Detail = []\<rparr>"
  have 1: "?c \<in> set (cv_Changes \<lparr>cv_Host = ''codex'', cv_Changes = [?c], cv_Requirements = []\<rparr>)"
    and 2: "pc_Kind ?c \<notin> {ChangeSelectReviewedInstruction, ChangeSelectReviewedSkill, ChangeModelOrDisplayPreference}" by simp_all
  have 3: "\<not> (\<lambda>k. False) (ProposedChange_Key ?c)" by simp
  from activation_needs_confirmation [OF 1 2 3] show ?thesis unfolding Let_def by blast
qed


section \<open>The place in the repository\<close>








end
