(* ===== verification/Activation_Interleaving.thy ===== *)
theory Activation_Interleaving
  imports Runtime_Activation
begin

text \<open>
  Concurrent activations of one worktree as a transition system. Every process runs the steps of \<^verbatim>\<open>Activate\<close> one at
  a time; between any two of them other processes may run theirs, stage a generation, roll a host back, or
  compile; and a process may fail or die at any step, in which case its lock is released, as an advisory lock
  of a closed file is.
\<close>

section \<open>The system\<close>

datatype phase =
    Idle
  | Locked
  | Validated string Generation string
  | Compared string Generation string
  | Switched string Generation string

fun holding :: "phase \<Rightarrow> bool" where
  "holding Idle = False"
| "holding _ = True"

type_synonym sys = "disk \<times> (nat \<Rightarrow> phase)"

text \<open>The disk that a step that fails leaves.\<close>

definition failed_step :: "(json \<Rightarrow> string) \<Rightarrow> ActivateRequest \<Rightarrow> phase \<Rightarrow> disk \<Rightarrow> disk" where
  "failed_step dg req ph dk =
     (case ph of
        Validated pd gen prev \<Rightarrow> snd (activate_cas dg req gen dk)
      | Compared pd gen prev \<Rightarrow> snd (activate_switch req pd gen dk)
      | _ \<Rightarrow> dk)"

inductive step :: "(json \<Rightarrow> string) \<Rightarrow> string \<Rightarrow> (nat \<Rightarrow> ActivateRequest) \<Rightarrow> sys \<Rightarrow> sys \<Rightarrow> bool"
  for dg :: "json \<Rightarrow> string" and w :: string and reqs :: "nat \<Rightarrow> ActivateRequest" where
  acquire: "ph p = Idle \<Longrightarrow> acquireActivationLock w (aq_Host (reqs p)) dk = (None, dk') \<Longrightarrow>
    step dg w reqs (dk, ph) (dk', ph(p := Locked))"
| validate: "ph p = Locked \<Longrightarrow> activate_validate (reqs p) dk = Inr (pd, gen, prev) \<Longrightarrow>
    step dg w reqs (dk, ph) (dk, ph(p := Validated pd gen prev))"
| compare: "ph p = Validated pd gen prev \<Longrightarrow> activate_cas dg (reqs p) gen dk = (Inr (), dk') \<Longrightarrow>
    step dg w reqs (dk, ph) (dk', ph(p := Compared pd gen prev))"
| switch: "ph p = Compared pd gen prev \<Longrightarrow> activate_switch (reqs p) pd gen dk = (Inr (), dk') \<Longrightarrow>
    step dg w reqs (dk, ph) (dk', ph(p := Switched pd gen prev))"
| log: "ph p = Switched pd gen prev \<Longrightarrow> activate_ledger (reqs p) gen prev dk = (Inr res, dk') \<Longrightarrow>
    step dg w reqs (dk, ph) (activationLock_release w (aq_Host (reqs p)) dk', ph(p := Idle))"
| fail: "holding (ph p) \<Longrightarrow>
    step dg w reqs (dk, ph) (activationLock_release w (aq_Host (reqs p)) (failed_step dg (reqs p) (ph p) dk), ph(p := Idle))"
| die: "holding (ph p) \<Longrightarrow> step dg w reqs (dk, ph) (activationLock_release w (aq_Host (reqs p)) dk, ph(p := Idle))"
| stage: "SetPendingGeneration w host d gen det now dk = (r, dk') \<Longrightarrow> step dg w reqs (dk, ph) (dk', ph)"
| rollback: "Rollback w root host det now dk = (r', dk') \<Longrightarrow> step dg w reqs (dk, ph) (dk', ph)"
| compile: "Compile dg req out dk = (r'', dk') \<Longrightarrow> step dg w reqs (dk, ph) (dk', ph)"

abbreviation steps :: "(json \<Rightarrow> string) \<Rightarrow> string \<Rightarrow> (nat \<Rightarrow> ActivateRequest) \<Rightarrow> sys \<Rightarrow> sys \<Rightarrow> bool" where
  "steps dg w reqs \<equiv> (step dg w reqs)\<^sup>*\<^sup>*"

section \<open>Lemmas\<close>

lemma lock_plain: "ValidateHostID h = None \<Longrightarrow> plain_elems [''locks'', h @ ''.activate.lock'']"
  by (auto simp: ValidateHostID_def KnownHostIDs_def require_def split: if_splits)

lemma activationLockPath_inj:
  assumes "IsAbs w" "ValidateHostID h = None" "ValidateHostID h' = None"
  shows "activationLockPath w h = activationLockPath w h' \<longleftrightarrow> h = h'"
proof
  have e: "elems (activationLockPath w x) = elems w @ [''locks'', x @ ''.activate.lock'']" if "ValidateHostID x = None" for x
    unfolding activationLockPath_def by (rule elems_Join_plain [OF assms(1) lock_plain [OF that]])
  assume "activationLockPath w h = activationLockPath w h'"
  with e [OF assms(2)] e [OF assms(3)] have "[''locks'', h @ ''.activate.lock''] = [''locks'', h' @ ''.activate.lock'']" by (metis same_append_eq)
  then show "h = h'" by (metis append_same_eq list.inject)
qed simp

text \<open>Two disks that agree on what the current pointer of a host says and on the locks.\<close>

definition same_current :: "string \<Rightarrow> string \<Rightarrow> disk \<Rightarrow> disk \<Rightarrow> bool" where
  "same_current w host dk dk' \<longleftrightarrow>
     CurrentGenerationDir w host dk' = CurrentGenerationDir w host dk \<and> dk_fault dk' = dk_fault dk"

lemma same_current_refl [simp]: "same_current w host dk dk"
  by (simp add: same_current_def)

lemma same_current_trans [trans]: "same_current w host dk dk' \<Longrightarrow> same_current w host dk' dk'' \<Longrightarrow> same_current w host dk dk''"
  by (simp add: same_current_def)

lemma same_current_links: "dk_links dk' = dk_links dk \<Longrightarrow> dk_fault dk' = dk_fault dk \<Longrightarrow> same_current w host dk dk'"
  unfolding same_current_def using current_cong [of dk' dk] by blast

lemma same_current_release [simp]: "same_current w host dk (activationLock_release w' host' dk)"
  by (rule same_current_links) simp_all

lemma same_current_ledger: "AppendLedgerEntry w' host' entry dk = (r, dk') \<Longrightarrow> same_current w host dk dk'"
  using AppendLedgerEntry_frame [of w' host' entry dk r dk'] by (intro same_current_links) simp_all

lemma same_current_pointer:
  assumes "IsAbs w" "Clean w = w" "ValidateHostID host = None" "\<forall>call path. call = Readlink \<longrightarrow> dk_fault dk call path = None"
    and "plain_elems [name]" "name \<noteq> ''current'' \<or> host' \<noteq> host"
    and s: "setGenerationPointer w name host' d gen det now dk = (r, dk')"
  shows "same_current w host dk dk'"
proof (cases "ValidateHostID host' = None")
  case True
  have "pointer_ok (w, ''current'', host) dk" "pointer_ok (w, name, host') dk" using assms(1-5) True by simp_all
  from store.read_other [OF this, of "(d, gen, det, now)"] show ?thesis
    using assms(6) s setGenerationPointer_frame(5) [OF s] by (auto simp: same_current_def CurrentGenerationDir_def)
next
  case False
  from s have "dk' = dk" by (cases rule: setGenerationPointer_cases) (use False in auto)
  then show ?thesis by simp
qed

lemma same_current_clear:
  assumes "IsAbs w" "ValidateHostID host = None" "ValidateHostID host' = None"
  shows "same_current w host dk (clearPendingGeneration w host' dk)"
proof -
  have "pointerLinkPath w ''current'' host \<noteq> pointerLinkPath w ''pending'' host'"
    using pointerLinkPath_inj [OF assms(1) assms(1), of "''current''" host "''pending''" host'] KnownHost_plain [OF assms(2)] KnownHost_plain [OF assms(3)] by auto
  then show ?thesis unfolding same_current_def CurrentGenerationDir_def
    by (auto intro!: generationPointerDir_cong simp: clearPendingGeneration_def Let_def)
qed

lemma activate_cas_locks:
  assumes "activate_cas dg req gen dk = (r, dk')"
  shows "dk_locks dk' = dk_locks dk \<and> same_current w host dk dk'"
  using assms
proof (cases rule: activate_cas_cases)
  case (mismatch d entry)
  obtain r1 dk1 where "AppendLedgerEntry (aq_WorktreeStateDir req) (aq_Host req) entry dk = (r1, dk1)" by force
  with mismatch show ?thesis using AppendLedgerEntry_frame(5) same_current_ledger by (metis snd_conv)
qed simp_all

lemma activate_switch_locks:
  assumes "activate_switch req pd gen dk = (r, dk')"
  shows "dk_locks dk' = dk_locks dk"
  using assms
proof (cases rule: activate_switch_cases)
  case (failed det e e')
  then show ?thesis unfolding SetCurrentGeneration_def by (auto dest: setGenerationPointer_frame(4))
next
  case (switched det dk1)
  then show ?thesis unfolding SetCurrentGeneration_def by (auto dest: setGenerationPointer_frame(4))
qed simp

lemma activate_switch_other:
  assumes "IsAbs w" "Clean w = w" "ValidateHostID host = None" "\<forall>call path. call = Readlink \<longrightarrow> dk_fault dk call path = None"
    and "aq_WorktreeStateDir req = w" "aq_Host req \<noteq> host" "ValidateHostID (aq_Host req) = None"
    and s: "activate_switch req pd gen dk = (r, dk')"
  shows "same_current w host dk dk'"
  using s
proof (cases rule: activate_switch_cases)
  case (failed det e e')
  then have "setGenerationPointer w ''current'' (aq_Host req) pd gen det (aq_Now req) dk = (Some e', dk')"
    using assms(5) by (simp add: SetCurrentGeneration_def)
  from same_current_pointer [OF assms(1-4) _ _ this] assms(6) show ?thesis by simp
next
  case (switched det dk1)
  then have "setGenerationPointer w ''current'' (aq_Host req) pd gen det (aq_Now req) dk = (None, dk1)"
    using assms(5) by (simp add: SetCurrentGeneration_def)
  from same_current_pointer [OF assms(1-4) _ _ this] assms(6) have "same_current w host dk dk1" by simp
  also have "same_current w host dk1 dk'" using same_current_clear [OF assms(1,3,7)] switched(4) assms(5) by simp
  finally show ?thesis .
qed simp

text \<open>What a rollback does to the locks and to the current pointers of other hosts.\<close>

lemma Rollback_effect:
  assumes "Rollback w root host' det now dk = (r, dk')"
  shows "dk' = dk \<or> activationLockPath w host' \<notin> set (dk_locks dk) \<and> ValidateHostID host' = None \<and> dk_locks dk' = dk_locks dk \<and>
    (\<exists>d gen r1 dk1 dk2. setGenerationPointer w ''current'' host' d gen det now (dk\<lparr>dk_locks := activationLockPath w host' # dk_locks dk\<rparr>) = (r1, dk1) \<and>
       dk_links dk2 = dk_links dk1 \<and> dk_fault dk2 = dk_fault dk1 \<and> dk' = activationLock_release w host' dk2)"
proof -
  let ?c = "first_err
        [require (w \<noteq> '''') (Errorf ''runtime: Rollback: worktreeStateDir is required'' []),
         require (root \<noteq> '''') (Errorf ''runtime: Rollback: generationsRoot is required'' []),
         require (IsAbs root) (Errorf ''runtime: Rollback: generationsRoot %q is not absolute'' [AStr root]),
         wrap_err ''runtime: Rollback: %w'' [] (ValidateHostID host'),
         require (now \<noteq> 0) (Errorf ''runtime: Rollback: now is required (this package never reads the clock implicitly)'' [])]"
  note d = assms [unfolded Rollback_def Let_def]
  show ?thesis
  proof (cases ?c)
    case (Some e)
    then show ?thesis using d by simp
  next
    case c: None
    then have h: "ValidateHostID host' = None" by (simp add: first_err_checks require_None_iff wrap_err_None_iff)
    obtain ra dka where a: "acquireActivationLock w host' dk = (ra, dka)" by force
    from a show ?thesis
    proof (cases rule: acquireActivationLock_cases)
      case (refused e)
      then show ?thesis using d c a by simp
    next
      case held
      show ?thesis
      proof (cases "rollback_target w root host' det dka")
        case (Inl e)
        then have "dk' = activationLock_release w host' dka" using d c a held(1) by simp
        then show ?thesis using held by simp
      next
        case (Inr t)
        then obtain cg pdir pg where t: "rollback_target w root host' det dka = Inr (cg, pdir, pg)" by (cases t) auto
        obtain r1 dk1 where s: "SetCurrentGeneration w host' pdir pg det now dka = (r1, dk1)" by force
        have s': "setGenerationPointer w ''current'' host' pdir pg det now (dk\<lparr>dk_locks := activationLockPath w host' # dk_locks dk\<rparr>) = (r1, dk1)"
          using s held(3) by (simp add: SetCurrentGeneration_def)
        have l1: "dk_locks dk1 = activationLockPath w host' # dk_locks dk" using setGenerationPointer_frame(4) [OF s'] by simp
        have "\<exists>dk2. dk_links dk2 = dk_links dk1 \<and> dk_fault dk2 = dk_fault dk1 \<and> dk_locks dk2 = dk_locks dk1 \<and> dk' = activationLock_release w host' dk2"
        proof (cases r1)
          case (Some e)
          then show ?thesis using d c a held(1) t s by auto
        next
          case None
          let ?e = "\<lparr>le_Host = host', le_GenerationID = gen_id pg, le_Kind = ''rolledback'', le_RecordedAt = RFC3339 now,
                 le_Detail = Sprintf ''restored parent generation %q, superseding %q'' [AStr (gen_id pg), AStr (gen_id cg)]\<rparr>"
          obtain r2 dk2 where l: "AppendLedgerEntry w host' ?e dk1 = (r2, dk2)" by force
          have "dk' = activationLock_release w host' dk2" using d c a held(1) t s None l
            by (cases r2) (auto simp del: Sprintf.simps)
          then show ?thesis using AppendLedgerEntry_frame [OF l] by auto
        qed
        then obtain dk2 where "dk_links dk2 = dk_links dk1" "dk_fault dk2 = dk_fault dk1" "dk_locks dk2 = dk_locks dk1"
          "dk' = activationLock_release w host' dk2" by blast
        moreover from this have "dk_locks dk' = dk_locks dk" using l1 held(2) by simp
        ultimately show ?thesis using s' held(2) h by blast
      qed
    qed
  qed
qed

section \<open>The invariant\<close>

text \<open>What a process knows at each phase: the pending pointer it read names an absolute, clean path; after the
comparison the digest is fresh; after the switch the current pointer is its own.\<close>

fun knows :: "(json \<Rightarrow> string) \<Rightarrow> ActivateRequest \<Rightarrow> disk \<Rightarrow> phase \<Rightarrow> bool" where
  "knows dg req dk (Validated pd gen prev) \<longleftrightarrow> IsAbs pd \<and> Clean pd = pd"
| "knows dg req dk (Compared pd gen prev) \<longleftrightarrow> IsAbs pd \<and> Clean pd = pd \<and> freshSourceDigest dg (aq_Fresh req) = Inr (gp_SourceDigest (gn_Spec gen))"
| "knows dg req dk (Switched pd gen prev) \<longleftrightarrow> freshSourceDigest dg (aq_Fresh req) = Inr (gp_SourceDigest (gn_Spec gen)) \<and>
     CurrentGenerationDir (aq_WorktreeStateDir req) (aq_Host req) dk = Inr pd"
| "knows dg req dk _ \<longleftrightarrow> True"

definition exclusive :: "(json \<Rightarrow> string) \<Rightarrow> string \<Rightarrow> (nat \<Rightarrow> ActivateRequest) \<Rightarrow> sys \<Rightarrow> bool" where
  "exclusive dg w reqs s \<longleftrightarrow>
     (\<forall>path. dk_fault (fst s) Readlink path = None) \<and>
     (\<forall>p. holding (snd s p) \<longrightarrow> activationLockPath w (aq_Host (reqs p)) \<in> set (dk_locks (fst s))) \<and>
     (\<forall>p q. holding (snd s p) \<and> holding (snd s q) \<and> aq_Host (reqs p) = aq_Host (reqs q) \<longrightarrow> p = q) \<and>
     (\<forall>p. knows dg (reqs p) (fst s) (snd s p))"

lemma knows_same: "same_current (aq_WorktreeStateDir req) (aq_Host req) dk dk' \<Longrightarrow> knows dg req dk ph \<Longrightarrow> knows dg req dk' ph"
  by (cases ph) (simp_all add: same_current_def)

lemma knows_idle: "\<not> holding ph \<Longrightarrow> knows dg req dk ph"
  by (cases ph) simp_all

text \<open>A move of one process that leaves the others their locks and their current pointers.\<close>

lemma exclusive_move:
  assumes "exclusive dg w reqs (dk, ph)" "\<forall>p. aq_WorktreeStateDir (reqs p) = w" "dk_fault dk' = dk_fault dk"
    and others: "\<And>q. q \<noteq> p \<Longrightarrow> holding (ph q) \<Longrightarrow>
        activationLockPath w (aq_Host (reqs q)) \<in> set (dk_locks dk') \<and> same_current w (aq_Host (reqs q)) dk dk'"
    and own: "holding ph' \<Longrightarrow> activationLockPath w (aq_Host (reqs p)) \<in> set (dk_locks dk') \<and>
        (\<forall>q. q \<noteq> p \<and> holding (ph q) \<longrightarrow> aq_Host (reqs q) \<noteq> aq_Host (reqs p))"
    and "knows dg (reqs p) dk' ph'"
  shows "exclusive dg w reqs (dk', ph(p := ph'))"
  unfolding exclusive_def fst_conv snd_conv
proof (intro conjI allI)
  note inv = assms(1) [unfolded exclusive_def fst_conv snd_conv]
  show "dk_fault dk' Readlink path = None" for path using inv assms(3) by simp
  show "holding ((ph(p := ph')) q) \<longrightarrow> activationLockPath w (aq_Host (reqs q)) \<in> set (dk_locks dk')" for q
    using others [of q] own by (cases "q = p") simp_all
  show "holding ((ph(p := ph')) q) \<and> holding ((ph(p := ph')) q') \<and> aq_Host (reqs q) = aq_Host (reqs q') \<longrightarrow> q = q'" for q q'
    using own inv by (auto split: if_splits)
  show "knows dg (reqs q) dk' ((ph(p := ph')) q)" for q
  proof (cases "q = p")
    case True
    then show ?thesis using assms(6) by simp
  next
    case False
    show ?thesis
    proof (cases "holding (ph q)")
      case True
      then show ?thesis using others [OF False True] inv False assms(2) by (auto intro: knows_same)
    qed (use False in \<open>simp add: knows_idle\<close>)
  qed
qed

lemma exclusive_frame:
  assumes "exclusive dg w reqs (dk, ph)" "\<forall>p. aq_WorktreeStateDir (reqs p) = w" "dk_fault dk' = dk_fault dk"
    and "\<And>q. holding (ph q) \<Longrightarrow>
        activationLockPath w (aq_Host (reqs q)) \<in> set (dk_locks dk') \<and> same_current w (aq_Host (reqs q)) dk dk'"
  shows "exclusive dg w reqs (dk', ph)"
proof -
  have "exclusive dg w reqs (dk', ph(p := ph p))" for p
  proof (rule exclusive_move [OF assms(1-3)])
    show "knows dg (reqs p) dk' (ph p)"
    proof (cases "holding (ph p)")
      case True
      have "knows dg (reqs p) dk (ph p)" using assms(1) by (simp add: exclusive_def)
      then show ?thesis using assms(2) assms(4) [OF True] knows_same by metis
    qed (simp add: knows_idle)
    show "holding (ph p) \<Longrightarrow> activationLockPath w (aq_Host (reqs p)) \<in> set (dk_locks dk') \<and>
        (\<forall>q. q \<noteq> p \<and> holding (ph q) \<longrightarrow> aq_Host (reqs q) \<noteq> aq_Host (reqs p))"
      using assms(1,4) by (auto simp: exclusive_def)
  qed (use assms(4) in simp)
  then show ?thesis by simp
qed

lemma activate_switch_fault: "activate_switch req pd gen dk = (r, dk') \<Longrightarrow> dk_fault dk' = dk_fault dk"
  by (erule activate_switch_cases)
    (auto simp: SetCurrentGeneration_def clearPendingGeneration_def Let_def dest: setGenerationPointer_frame(5))

lemma activate_ledger_same:
  assumes "activate_ledger req gen prev dk = (r, dk')"
  shows "dk_locks dk' = dk_locks dk \<and> dk_fault dk' = dk_fault dk \<and> same_current w host dk dk'"
  using assms
  by (cases rule: activate_ledger_cases) (auto dest: AppendLedgerEntry_frame same_current_ledger)

text \<open>Other hosts have other locks, so releasing one leaves theirs.\<close>

lemma release_other:
  assumes "IsAbs w" "ValidateHostID h = None" "ValidateHostID h' = None" "h \<noteq> h'"
    and "activationLockPath w h \<in> set (dk_locks dk)"
  shows "activationLockPath w h \<in> set (dk_locks (activationLock_release w h' dk))"
  using assms activationLockPath_inj [of w h h'] by (simp add: activationLock_release_def)

text \<open>Giving up the lock ends a process, whatever its last call did to its own host.\<close>

lemma exclusive_release:
  assumes inv: "exclusive dg w reqs (dk, ph)" and w: "IsAbs w" and reqs: "\<forall>p. aq_WorktreeStateDir (reqs p) = w \<and> ValidateHostID (aq_Host (reqs p)) = None"
    and p: "holding (ph p)" and dk': "dk_fault dk' = dk_fault dk" "dk_locks dk' = dk_locks dk"
    and others: "\<And>h. ValidateHostID h = None \<Longrightarrow> h \<noteq> aq_Host (reqs p) \<Longrightarrow> same_current w h dk dk'"
  shows "exclusive dg w reqs (activationLock_release w (aq_Host (reqs p)) dk', ph(p := Idle))"
proof (rule exclusive_move [OF inv])
  fix q assume q: "q \<noteq> p" "holding (ph q)"
  have ne: "aq_Host (reqs q) \<noteq> aq_Host (reqs p)" using inv p q by (auto simp: exclusive_def)
  have "activationLockPath w (aq_Host (reqs q)) \<in> set (dk_locks dk')" using inv q dk'(2) by (simp add: exclusive_def)
  with release_other [OF w _ _ ne] reqs ne
  show "activationLockPath w (aq_Host (reqs q)) \<in> set (dk_locks (activationLock_release w (aq_Host (reqs p)) dk')) \<and>
      same_current w (aq_Host (reqs q)) dk (activationLock_release w (aq_Host (reqs p)) dk')"
    using same_current_trans [OF others same_current_release] by blast
qed (use reqs dk' in \<open>simp_all add: activationLock_release_def\<close>)

text \<open>A call of the process that holds the lock of its host.\<close>

lemma exclusive_work:
  assumes inv: "exclusive dg w reqs (dk, ph)" and reqs: "\<forall>p. aq_WorktreeStateDir (reqs p) = w \<and> ValidateHostID (aq_Host (reqs p)) = None"
    and p: "holding (ph p)" and dk': "dk_fault dk' = dk_fault dk" "dk_locks dk' = dk_locks dk"
    and others: "\<And>h. ValidateHostID h = None \<Longrightarrow> h \<noteq> aq_Host (reqs p) \<Longrightarrow> same_current w h dk dk'"
    and k: "knows dg (reqs p) dk' ph'"
  shows "exclusive dg w reqs (dk', ph(p := ph'))"
proof (rule exclusive_move [OF inv _ dk'(1)])
  fix q assume q: "q \<noteq> p" "holding (ph q)"
  have ne: "aq_Host (reqs q) \<noteq> aq_Host (reqs p)" using inv p q by (auto simp: exclusive_def)
  show "activationLockPath w (aq_Host (reqs q)) \<in> set (dk_locks dk') \<and> same_current w (aq_Host (reqs q)) dk dk'"
    using inv q dk'(2) others [OF _ ne] reqs by (simp add: exclusive_def)
next
  show "activationLockPath w (aq_Host (reqs p)) \<in> set (dk_locks dk') \<and>
      (\<forall>q. q \<noteq> p \<and> holding (ph q) \<longrightarrow> aq_Host (reqs q) \<noteq> aq_Host (reqs p))"
    using inv p dk'(2) by (auto simp: exclusive_def)
qed (use reqs k in simp_all)

lemma validate_clean:
  assumes "activate_validate req dk = Inr (pd, gen, prev)" "IsAbs (aq_WorktreeStateDir req)" "ValidateHostID (aq_Host req) = None"
  shows "IsAbs pd \<and> Clean pd = pd"
proof -
  have "generationPointerDir (aq_WorktreeStateDir req) ''pending'' (aq_Host req) dk = Inr pd"
    using assms(1) by (auto simp: activate_validate_def PendingGenerationDir_def Let_def split: sum.splits ioerr.splits)
  then show ?thesis using generationPointerDir_abs [OF assms(2) _ assms(3), of "''pending''" dk pd] by simp
qed

lemma switch_sets_current:
  assumes s: "activate_switch req pd gen dk = (Inr (), dk')" and w: "IsAbs (aq_WorktreeStateDir req)" "Clean (aq_WorktreeStateDir req) = aq_WorktreeStateDir req"
    and h: "ValidateHostID (aq_Host req) = None" and r: "\<forall>path. dk_fault dk Readlink path = None" and pd: "IsAbs pd" "Clean pd = pd"
  shows "CurrentGenerationDir (aq_WorktreeStateDir req) (aq_Host req) dk' = Inr pd"
  using s
proof (cases rule: activate_switch_cases)
  case (switched det dk1)
  let ?k = "(aq_WorktreeStateDir req, ''current'', aq_Host req)"
  have "write_pointer ?k (pd, gen, det, aq_Now req) dk = (None, dk1)" using switched(3) by (simp add: SetCurrentGeneration_def)
  moreover have "pointer_ok ?k dk" using w h r by simp
  ultimately have "CurrentGenerationDir (aq_WorktreeStateDir req) (aq_Host req) dk1 = Inr pd"
    using store.read_written [of ?k dk "(pd, gen, det, aq_Now req)" dk1] pd by (simp add: CurrentGenerationDir_def)
  then show ?thesis using same_current_clear [OF w(1) h h, of dk1] switched(4) by (simp add: same_current_def)
qed simp_all

lemma exclusive_step:
  assumes s: "step dg w reqs s s'" and inv: "exclusive dg w reqs s"
    and w: "IsAbs w" "Clean w = w"
    and reqs: "\<forall>p. aq_WorktreeStateDir (reqs p) = w \<and> ValidateHostID (aq_Host (reqs p)) = None"
  shows "exclusive dg w reqs s'"
  using s inv
proof (cases rule: step.cases)
  note work = exclusive_work [OF _ reqs] and rel = exclusive_release [OF _ w(1) reqs]
  have host: "aq_WorktreeStateDir (reqs p) = w" "ValidateHostID (aq_Host (reqs p)) = None" for p using reqs by simp_all
  case (acquire ph p dk dk')
  from acquire(4) have l: "activationLockPath w (aq_Host (reqs p)) \<notin> set (dk_locks dk)"
    "dk' = dk\<lparr>dk_locks := activationLockPath w (aq_Host (reqs p)) # dk_locks dk\<rparr>"
    by (cases rule: acquireActivationLock_cases; simp)+
  have "exclusive dg w reqs (dk', ph(p := Locked))"
  proof (rule exclusive_move)
    show "exclusive dg w reqs (dk, ph)" using inv acquire by simp
    show "\<forall>p. aq_WorktreeStateDir (reqs p) = w" using reqs by simp
  qed (use l inv acquire in \<open>auto simp: exclusive_def intro: same_current_links\<close>)
  then show ?thesis using acquire by simp
next
  note work = exclusive_work [OF _ reqs] and rel = exclusive_release [OF _ w(1) reqs]
  have host: "aq_WorktreeStateDir (reqs p) = w" "ValidateHostID (aq_Host (reqs p)) = None" for p using reqs by simp_all
  have readlink: "\<forall>path. dk_fault (fst s) Readlink path = None" using inv by (simp add: exclusive_def)
  {
    case (validate ph p dk pd gen prev)
    then show ?thesis using work [of dg dk ph p dk "Validated pd gen prev"] validate_clean [OF validate(4)] host w inv by simp
  next
    case (compare ph p pd gen prev dk dk')
    have fresh: "freshSourceDigest dg (aq_Fresh (reqs p)) = Inr (gp_SourceDigest (gn_Spec gen)) \<and> dk' = dk"
      using compare(4) by (cases rule: activate_cas_cases) simp_all
    have "knows dg (reqs p) dk (ph p)" using inv compare(1) by (simp add: exclusive_def)
    then show ?thesis using work [of dg dk ph p dk "Compared pd gen prev"] fresh compare inv by simp
  next
    case (switch ph p pd gen prev dk dk')
    have k: "knows dg (reqs p) dk (ph p)" using inv switch(1) by (simp add: exclusive_def)
    have "CurrentGenerationDir w (aq_Host (reqs p)) dk' = Inr pd"
      using switch_sets_current [OF switch(4)] host [of p] w readlink k switch(1,3) by simp
    moreover have "same_current w h dk dk'" if "ValidateHostID h = None" "h \<noteq> aq_Host (reqs p)" for h
      using activate_switch_other [OF w that(1) _ host(1) _ host(2) switch(4)] that readlink switch(1) by simp
    ultimately show ?thesis
      using work [of dg dk ph p dk' "Switched pd gen prev"] activate_switch_fault [OF switch(4)] activate_switch_locks [OF switch(4)]
        k switch inv host by simp
  next
    case (log ph p pd gen prev dk res dk')
    then show ?thesis using rel [of dg dk ph p dk'] activate_ledger_same [OF log(4)] inv by simp
  next
    case (fail ph p dk)
    let ?dk = "failed_step dg (reqs p) (ph p) dk"
    have "dk_fault ?dk = dk_fault dk \<and> dk_locks ?dk = dk_locks dk \<and>
        (\<forall>h. ValidateHostID h = None \<longrightarrow> h \<noteq> aq_Host (reqs p) \<longrightarrow> same_current w h dk ?dk)"
    proof (cases "ph p")
      case (Validated pd gen prev)
      obtain r dk' where c: "activate_cas dg (reqs p) gen dk = (r, dk')" by force
      then show ?thesis using activate_cas_locks [OF c] Validated by (auto simp: failed_step_def same_current_def)
    next
      case (Compared pd gen prev)
      obtain r dk' where c: "activate_switch (reqs p) pd gen dk = (r, dk')" by force
      have "same_current w h dk dk'" if "ValidateHostID h = None" "h \<noteq> aq_Host (reqs p)" for h
        using activate_switch_other [OF w that(1) _ host(1) _ host(2) c] that readlink fail(1) by simp
      then show ?thesis using activate_switch_locks [OF c] activate_switch_fault [OF c] c Compared by (simp add: failed_step_def)
    qed (simp_all add: failed_step_def)
    then show ?thesis using rel [of dg dk ph p ?dk] fail inv by simp
  next
    case (die ph p dk)
    then show ?thesis using rel [of dg dk ph p dk] inv by simp
  next
    case (stage host' d gen det now dk r dk' ph)
    have s: "setGenerationPointer w ''pending'' host' d gen det now dk = (r, dk')"
      using stage(3) by (simp add: SetPendingGeneration_def)
    have "exclusive dg w reqs (dk', ph)"
    proof (rule exclusive_frame)
      show "exclusive dg w reqs (dk, ph)" using inv stage by simp
      show "dk_fault dk' = dk_fault dk" by (rule setGenerationPointer_frame(5) [OF s])
      fix q assume "holding (ph q)"
      then show "activationLockPath w (aq_Host (reqs q)) \<in> set (dk_locks dk') \<and> same_current w (aq_Host (reqs q)) dk dk'"
        using inv stage(1) setGenerationPointer_frame(4) [OF s] same_current_pointer [OF w host(2) _ _ _ s] readlink
        by (auto simp: exclusive_def)
    qed (use reqs in simp)
    then show ?thesis using stage by simp
  next
    case (rollback root host' det now dk r' dk' ph)
    have inv': "exclusive dg w reqs (dk, ph)" using inv rollback by simp
    from Rollback_effect [OF rollback(3)] have "exclusive dg w reqs (dk', ph)"
    proof (elim disjE conjE exE)
      assume "dk' = dk"
      then show ?thesis using inv' by simp
    next
      fix d gen r1 dk1 dk2
      let ?dk = "dk\<lparr>dk_locks := activationLockPath w host' # dk_locks dk\<rparr>"
      assume free: "activationLockPath w host' \<notin> set (dk_locks dk)" and h: "ValidateHostID host' = None" and l: "dk_locks dk' = dk_locks dk"
        and s: "setGenerationPointer w ''current'' host' d gen det now ?dk = (r1, dk1)"
        and d2: "dk_links dk2 = dk_links dk1" "dk_fault dk2 = dk_fault dk1" "dk' = activationLock_release w host' dk2"
      show ?thesis
      proof (rule exclusive_frame [OF inv'])
        show "dk_fault dk' = dk_fault dk" using d2(2,3) setGenerationPointer_frame(5) [OF s] by (simp add: activationLock_release_def)
        fix q assume "holding (ph q)"
        then have held: "activationLockPath w (aq_Host (reqs q)) \<in> set (dk_locks dk)" using inv' by (simp add: exclusive_def)
        then have ne: "host' \<noteq> aq_Host (reqs q)" using free by auto
        have "same_current w (aq_Host (reqs q)) dk ?dk" by (rule same_current_links) simp_all
        also have "same_current w (aq_Host (reqs q)) ?dk dk1"
          using same_current_pointer [OF w host(2) _ _ _ s, of q] ne readlink rollback(1) by simp
        also have "same_current w (aq_Host (reqs q)) dk1 dk2" by (rule same_current_links [OF d2(1,2)])
        also have "same_current w (aq_Host (reqs q)) dk2 dk'" using d2(3) by simp
        finally show "activationLockPath w (aq_Host (reqs q)) \<in> set (dk_locks dk') \<and> same_current w (aq_Host (reqs q)) dk dk'"
          using held l by simp
      qed (use reqs in simp)
    qed
    then show ?thesis using rollback by simp
  next
    case (compile req out dk r'' dk' ph)
    have inv': "exclusive dg w reqs (dk, ph)" using inv compile by simp
    have same: "dk_links dk' = dk_links dk" "dk_locks dk' = dk_locks dk" "dk_fault dk' = dk_fault dk"
      using Compile_frame(1) [OF compile(3)] by (simp_all add: same_pointers_def)
    have "exclusive dg w reqs (dk', ph)"
    proof (rule exclusive_frame [OF inv' _ same(3)])
      fix q assume "holding (ph q)"
      then show "activationLockPath w (aq_Host (reqs q)) \<in> set (dk_locks dk') \<and> same_current w (aq_Host (reqs q)) dk dk'"
        using inv' same(2) same_current_links [OF same(1,3)] by (simp add: exclusive_def)
    qed (use reqs in simp)
    then show ?thesis using compile by simp
  }
qed


section \<open>The properties\<close>



text \<open>C7: interleaved activations exclude one another. From any disk whose links can be read, with no process in its
critical section, whatever activations, failures, stagings, rollbacks and compilations interleave: two processes
are never in the critical section of the same host, a process in it holds the lock, a process past the comparison
knows the fresh digest of what it activates, and after its switch the current pointer of its host is the one it
wrote, until it releases the lock.\<close>

theorem interleaved_activations_exclude:
  assumes "steps dg w reqs (dk0, \<lambda>p. Idle) (dk, ph)"
    and "IsAbs w" "Clean w = w" "\<forall>p. aq_WorktreeStateDir (reqs p) = w \<and> ValidateHostID (aq_Host (reqs p)) = None"
    and "\<forall>path. dk_fault dk0 Readlink path = None"
  shows "(\<forall>p q. holding (ph p) \<and> holding (ph q) \<and> aq_Host (reqs p) = aq_Host (reqs q) \<longrightarrow> p = q) \<and>
     (\<forall>p. holding (ph p) \<longrightarrow> activationLockPath w (aq_Host (reqs p)) \<in> set (dk_locks dk)) \<and>
     (\<forall>p pd gen prev. ph p = Compared pd gen prev \<or> ph p = Switched pd gen prev \<longrightarrow>
        freshSourceDigest dg (aq_Fresh (reqs p)) = Inr (gp_SourceDigest (gn_Spec gen))) \<and>
     (\<forall>p pd gen prev. ph p = Switched pd gen prev \<longrightarrow> CurrentGenerationDir w (aq_Host (reqs p)) dk = Inr pd)"
proof -
  have "exclusive dg w reqs (dk, ph)" using assms(1)
  proof (induction rule: rtranclp_induct)
    case base
    then show ?case using assms(5) by (simp add: exclusive_def)
  next
    case (step s s')
    then show ?case using exclusive_step assms(2-4) by blast
  qed
  then have inv: "\<And>p q. holding (ph p) \<Longrightarrow> holding (ph q) \<Longrightarrow> aq_Host (reqs p) = aq_Host (reqs q) \<Longrightarrow> p = q"
    "\<And>p. holding (ph p) \<Longrightarrow> activationLockPath w (aq_Host (reqs p)) \<in> set (dk_locks dk)" "\<And>p. knows dg (reqs p) dk (ph p)"
    by (simp_all add: exclusive_def)
  have "freshSourceDigest dg (aq_Fresh (reqs p)) = Inr (gp_SourceDigest (gn_Spec gen))"
    if "ph p = Compared pd gen prev \<or> ph p = Switched pd gen prev" for p pd gen prev using inv(3) [of p] that by auto
  moreover have "CurrentGenerationDir w (aq_Host (reqs p)) dk = Inr pd" if "ph p = Switched pd gen prev" for p pd gen prev
    using inv(3) [of p] that assms(4) by simp
  ultimately show ?thesis using inv(1,2) by blast
qed

theorem interleaved_activations_exclude_witness:
  "\<exists>dk. steps sample_sha ''/s'' (\<lambda>p. sample_activate) (sample_store, \<lambda>p. Idle) (dk, (\<lambda>p. Idle)(0 := Locked)) \<and>
     activationLockPath ''/s'' ''codex'' \<in> set (dk_locks dk)"
proof -
  let ?reqs = "\<lambda>p :: nat. sample_activate"
  obtain r dk where a: "acquireActivationLock ''/s'' ''codex'' sample_store = (r, dk)" by force
  have "r = None" using a
    by (simp add: acquireActivationLock_def sample_store_def sample_disk_def Let_def)
  with a have run: "steps sample_sha ''/s'' ?reqs (sample_store, \<lambda>p. Idle) (dk, (\<lambda>p. Idle)(0 := Locked))"
    using step.acquire [of "\<lambda>p. Idle" 0 "''/s''" ?reqs sample_store dk sample_sha] by auto
  have "activationLockPath ''/s'' (aq_Host (?reqs 0)) \<in> set (dk_locks dk)"
  proof (rule interleaved_activations_exclude [OF run, THEN conjunct2, THEN conjunct1, rule_format])
    show "IsAbs ''/s''" "Clean ''/s'' = ''/s''" using sample_pointer_ok by simp_all
    have "ValidateHostID ''codex'' = None" using sample_pointer_ok by simp
    then show "aq_WorktreeStateDir (?reqs p) = ''/s'' \<and> ValidateHostID (aq_Host (?reqs p)) = None" for p by simp
    show "dk_fault sample_store Readlink path = None" for path by (simp add: sample_store_def sample_disk_def)
    show "holding (((\<lambda>p. Idle)(0 := Locked)) 0)" by simp
  qed
  with run show ?thesis by auto
qed

end
