(* ===== verification/Hub_Config.thy ===== *)
theory Hub_Config
  imports Go_Text Worktree_Store
begin

text \<open>
  The configuration of the MCP hub (\<^verbatim>\<open>internal/hub/config.go\<close>): tools, the profiles they belong to, the resolution
  of a requested server to one tool and its pool key, the checks of a loaded file and its digest sidecar.

  Maps are association lists, and a loop over a map goes through the list. SHA-256 in hexadecimal (\<open>sha\<close>), the
  JSON decoder that overwrites a configuration of defaults (\<open>unmarshal\<close>), the home and the temporary directory
  are parameters. A write that fails leaves the file empty, since \<^verbatim>\<open>os.WriteFile\<close> truncates first.
\<close>

section \<open>Configuration\<close>

record ToolConfig =
  tl_Name :: string
  tl_Command :: string
  tl_Args :: "string list"
  tl_Env :: "string gomap"
  tl_WorkingDir :: string
  tl_SharedAllow :: bool

record ProfileConfig =
  wp_WorkspaceRoots :: "string list"
  wp_EnvFiles :: "string list"
  wp_Tools :: "ToolConfig gomap"

record Config =
  cg_SocketPath :: string
  cg_Port :: int
  cg_IdleTimeout :: string
  cg_RenderCheckInterval :: string
  cg_SharedTools :: "ToolConfig gomap"
  cg_Profiles :: "ProfileConfig gomap"
  cg_Tools :: "ToolConfig gomap"

record ResolvedTool =
  rv_InstanceKey :: string
  rv_Config :: ToolConfig
  rv_Profile :: string
  rv_EnvFiles :: "string list"

section \<open>Resolution\<close>

text \<open>The characters \<^verbatim>\<open>"\r\n\t\x00/\\"\<close>.\<close>

definition refused_chars :: string where
  "refused_chars = [CHR 0x0D, CHR 0x0A, CHR 0x09, CHR 0x00, CHR ''/'', CHR 0x5C]"

text \<open>The longest declared root that is a prefix of the working directory.\<close>

definition match_root :: "string \<Rightarrow> string \<times> nat \<Rightarrow> string \<times> string \<Rightarrow> string \<times> nat" where
  "match_root cleanCwd best pr =
     (let cleanRoot = Clean (snd pr)
      in if has_prefix cleanRoot cleanCwd \<and> length cleanRoot > snd best then (fst pr, length cleanRoot) else best)"

definition profile_roots :: "ProfileConfig gomap \<Rightarrow> (string \<times> string) list" where
  "profile_roots profiles = concat (map (\<lambda>(pName, pCfg). map (Pair pName) (wp_WorkspaceRoots pCfg)) profiles)"

definition matchedProfile_of :: "ProfileConfig gomap \<Rightarrow> string \<Rightarrow> string" where
  "matchedProfile_of profiles cwd =
     (if cwd = '''' then '''' else fst (foldl (match_root (Clean cwd)) ('''', 0) (profile_roots profiles)))"

definition profile_tool :: "string \<Rightarrow> ProfileConfig \<Rightarrow> string \<Rightarrow> ResolvedTool option" where
  "profile_tool pName pCfg serverName =
     map_option (\<lambda>tc. \<lparr>rv_InstanceKey = pName @ '':'' @ serverName, rv_Config = tc, rv_Profile = pName, rv_EnvFiles = wp_EnvFiles pCfg\<rparr>)
       (map_of (wp_Tools pCfg) serverName)"

definition shared_tool :: "Config \<Rightarrow> string \<Rightarrow> ResolvedTool option" where
  "shared_tool c serverName =
     map_option (\<lambda>tc. \<lparr>rv_InstanceKey = ''shared:'' @ serverName, rv_Config = tc, rv_Profile = ''shared'', rv_EnvFiles = []\<rparr>)
       (map_of (cg_SharedTools c) serverName)"

definition plain_tool :: "Config \<Rightarrow> string \<Rightarrow> ResolvedTool option" where
  "plain_tool c serverName =
     map_option (\<lambda>tc. \<lparr>rv_InstanceKey = serverName, rv_Config = tc, rv_Profile = '''', rv_EnvFiles = []\<rparr>) (map_of (cg_Tools c) serverName)"

fun any_profile_tool :: "ProfileConfig gomap \<Rightarrow> string \<Rightarrow> ResolvedTool option" where
  "any_profile_tool [] serverName = None"
| "any_profile_tool ((pName, pCfg) # ps) serverName =
     (case profile_tool pName pCfg serverName of Some r \<Rightarrow> Some r | None \<Rightarrow> any_profile_tool ps serverName)"

text \<open>The first branch that yields a tool.\<close>

fun first_of :: "'a option list \<Rightarrow> 'a option" where
  "first_of [] = None"
| "first_of (Some x # xs) = Some x"
| "first_of (None # xs) = first_of xs"

definition ResolveServer :: "Config \<Rightarrow> string \<Rightarrow> string \<Rightarrow> string \<Rightarrow> ResolvedTool option" where
  "ResolveServer c profileName cwd serverName0 =
     (if serverName0 = '''' then None
      else if ContainsAny serverName0 refused_chars then None
      else let serverName = TrimSpace serverName0
      in if profileName \<noteq> '''' then
           (case map_of (cg_Profiles c) profileName of
              None \<Rightarrow> None
            | Some prof \<Rightarrow>
                if wp_WorkspaceRoots prof = [] then None
                else first_of [profile_tool profileName prof serverName, shared_tool c serverName])
         else let matched = matchedProfile_of (cg_Profiles c) cwd
         in first_of
              [if matched \<noteq> '''' then
                 (case map_of (cg_Profiles c) matched of None \<Rightarrow> None | Some pCfg \<Rightarrow> profile_tool matched pCfg serverName)
               else None,
               shared_tool c serverName,
               plain_tool c serverName,
               if matched = '''' then any_profile_tool (cg_Profiles c) serverName else None])"

section \<open>Validation\<close>

definition secretLiteralSuffixes :: "string list" where
  "secretLiteralSuffixes = [''KEY'', ''TOKEN'', ''SECRET'', ''PAT'']"

definition minSecretLiteralLen :: nat where
  "minSecretLiteralLen = 32"

definition looksLikeSecretLiteral :: "string \<Rightarrow> string \<Rightarrow> bool" where
  "looksLikeSecretLiteral key val =
     (let upper = ToUpper key
      in if \<not> list_ex (\<lambda>suf. has_suffix suf upper) secretLiteralSuffixes then False
         else if length val < minSecretLiteralLen then False
         else if has_prefix ''$'' val \<or> has_prefix ''op://'' val then False
         else True)"

definition check_env :: "string \<Rightarrow> string gomap \<Rightarrow> err option" where
  "check_env pathPrefix env =
     first_err (map (\<lambda>k. let v = map_get '''' env k
        in require (\<not> looksLikeSecretLiteral k v) (Errorf
          ''hub: config validation failed at %s.%s: value looks like a literal secret (%d chars, key ends in KEY/TOKEN/SECRET/PAT, and does not start with $ or op://); secrets must come from env_files, not env''
          [AStr pathPrefix, AStr k, AInt (int (length v))])) (sorted_keys env))"

definition ToolConfig_zero :: ToolConfig where
  "ToolConfig_zero = \<lparr>tl_Name = '''', tl_Command = '''', tl_Args = [], tl_Env = [], tl_WorkingDir = '''', tl_SharedAllow = False\<rparr>"

definition ProfileConfig_zero :: ProfileConfig where
  "ProfileConfig_zero = \<lparr>wp_WorkspaceRoots = [], wp_EnvFiles = [], wp_Tools = []\<rparr>"

definition validateSecretLiterals :: "Config \<Rightarrow> err option" where
  "validateSecretLiterals c = first_err
     (map (\<lambda>name. check_env (''tools.'' @ name @ ''.env'') (tl_Env (map_get ToolConfig_zero (cg_Tools c) name))) (sorted_keys (cg_Tools c)) @
      map (\<lambda>name. check_env (''shared_tools.'' @ name @ ''.env'') (tl_Env (map_get ToolConfig_zero (cg_SharedTools c) name)))
        (sorted_keys (cg_SharedTools c)) @
      map (\<lambda>pName. let prof = map_get ProfileConfig_zero (cg_Profiles c) pName
        in first_err (map (\<lambda>tName. check_env (''profiles.'' @ pName @ ''.tools.'' @ tName @ ''.env'')
             (tl_Env (map_get ToolConfig_zero (wp_Tools prof) tName))) (sorted_keys (wp_Tools prof)))) (sorted_keys (cg_Profiles c)))"

definition validateSharedToolsAllowList :: "Config \<Rightarrow> err option" where
  "validateSharedToolsAllowList c = first_err
     (map (\<lambda>name. require (tl_SharedAllow (map_get ToolConfig_zero (cg_SharedTools c) name)) (Errorf
        ''hub: config validation failed at shared_tools.%s: shared_tools is empty by default; a listed tool must set \"shared_allow\": true to opt into the cross-profile pool''
        [AStr name])) (sorted_keys (cg_SharedTools c)))"

section \<open>The digest sidecar\<close>

definition sidecarPath :: "string \<Rightarrow> string" where
  "sidecarPath path = path @ ''.sha256''"

definition parseDigestSidecar :: "string \<Rightarrow> string" where
  "parseDigestSidecar data = (case Fields data of [] \<Rightarrow> '''' | f # _ \<Rightarrow> ToLower f)"

record DriftRecord =
  dr_Path :: string
  dr_SidecarPath :: string
  dr_RecordedDigest :: string
  dr_ActualDigest :: string

datatype config_error = DigestMismatchError DriftRecord | ConfigError err

definition write_file :: "string \<Rightarrow> string \<Rightarrow> disk \<Rightarrow> err option \<times> disk" where
  "write_file path data dk =
     (case dk_fault dk WriteFile path of
        Some e \<Rightarrow> (Some e, dk\<lparr>dk_files := (dk_files dk)(path \<mapsto> '''')\<rparr>)
      | None \<Rightarrow> (None, dk\<lparr>dk_files := (dk_files dk)(path \<mapsto> data)\<rparr>))"

definition checkDigestSidecar ::
  "(string \<Rightarrow> string) \<Rightarrow> string \<Rightarrow> string \<Rightarrow> bool \<Rightarrow> disk \<Rightarrow> (config_error + DriftRecord option) \<times> disk" where
  "checkDigestSidecar sha path data acceptHandEdit dk =
     (let scPath = sidecarPath path; actual = sha data
      in case read_file ReadFile scPath (dk_files dk) dk of
        Inr sidecarData \<Rightarrow>
          (let recorded = parseDigestSidecar sidecarData;
               drift = \<lparr>dr_Path = path, dr_SidecarPath = scPath, dr_RecordedDigest = recorded, dr_ActualDigest = actual\<rparr>
           in if recorded = actual then (Inr None, dk)
              else if \<not> acceptHandEdit then (Inl (DigestMismatchError drift), dk)
              else (case write_file scPath (actual @ [CHR 0x0A]) dk of
                (Some werr, dk1) \<Rightarrow>
                  (Inl (ConfigError (Wrapf ''hub: accept-hand-edit: rewrite digest sidecar %s: %w'' [AStr scPath] werr)), dk1)
              | (None, dk1) \<Rightarrow> (Inr (Some drift), dk1)))
      | Inl NotExist \<Rightarrow>
          (case write_file scPath (actual @ [CHR 0x0A]) dk of
             (Some werr, dk1) \<Rightarrow> (Inl (ConfigError (Wrapf ''hub: write digest sidecar %s: %w'' [AStr scPath] werr)), dk1)
           | (None, dk1) \<Rightarrow> (Inr None, dk1))
      | Inl (IOErr e) \<Rightarrow> (Inl (ConfigError (Wrapf ''hub: read digest sidecar %s: %w'' [AStr scPath] e)), dk))"

section \<open>Loading\<close>

definition DefaultSocketPath :: "string option \<Rightarrow> string \<Rightarrow> string" where
  "DefaultSocketPath home tmp = (case home of None \<Rightarrow> Join [tmp, ''omca-hub.sock''] | Some h \<Rightarrow> Join [h, ''.omca/run/hub.sock''])"

definition DefaultConfigPath :: "string option \<Rightarrow> string \<Rightarrow> string" where
  "DefaultConfigPath home tmp = (case home of None \<Rightarrow> Join [tmp, ''omca-harness.json''] | Some h \<Rightarrow> Join [h, ''.omca/harness.json''])"

definition default_config :: "string option \<Rightarrow> string \<Rightarrow> Config" where
  "default_config home tmp =
     \<lparr>cg_SocketPath = DefaultSocketPath home tmp, cg_Port = 8765, cg_IdleTimeout = ''5m'', cg_RenderCheckInterval = '''',
      cg_SharedTools = [], cg_Profiles = [], cg_Tools = []\<rparr>"

definition LoadConfig ::
  "(string \<Rightarrow> string) \<Rightarrow> (string \<Rightarrow> Config \<Rightarrow> err + Config) \<Rightarrow> string option \<Rightarrow> string \<Rightarrow> string \<Rightarrow> bool \<Rightarrow> disk \<Rightarrow>
   (config_error + Config \<times> DriftRecord option) \<times> disk" where
  "LoadConfig sha unmarshal home tmp path0 acceptHandEdit dk =
     (let path = (if path0 = '''' then DefaultConfigPath home tmp else path0); cfg = default_config home tmp
      in case read_file ReadFile path (dk_files dk) dk of
        Inl NotExist \<Rightarrow> (Inr (cfg, None), dk)
      | Inl (IOErr e) \<Rightarrow> (Inl (ConfigError (Wrapf ''hub: read config %s: %w'' [AStr path] e)), dk)
      | Inr data \<Rightarrow>
      (case unmarshal data cfg of
        Inl e \<Rightarrow> (Inl (ConfigError (Wrapf ''hub: parse config %s: %w'' [AStr path] e)), dk)
      | Inr cfg1 \<Rightarrow>
         (let cfg2 = cfg1\<lparr>cg_SocketPath := (if cg_SocketPath cfg1 = '''' then DefaultSocketPath home tmp else cg_SocketPath cfg1),
                           cg_IdleTimeout := (if cg_IdleTimeout cfg1 = '''' then ''5m'' else cg_IdleTimeout cfg1)\<rparr>
          in case first_err [validateSecretLiterals cfg2, validateSharedToolsAllowList cfg2] of
            Some e \<Rightarrow> (Inl (ConfigError e), dk)
          | None \<Rightarrow>
          (case checkDigestSidecar sha path data acceptHandEdit dk of
            (Inl e, dk1) \<Rightarrow> (Inl e, dk1)
          | (Inr drift, dk1) \<Rightarrow> (Inr (cfg2, drift), dk1)))))"

section \<open>Lemmas\<close>

lemma check_env_None: "check_env p env = None \<longleftrightarrow> (\<forall>k v. map_of env k = Some v \<longrightarrow> \<not> looksLikeSecretLiteral k v)"
  by (auto simp: check_env_def first_err_None_iff require_None_iff Let_def map_get_def split: option.splits)

text \<open>No variable named like a secret holds a value of thirty-two or more characters that is not a reference.\<close>

definition secret_free :: "ToolConfig \<Rightarrow> bool" where
  "secret_free tc \<longleftrightarrow> (\<forall>k v suf. map_of (tl_Env tc) k = Some v \<longrightarrow> suf \<in> {''KEY'', ''TOKEN'', ''SECRET'', ''PAT''} \<longrightarrow> has_suffix suf (ToUpper k) \<longrightarrow>
     length v < 32 \<or> has_prefix ''$'' v \<or> has_prefix ''op://'' v)"

lemma looksLikeSecretLiteral_iff:
  "looksLikeSecretLiteral k v \<longleftrightarrow> (\<exists>suf \<in> {''KEY'', ''TOKEN'', ''SECRET'', ''PAT''}. has_suffix suf (ToUpper k)) \<and>
     \<not> length v < 32 \<and> \<not> has_prefix ''$'' v \<and> \<not> has_prefix ''op://'' v"
  by (simp add: looksLikeSecretLiteral_def secretLiteralSuffixes_def minSecretLiteralLen_def Let_def)

lemma check_tool: "check_env p (tl_Env tc) = None \<longleftrightarrow> secret_free tc"
  unfolding check_env_None secret_free_def looksLikeSecretLiteral_iff by blast

lemma first_err_map: "first_err (map f xs) = None \<longleftrightarrow> (\<forall>x \<in> set xs. f x = None)"
  by (simp add: first_err_None_iff)

lemma ball_map_get: "(\<forall>k \<in> dom (map_of m). P (map_get d m k)) \<longleftrightarrow> (\<forall>k v. map_of m k = Some v \<longrightarrow> P v)"
  by (fastforce simp: map_get_def dom_def)

lemma validateSecretLiterals_None:
  "validateSecretLiterals c = None \<longleftrightarrow>
     (\<forall>k tc. map_of (cg_Tools c) k = Some tc \<longrightarrow> secret_free tc) \<and>
     (\<forall>k tc. map_of (cg_SharedTools c) k = Some tc \<longrightarrow> secret_free tc) \<and>
     (\<forall>p prof. map_of (cg_Profiles c) p = Some prof \<longrightarrow> (\<forall>k tc. map_of (wp_Tools prof) k = Some tc \<longrightarrow> secret_free tc))"
proof -
  have split: "first_err (xs @ ys @ zs) = None \<longleftrightarrow> first_err xs = None \<and> first_err ys = None \<and> first_err zs = None" for xs ys zs :: "err option list"
    by (auto simp: first_err_None_iff)
  show ?thesis
    unfolding validateSecretLiterals_def split first_err_map Let_def check_tool set_sorted_keys
    unfolding ball_map_get [where P = secret_free]
    unfolding ball_map_get [where P = "\<lambda>prof. \<forall>k tc. map_of (wp_Tools prof) k = Some tc \<longrightarrow> secret_free tc"] ..
qed

lemma validateSharedTools_None:
  "validateSharedToolsAllowList c = None \<longleftrightarrow> (\<forall>k tc. map_of (cg_SharedTools c) k = Some tc \<longrightarrow> tl_SharedAllow tc)"
  unfolding validateSharedToolsAllowList_def first_err_map require_None_iff set_sorted_keys ball_map_get ..

lemma first_of_Some: "first_of xs = Some r \<Longrightarrow> Some r \<in> set xs"
  by (induction xs rule: first_of.induct) auto

lemma any_profile_tool_Some:
  "any_profile_tool ps s = Some r \<Longrightarrow> \<exists>p prof. (p, prof) \<in> set ps \<and> profile_tool p prof s = Some r"
  by (induction ps s rule: any_profile_tool.induct) (auto split: option.splits)

text \<open>Where a resolved tool comes from.\<close>

lemma ResolveServer_cases:
  assumes "ResolveServer c profile cwd s = Some r" "distinct (map fst (cg_Profiles c))"
  obtains (profile) p prof where "map_of (cg_Profiles c) p = Some prof" "profile_tool p prof (TrimSpace s) = Some r" "profile = '''' \<or> profile = p"
  | (shared) "shared_tool c (TrimSpace s) = Some r"
  | (plain) "plain_tool c (TrimSpace s) = Some r" "profile = ''''"
proof (cases "profile = ''''")
  case False
  then show thesis using assms profile shared
    by (auto simp: ResolveServer_def Let_def split: if_splits option.splits dest!: first_of_Some)
next
  case True
  have pick: "map_of (cg_Profiles c) p = Some prof" if "(p, prof) \<in> set (cg_Profiles c)" for p prof
    using that assms(2) by simp
  have any: "\<exists>p prof. map_of (cg_Profiles c) p = Some prof \<and> profile_tool p prof (TrimSpace s) = Some r"
    if "Some r = any_profile_tool (cg_Profiles c) (TrimSpace s)"
    using any_profile_tool_Some [OF that [symmetric]] pick by blast
  show thesis using assms(1) True profile [OF _ _ disjI1 [OF True]] shared plain any
    by (auto simp: ResolveServer_def Let_def split: if_splits option.splits dest!: first_of_Some)
qed

lemma LoadConfig_cases:
  assumes "LoadConfig sha um home tmp path a dk = (Inr (c, drift), dk')"
  defines "p \<equiv> if path = '''' then DefaultConfigPath home tmp else path"
  obtains (absent) "read_file ReadFile p (dk_files dk) dk = Inl NotExist" "c = default_config home tmp" "dk' = dk"
  | (loaded) data where "read_file ReadFile p (dk_files dk) dk = Inr data" "validateSecretLiterals c = None"
      "validateSharedToolsAllowList c = None" "checkDigestSidecar sha p data a dk = (Inr drift, dk')"
      "\<And>a' dk1 r dk2. read_file ReadFile p (dk_files dk1) dk1 = Inr data \<Longrightarrow> checkDigestSidecar sha p data a' dk1 = (Inr r, dk2) \<Longrightarrow>
         LoadConfig sha um home tmp path a' dk1 = (Inr (c, r), dk2)"
proof (cases "read_file ReadFile p (dk_files dk) dk")
  case (Inl e)
  note d = assms(1) [unfolded LoadConfig_def Let_def, folded p_def]
  show thesis
  proof (cases e)
    case NotExist
    have "c = default_config home tmp" "dk' = dk" using d unfolding Inl NotExist by simp_all
    with Inl NotExist show thesis by (intro absent) simp_all
  next
    case (IOErr e')
    show thesis using d unfolding Inl IOErr by simp
  qed
next
  case (Inr data)
  note d = assms(1) [unfolded LoadConfig_def Let_def, folded p_def]
  show thesis
  proof (rule loaded)
    show "read_file ReadFile p (dk_files dk) dk = Inr data" by (rule Inr)
    obtain cfg1 where u: "um data (default_config home tmp) = Inr cfg1" using d Inr by (cases "um data (default_config home tmp)") simp_all
    let ?c = "cfg1\<lparr>cg_SocketPath := if cg_SocketPath cfg1 = [] then DefaultSocketPath home tmp else cg_SocketPath cfg1,
        cg_IdleTimeout := if cg_IdleTimeout cfg1 = [] then ''5m'' else cg_IdleTimeout cfg1\<rparr>"
    have v: "first_err [validateSecretLiterals ?c, validateSharedToolsAllowList ?c] = None"
      using d Inr u by (cases "first_err [validateSecretLiterals ?c, validateSharedToolsAllowList ?c]") simp_all
    have ck: "c = ?c \<and> checkDigestSidecar sha p data a dk = (Inr drift, dk')"
      using d Inr u v by (auto split: prod.splits sum.splits)
    then show "validateSecretLiterals c = None" "validateSharedToolsAllowList c = None" "checkDigestSidecar sha p data a dk = (Inr drift, dk')"
      using v by (simp_all add: first_err_None_iff)
    show "LoadConfig sha um home tmp path a' dk1 = (Inr (c, r), dk2)"
      if "read_file ReadFile p (dk_files dk1) dk1 = Inr data" "checkDigestSidecar sha p data a' dk1 = (Inr r, dk2)" for a' dk1 r dk2
      using that u v ck unfolding LoadConfig_def Let_def p_def [symmetric] by simp
  qed
qed

section \<open>Properties\<close>

text \<open>C10: a configuration that loads resolves safely. Whatever a client asks for, the tool it gets has no literal secret
in its environment, and it is either a tool of a profile under the requested name, with that profile's
environment files, and of the requested profile if one was requested; or a tool of the shared pool that opted in
to being shared, without environment files; or, when no profile was requested, a plain tool without them.\<close>

theorem loaded_config_resolves_safely:
  assumes load: "LoadConfig sha unmarshal home tmp path accept dk = (Inr (c, drift), dk')"
    and resolve: "ResolveServer c profile cwd s = Some r" and keys: "distinct (map fst (cg_Profiles c))"
  shows "secret_free (rv_Config r) \<and>
    ((\<exists>prof. map_of (cg_Profiles c) (rv_Profile r) = Some prof \<and> map_of (wp_Tools prof) (TrimSpace s) = Some (rv_Config r) \<and>
        rv_EnvFiles r = wp_EnvFiles prof \<and> (profile = '''' \<or> profile = rv_Profile r)) \<or>
     map_of (cg_SharedTools c) (TrimSpace s) = Some (rv_Config r) \<and> tl_SharedAllow (rv_Config r) \<and> rv_EnvFiles r = [] \<or>
     profile = '''' \<and> map_of (cg_Tools c) (TrimSpace s) = Some (rv_Config r) \<and> rv_EnvFiles r = [])"
proof -
  have v: "validateSecretLiterals c = None \<and> validateSharedToolsAllowList c = None"
    using load by (cases rule: LoadConfig_cases) (simp_all add: validateSecretLiterals_None validateSharedTools_None default_config_def)
  show ?thesis using resolve keys
    by (cases rule: ResolveServer_cases)
      (use v in \<open>auto simp: profile_tool_def shared_tool_def plain_tool_def validateSecretLiterals_None validateSharedTools_None\<close>)
qed

text \<open>What the sidecar holds after a check that succeeded, and what a check finds in it.\<close>

definition hex_hash :: "(string \<Rightarrow> string) \<Rightarrow> bool" where
  "hex_hash sha \<longleftrightarrow> (\<forall>d. sha d \<noteq> [] \<and> set (sha d) \<subseteq> set lower_hex)"

lemma parse_written: "hex_hash sha \<Longrightarrow> parseDigestSidecar (sha d @ [CHR 0x0A]) = sha d"
proof -
  assume h: "hex_hash sha"
  then have c: "\<forall>c \<in> set (sha d). \<not> is_space c" "\<forall>c \<in> set (sha d). \<not> is_upper c"
    using hex_chars unfolding hex_hash_def lower_hex_def by blast+
  have "Fields (sha d @ [CHR 0x0A]) = [sha d]" by (rule Fields_line) (use h c in \<open>auto simp: hex_hash_def\<close>)
  then show ?thesis using c(2) by (simp add: parseDigestSidecar_def ToLower_id)
qed

lemma checkDigestSidecar_pins:
  assumes "checkDigestSidecar sha p data a dk = (Inr drift, dk')" "hex_hash sha"
  shows "\<exists>old. read_file ReadFile (sidecarPath p) (dk_files dk') dk' = Inr old \<and> parseDigestSidecar old = sha data \<and>
     dk_fault dk' = dk_fault dk \<and> (\<forall>q. q \<noteq> sidecarPath p \<longrightarrow> dk_files dk' q = dk_files dk q)"
  using assms parse_written [OF assms(2), of data]
  by (auto simp: checkDigestSidecar_def write_file_def read_file_def Let_def split: sum.splits option.splits ioerr.splits if_splits)

lemma checkDigestSidecar_checks:
  assumes "read_file ReadFile (sidecarPath p) (dk_files dk) dk = Inr old"
  shows "checkDigestSidecar sha p data False dk =
    (if parseDigestSidecar old = sha data then (Inr None, dk)
     else (Inl (DigestMismatchError \<lparr>dr_Path = p, dr_SidecarPath = sidecarPath p, dr_RecordedDigest = parseDigestSidecar old, dr_ActualDigest = sha data\<rparr>), dk))"
  using assms by (simp add: checkDigestSidecar_def Let_def)

lemma read_file_cong: "dk_fault dk' = dk_fault dk \<Longrightarrow> f' p = f p \<Longrightarrow> read_file call p f' dk' = read_file call p f dk"
  by (simp add: read_file_def split: option.split)

lemma LoadConfig_refuses:
  assumes "read_file ReadFile p (dk_files dk) dk = Inr data" "checkDigestSidecar sha p data False dk = (Inl e, dk)" "p \<noteq> ''''"
  shows "\<exists>e'. LoadConfig sha um home tmp p False dk = (Inl e', dk)"
proof (cases "um data (default_config home tmp)")
  case (Inl e')
  then show ?thesis using assms(1,3) unfolding LoadConfig_def Let_def by simp
next
  case (Inr cfg1)
  let ?c = "cfg1\<lparr>cg_SocketPath := if cg_SocketPath cfg1 = [] then DefaultSocketPath home tmp else cg_SocketPath cfg1,
        cg_IdleTimeout := if cg_IdleTimeout cfg1 = [] then ''5m'' else cg_IdleTimeout cfg1\<rparr>"
  show ?thesis using assms Inr unfolding LoadConfig_def Let_def
    by (cases "first_err [validateSecretLiterals ?c, validateSharedToolsAllowList ?c]") simp_all
qed

lemma sidecar_not_file: "sidecarPath p \<noteq> p"
  by (simp add: sidecarPath_def)

text \<open>C11: the sidecar pins the file. Once a configuration file has been loaded, by trust on first use, with a matching
digest or with a hand edit accepted, the next load without accepting hand edits yields the same configuration,
reports no drift and writes nothing; and while the sidecar stays, any content with another digest is refused and
nothing is written.\<close>

theorem sidecar_pins_config:
  assumes load: "LoadConfig sha unmarshal home tmp path accept dk = (Inr (c, drift), dk')"
    and present: "path \<noteq> ''''" "dk_files dk path = Some data" and sha: "hex_hash sha"
  shows "LoadConfig sha unmarshal home tmp path False dk' = (Inr (c, None), dk') \<and>
    (\<forall>data'. sha data' \<noteq> sha data \<longrightarrow>
       (let dk2 = dk'\<lparr>dk_files := (dk_files dk')(path \<mapsto> data')\<rparr>
        in \<exists>e. LoadConfig sha unmarshal home tmp path False dk2 = (Inl e, dk2)))"
  using load
proof (cases rule: LoadConfig_cases)
  case absent
  then show ?thesis using present by (simp add: read_file_def split: option.splits)
next
  case (loaded data1)
  have r: "read_file ReadFile path (dk_files dk) dk = Inr data" "data1 = data" and nofault: "dk_fault dk ReadFile path = None"
    using loaded(1) present by (auto simp: read_file_def split: option.splits)
  obtain old where old: "read_file ReadFile (sidecarPath path) (dk_files dk') dk' = Inr old" "parseDigestSidecar old = sha data"
    and frame: "dk_fault dk' = dk_fault dk" "\<forall>q. q \<noteq> sidecarPath path \<longrightarrow> dk_files dk' q = dk_files dk q"
    using checkDigestSidecar_pins [OF loaded(4) sha] present(1) r(2) by auto
  have r': "read_file ReadFile path (dk_files dk') dk' = Inr data"
    using nofault present frame sidecar_not_file [of path] by (simp add: read_file_def)
  have "LoadConfig sha unmarshal home tmp path False dk' = (Inr (c, None), dk')"
    using loaded(5) [of dk' False None dk'] r' r(2) present(1) checkDigestSidecar_checks [OF old(1), of sha data] old(2) by simp
  moreover have "\<exists>e. LoadConfig sha unmarshal home tmp path False dk2 = (Inl e, dk2)"
    if "sha data' \<noteq> sha data" and dk2: "dk2 = dk'\<lparr>dk_files := (dk_files dk')(path \<mapsto> data')\<rparr>" for data' dk2
  proof -
    have "read_file ReadFile path (dk_files dk2) dk2 = Inr data'" using nofault frame dk2 by (simp add: read_file_def)
    moreover have "read_file ReadFile (sidecarPath path) (dk_files dk2) dk2 = Inr old"
      using old(1) read_file_cong [of dk2 dk' "dk_files dk2" "sidecarPath path" "dk_files dk'"] dk2 sidecar_not_file [of path] by simp
    then have "\<exists>e. checkDigestSidecar sha path data' False dk2 = (Inl e, dk2)"
      using checkDigestSidecar_checks [of path dk2 old sha data'] old(2) that(1) by simp
    ultimately show ?thesis using LoadConfig_refuses present(1) by blast
  qed
  ultimately show ?thesis by (simp add: Let_def)
qed

text \<open>Keys of different tools can coincide. A profile's name and a server's name are joined with a colon, and neither
is kept from having one: when one profile declares the server \<^verbatim>\<open>s:t\<close>, and a second one, whose name is the first one's
with \<^verbatim>\<open>:s\<close> appended, declares the server \<^verbatim>\<open>t\<close>, then two requests with different explicit profiles get the same
pool key for their two tools, and so share one process.\<close>

theorem instance_keys_collide:
  assumes "p \<noteq> ''''" "map_of (cg_Profiles c) p = Some prof" "wp_WorkspaceRoots prof \<noteq> []" "map_of (wp_Tools prof) (s @ '':'' @ t) = Some tc"
    and "map_of (cg_Profiles c) (p @ '':'' @ s) = Some prof'" "wp_WorkspaceRoots prof' \<noteq> []" "map_of (wp_Tools prof') t = Some tc'"
    and "t \<noteq> ''''" "\<not> ContainsAny (s @ '':'' @ t) refused_chars" "TrimSpace (s @ '':'' @ t) = s @ '':'' @ t" "TrimSpace t = t"
  shows "\<exists>r r'. ResolveServer c p cwd (s @ '':'' @ t) = Some r \<and> ResolveServer c (p @ '':'' @ s) cwd t = Some r' \<and>
     rv_Config r = tc \<and> rv_Config r' = tc' \<and> rv_Profile r \<noteq> rv_Profile r' \<and> rv_InstanceKey r = rv_InstanceKey r'"
  using assms by (simp add: ResolveServer_def profile_tool_def ContainsAny_def Let_def)

lemma colon_split:
  assumes "x @ CHR '':'' # u = y @ CHR '':'' # v" "CHR '':'' \<notin> set x" "CHR '':'' \<notin> set y"
  shows "x = y \<and> u = v"
proof -
  have "x # split_on CHR '':'' u = y # split_on CHR '':'' v"
    using split_on_append [OF assms(2), of u] split_on_append [OF assms(3), of v] assms(1) by simp
  then show ?thesis by (metis join_split_on list.inject)
qed

lemma explicit_key:
  assumes names: "\<forall>p \<in> dom (map_of (cg_Profiles c)). CHR '':'' \<notin> set p \<and> p \<noteq> ''shared''" and keys: "distinct (map fst (cg_Profiles c))"
    and r: "p \<noteq> ''''" "ResolveServer c p cwd s = Some r"
  shows "\<exists>pre. rv_InstanceKey r = pre @ CHR '':'' # TrimSpace s \<and> CHR '':'' \<notin> set pre \<and> rv_Profile r = pre \<and> (pre \<noteq> ''shared'' \<longrightarrow> pre = p) \<and>
    (pre = ''shared'' \<and> shared_tool c (TrimSpace s) = Some r \<or>
     pre \<noteq> ''shared'' \<and> (\<exists>prof. map_of (cg_Profiles c) pre = Some prof \<and> profile_tool pre prof (TrimSpace s) = Some r))"
  using r(2) keys
proof (cases rule: ResolveServer_cases)
  case (profile q prof)
  then show ?thesis using names r(1) by (intro exI [of _ q]) (auto simp: profile_tool_def)
next
  case shared
  then show ?thesis by (intro exI [of _ "''shared''"]) (auto simp: shared_tool_def)
qed (use r(1) in simp)

text \<open>Separate names give separate keys. If no profile's name has a colon and none is called \<^verbatim>\<open>shared\<close>, two requests with
explicit profiles get the same pool key only for the same server, and then either both get the tool of the shared
pool or both name the same profile and get the same tool.\<close>

theorem instance_keys_separate:
  assumes names: "\<forall>p \<in> dom (map_of (cg_Profiles c)). CHR '':'' \<notin> set p \<and> p \<noteq> ''shared''" and keys: "distinct (map fst (cg_Profiles c))"
    and r: "p \<noteq> ''''" "ResolveServer c p cwd s = Some r" and r': "p' \<noteq> ''''" "ResolveServer c p' cwd' s' = Some r'"
    and same: "rv_InstanceKey r = rv_InstanceKey r'"
  shows "TrimSpace s = TrimSpace s' \<and> rv_Config r = rv_Config r' \<and> rv_EnvFiles r = rv_EnvFiles r' \<and> (p = p' \<or> rv_Profile r = ''shared'' \<and> rv_Profile r' = ''shared'')"
proof -
  obtain pre where pre: "rv_InstanceKey r = pre @ CHR '':'' # TrimSpace s" "CHR '':'' \<notin> set pre"
    "rv_Profile r = pre" "pre \<noteq> ''shared'' \<Longrightarrow> pre = p"
    "pre = ''shared'' \<and> shared_tool c (TrimSpace s) = Some r \<or> pre \<noteq> ''shared'' \<and> (\<exists>prof. map_of (cg_Profiles c) pre = Some prof \<and> profile_tool pre prof (TrimSpace s) = Some r)"
    using explicit_key [OF names keys r] by blast
  obtain pre' where pre': "rv_InstanceKey r' = pre' @ CHR '':'' # TrimSpace s'" "CHR '':'' \<notin> set pre'"
    "rv_Profile r' = pre'" "pre' \<noteq> ''shared'' \<Longrightarrow> pre' = p'"
    "pre' = ''shared'' \<and> shared_tool c (TrimSpace s') = Some r' \<or> pre' \<noteq> ''shared'' \<and> (\<exists>prof. map_of (cg_Profiles c) pre' = Some prof \<and> profile_tool pre' prof (TrimSpace s') = Some r')"
    using explicit_key [OF names keys r'] by blast
  have eq: "pre = pre' \<and> TrimSpace s = TrimSpace s'"
    by (rule colon_split) (use pre pre' same in simp_all)
  then have "r = r'" using pre(5) pre'(5) by auto
  then show ?thesis using eq pre(3,4) pre'(3,4) by auto
qed

text \<open>The working directory selects a profile by characters, not by path elements. A directory whose path merely
starts with the characters of the only declared root, such as a sibling with a longer name, is served that
profile's tools with that profile's environment files.\<close>

theorem cwd_prefix_without_separator:
  assumes "cg_Profiles c = [(p, prof)]" "wp_WorkspaceRoots prof = [root]" "p \<noteq> ''''"
    and "Clean root = root" "root \<noteq> ''''" "Clean (root @ suffix) = root @ suffix"
    and "map_of (wp_Tools prof) s = Some tc" "s \<noteq> ''''" "\<not> ContainsAny s refused_chars" "TrimSpace s = s"
  shows "\<exists>r. ResolveServer c '''' (root @ suffix) s = Some r \<and> rv_Profile r = p \<and> rv_Config r = tc \<and> rv_EnvFiles r = wp_EnvFiles prof"
  using assms by (simp add: ResolveServer_def matchedProfile_of_def profile_roots_def match_root_def profile_tool_def Let_def)

section \<open>Samples\<close>

definition sample_tool :: "string \<Rightarrow> ToolConfig" where
  "sample_tool n = \<lparr>tl_Name = n, tl_Command = ''mcp'', tl_Args = [], tl_Env = [(''API_KEY'', ''$API_KEY'')], tl_WorkingDir = '''', tl_SharedAllow = True\<rparr>"

definition sample_profile :: "string \<Rightarrow> ToolConfig gomap \<Rightarrow> ProfileConfig" where
  "sample_profile root tools = \<lparr>wp_WorkspaceRoots = [root], wp_EnvFiles = [''/env''], wp_Tools = tools\<rparr>"

definition sample_config :: "ProfileConfig gomap \<Rightarrow> Config" where
  "sample_config profiles = \<lparr>cg_SocketPath = ''/run/hub.sock'', cg_Port = 8765, cg_IdleTimeout = ''5m'', cg_RenderCheckInterval = '''',
     cg_SharedTools = [(''web'', sample_tool ''web'')], cg_Profiles = profiles, cg_Tools = []\<rparr>"

definition sample_hub :: Config where
  "sample_hub = sample_config [(''alpha'', sample_profile ''/w/a'' [(''search'', sample_tool ''search'')])]"

definition sample_hash :: "string \<Rightarrow> string" where
  "sample_hash d = (if d = ''x'' then ''00'' else ''ff'')"

definition hub_disk :: disk where
  "hub_disk = \<lparr>dk_links = Map.empty, dk_records = Map.empty, dk_manifests = Map.empty, dk_files = [''/h'' \<mapsto> ''x''],
     dk_ledgers = Map.empty, dk_locks = [], dk_fault = (\<lambda>_ _. None)\<rparr>"

lemma sample_load:
  "LoadConfig sample_hash (\<lambda>_ _. Inr sample_hub) None ''/tmp'' ''/h'' False hub_disk =
     (Inr (sample_hub, None), hub_disk\<lparr>dk_files := [''/h'' \<mapsto> ''x'', ''/h.sha256'' \<mapsto> ''00'' @ [CHR 0x0A]]\<rparr>)"
proof -
  have v: "first_err [validateSecretLiterals sample_hub, validateSharedToolsAllowList sample_hub] = None" by code_simp
  have c: "sample_hub\<lparr>cg_SocketPath := if cg_SocketPath sample_hub = [] then DefaultSocketPath None ''/tmp'' else cg_SocketPath sample_hub,
      cg_IdleTimeout := if cg_IdleTimeout sample_hub = [] then ''5m'' else cg_IdleTimeout sample_hub\<rparr> = sample_hub"
    by (simp add: sample_hub_def sample_config_def)
  have r: "read_file ReadFile ''/h'' (dk_files hub_disk) hub_disk = Inr ''x''" by (simp add: hub_disk_def read_file_def)
  have s: "checkDigestSidecar sample_hash ''/h'' ''x'' False hub_disk = (Inr None, hub_disk\<lparr>dk_files := [''/h'' \<mapsto> ''x'', ''/h.sha256'' \<mapsto> ''00'' @ [CHR 0x0A]]\<rparr>)"
    by (simp add: checkDigestSidecar_def sidecarPath_def read_file_def write_file_def hub_disk_def sample_hash_def Let_def)
  show ?thesis using r v c s by (simp add: LoadConfig_def Let_def)
qed

theorem loaded_config_resolves_safely_witness:
  "\<exists>r. ResolveServer sample_hub ''alpha'' '''' ''search'' = Some r \<and> secret_free (rv_Config r)"
proof -
  have "ResolveServer sample_hub ''alpha'' '''' ''search'' =
      Some \<lparr>rv_InstanceKey = ''alpha:search'', rv_Config = sample_tool ''search'', rv_Profile = ''alpha'', rv_EnvFiles = [''/env'']\<rparr>"
    by code_simp
  moreover have "distinct (map fst (cg_Profiles sample_hub))" by code_simp
  ultimately show ?thesis using loaded_config_resolves_safely [OF sample_load] by blast
qed

theorem sidecar_pins_config_witness:
  "\<exists>dk' e dk2. LoadConfig sample_hash (\<lambda>_ _. Inr sample_hub) None ''/tmp'' ''/h'' False dk' = (Inr (sample_hub, None), dk') \<and>
     dk2 = dk'\<lparr>dk_files := (dk_files dk')(''/h'' \<mapsto> ''edited'')\<rparr> \<and>
     LoadConfig sample_hash (\<lambda>_ _. Inr sample_hub) None ''/tmp'' ''/h'' False dk2 = (Inl e, dk2)"
proof -
  have "hex_hash sample_hash" by (simp add: hex_hash_def sample_hash_def lower_hex_def)
  moreover have "dk_files hub_disk ''/h'' = Some ''x''" "sample_hash ''edited'' \<noteq> sample_hash ''x''" by (simp_all add: hub_disk_def sample_hash_def)
  ultimately show ?thesis using sidecar_pins_config [OF sample_load, of "''x''", unfolded Let_def] by blast
qed

definition colliding_hub :: Config where
  "colliding_hub = sample_config [(''a'', sample_profile ''/w/a'' [(''b:t'', sample_tool ''x'')]), (''a:b'', sample_profile ''/w/b'' [(''t'', sample_tool ''y'')])]"

theorem instance_keys_collide_witness:
  "\<exists>r r'. ResolveServer colliding_hub ''a'' '''' ''b:t'' = Some r \<and> ResolveServer colliding_hub ''a:b'' '''' ''t'' = Some r' \<and>
     rv_Config r \<noteq> rv_Config r' \<and> rv_InstanceKey r = rv_InstanceKey r'"
proof -
  have "sample_tool ''x'' \<noteq> sample_tool ''y''" by (simp add: sample_tool_def)
  moreover have "\<not> ContainsAny ''b:t'' refused_chars" "TrimSpace ''b:t'' = ''b:t''" "TrimSpace ''t'' = ''t''" by code_simp+
  moreover have "map_of (cg_Profiles colliding_hub) ''a'' = Some (sample_profile ''/w/a'' [(''b:t'', sample_tool ''x'')])"
    "map_of (cg_Profiles colliding_hub) (''a'' @ '':'' @ ''b'') = Some (sample_profile ''/w/b'' [(''t'', sample_tool ''y'')])"
    by (simp_all add: colliding_hub_def sample_config_def)
  ultimately show ?thesis
    using instance_keys_collide [of "''a''" colliding_hub "sample_profile ''/w/a'' [(''b:t'', sample_tool ''x'')]" "''b''" "''t''" "sample_tool ''x''"
        "sample_profile ''/w/b'' [(''t'', sample_tool ''y'')]" "sample_tool ''y''" "''''"] by (auto simp: sample_profile_def)
qed

theorem instance_keys_separate_witness:
  "\<exists>r. ResolveServer sample_hub ''alpha'' '''' ''web'' = Some r \<and> ResolveServer sample_hub ''alpha'' ''/x'' '' web'' = Some r \<and>
     TrimSpace ''web'' = TrimSpace '' web''"
proof -
  let ?r = "\<lparr>rv_InstanceKey = ''shared:web'', rv_Config = sample_tool ''web'', rv_Profile = ''shared'', rv_EnvFiles = []\<rparr>"
  have r: "ResolveServer sample_hub ''alpha'' '''' ''web'' = Some ?r" "ResolveServer sample_hub ''alpha'' ''/x'' '' web'' = Some ?r"
    by code_simp+
  have n: "\<forall>p \<in> dom (map_of (cg_Profiles sample_hub)). CHR '':'' \<notin> set p \<and> p \<noteq> ''shared''" "distinct (map fst (cg_Profiles sample_hub))"
    by (simp_all add: sample_hub_def sample_config_def)
  show ?thesis using instance_keys_separate [OF n _ r(1) _ r(2)] r by simp
qed

theorem cwd_prefix_without_separator_witness:
  "\<exists>r. ResolveServer sample_hub '''' ''/w/abc'' ''search'' = Some r \<and> rv_Profile r = ''alpha'' \<and> rv_EnvFiles r = [''/env'']"
proof -
  let ?p = "sample_profile ''/w/a'' [(''search'', sample_tool ''search'')]"
  have "Clean ''/w/a'' = ''/w/a''" "Clean (''/w/a'' @ ''bc'') = ''/w/a'' @ ''bc''" "\<not> ContainsAny ''search'' refused_chars" "TrimSpace ''search'' = ''search''"
    by code_simp+
  moreover have "cg_Profiles sample_hub = [(''alpha'', ?p)]" by (simp add: sample_hub_def sample_config_def)
  ultimately show ?thesis
    using cwd_prefix_without_separator [of sample_hub "''alpha''" ?p "''/w/a''" "''bc''" "''search''" "sample_tool ''search''"]
    by (auto simp: sample_profile_def)
qed

end
