(* ===== verification/Hub_Vault.thy ===== *)
theory Hub_Vault
  imports Hub_Config
begin

text \<open>
  Environment files and the expansion of variables in tool configurations (\<^verbatim>\<open>internal/hub/vault.go\<close>), over ASCII
  text. The environment of the process (\<open>getenv\<close>) and the home directory are parameters. A line of 65536 bytes or
  more is more than the scanner's buffer holds and fails the whole file.
\<close>

section \<open>Expansion\<close>

definition isAlphaOrUnderscore :: "char \<Rightarrow> bool" where
  "isAlphaOrUnderscore c \<longleftrightarrow> is_lower c \<or> is_upper c \<or> c = CHR ''_''"

definition isAlnumOrUnderscore :: "char \<Rightarrow> bool" where
  "isAlnumOrUnderscore c \<longleftrightarrow> is_lower c \<or> is_upper c \<or> is_digit c \<or> c = CHR ''_''"

definition isValidEnvName :: "string \<Rightarrow> bool" where
  "isValidEnvName s = (case s of [] \<Rightarrow> False | c # cs \<Rightarrow> isAlphaOrUnderscore c \<and> list_all isAlnumOrUnderscore cs)"

definition lookupEnv :: "(string \<Rightarrow> string) \<Rightarrow> string gomap \<Rightarrow> string \<Rightarrow> string" where
  "lookupEnv getenv envMap key = (case map_of envMap key of Some v \<Rightarrow> v | None \<Rightarrow> getenv key)"

lemma cut_shorter: "cut c s = Some (a, b) \<Longrightarrow> length b < length s"
proof -
  assume "cut c s = Some (a, b)"
  then have c: "c \<in> set s" "b = tl (dropWhile (\<lambda>x. x \<noteq> c) s)" by (auto simp: cut_def split: if_splits)
  then have "dropWhile (\<lambda>x. x \<noteq> c) s \<noteq> []" by (auto simp: dropWhile_eq_Nil_conv)
  then have "length b < length (dropWhile (\<lambda>x. x \<noteq> c) s)" using c(2) by simp
  then show ?thesis using length_dropWhile_le [of "\<lambda>x. x \<noteq> c" s] by linarith
qed

text \<open>The loop of \<^verbatim>\<open>ExpandEnv\<close>, on what is left of the text from index \<^verbatim>\<open>i\<close>.\<close>

function ExpandEnv_loop :: "(string \<Rightarrow> string) \<Rightarrow> string gomap \<Rightarrow> string \<Rightarrow> string" where
  "ExpandEnv_loop getenv env [] = []"
| "ExpandEnv_loop getenv env [c] = [c]"
| "ExpandEnv_loop getenv env (c # n # s) =
     (if c \<noteq> CHR ''$'' then c # ExpandEnv_loop getenv env (n # s)
      else if n = CHR ''$'' then CHR ''$'' # ExpandEnv_loop getenv env s
      else if n = CHR 0x7B then
        (case cut CHR 0x7D s of
           None \<Rightarrow> c # ExpandEnv_loop getenv env (n # s)
         | Some (name, rest) \<Rightarrow>
             if \<not> isValidEnvName name then c # ExpandEnv_loop getenv env (n # s)
             else lookupEnv getenv env name @ ExpandEnv_loop getenv env rest)
      else if isAlphaOrUnderscore n then
        lookupEnv getenv env (n # takeWhile isAlnumOrUnderscore s) @ ExpandEnv_loop getenv env (dropWhile isAlnumOrUnderscore s)
      else c # ExpandEnv_loop getenv env (n # s))"
  by pat_completeness auto
termination
  by (relation "measure (\<lambda>(getenv, env, s). length s)")
    (auto dest!: cut_shorter simp: less_Suc_eq_le le_SucI length_dropWhile_le)

definition ExpandEnv :: "(string \<Rightarrow> string) \<Rightarrow> string \<Rightarrow> string gomap \<Rightarrow> string" where
  "ExpandEnv getenv s envMap = ExpandEnv_loop getenv envMap s"

definition HydrateToolConfig :: "(string \<Rightarrow> string) \<Rightarrow> ToolConfig \<Rightarrow> string gomap \<Rightarrow> ToolConfig" where
  "HydrateToolConfig getenv cfg envMap =
     (let ex = (\<lambda>s. ExpandEnv getenv s envMap)
      in cfg\<lparr>tl_Command := ex (tl_Command cfg), tl_WorkingDir := ex (tl_WorkingDir cfg),
             tl_Args := (if tl_Args cfg \<noteq> [] then map ex (tl_Args cfg) else tl_Args cfg),
             tl_Env := (if tl_Env cfg \<noteq> [] then map (\<lambda>(k, v). (k, ex v)) (tl_Env cfg) else tl_Env cfg)\<rparr>)"

section \<open>Environment files\<close>

text \<open>\<^verbatim>\<open>bufio.ScanLines\<close>: the lines without their ends; nothing after the last newline is no line.\<close>

definition drop_cr :: "string \<Rightarrow> string" where
  "drop_cr s = (if s \<noteq> [] \<and> last s = CHR 0x0D then butlast s else s)"

definition raw_lines :: "string \<Rightarrow> string list" where
  "raw_lines s = (let ls = split_on CHR 0x0A s in if last ls = [] then butlast ls else ls)"

definition MaxScanTokenSize :: nat where
  "MaxScanTokenSize = 65536"

text \<open>The text before the first occurrence of \<^verbatim>\<open>" #"\<close>, if there is one.\<close>

fun before_comment :: "string \<Rightarrow> string option" where
  "before_comment (a # b # s) =
     (if a = CHR '' '' \<and> b = CHR ''#'' then Some [] else map_option (\<lambda>t. a # t) (before_comment (b # s)))"
| "before_comment s = None"

definition is_quoted :: "string \<Rightarrow> bool" where
  "is_quoted v \<longleftrightarrow> length v \<ge> 2 \<and>
     (hd v = CHR 0x22 \<and> last v = CHR 0x22 \<or> hd v = CHR 0x27 \<and> last v = CHR 0x27)"

definition env_value :: "string \<Rightarrow> string" where
  "env_value v =
     (if is_quoted v then butlast (tl v)
      else (case before_comment v of Some t \<Rightarrow> TrimSpace t | None \<Rightarrow> v))"

definition env_line :: "string \<Rightarrow> (string \<times> string) option" where
  "env_line text =
     (let l = TrimSpace text
      in if l = '''' \<or> has_prefix ''#'' l then None
         else (let l1 = (if has_prefix ''export '' l then TrimSpace (TrimPrefix ''export '' l) else l)
               in case cut CHR ''='' l1 of
                    None \<Rightarrow> None
                  | Some (k, v) \<Rightarrow> if k = '''' then None else Some (TrimSpace k, env_value (TrimSpace v))))"

definition parse_env :: "string \<Rightarrow> err + string gomap" where
  "parse_env data =
     (let ls = raw_lines data
      in if list_ex (\<lambda>l. length l \<ge> MaxScanTokenSize) ls then Inl (Errorf ''bufio.Scanner: token too long'' [])
         else Inr (foldl (\<lambda>res l. case env_line (drop_cr l) of None \<Rightarrow> res | Some (k, v) \<Rightarrow> map_put k v res) [] ls))"

definition LoadEnvFile :: "string \<Rightarrow> disk \<Rightarrow> err + string gomap" where
  "LoadEnvFile path dk =
     (case read_file ReadFile path (dk_files dk) dk of
        Inl e \<Rightarrow> Inl (Wrapf ''hub: read env file %q: %w'' [AStr path] (ioerr_err e))
      | Inr data \<Rightarrow>
      (case parse_env data of
        Inl e \<Rightarrow> Inl (Wrapf ''hub: scan env file %q: %w'' [AStr path] e)
      | Inr res \<Rightarrow> Inr res))"

text \<open>A file is skipped exactly when \<^verbatim>\<open>os.Stat\<close> says that it does not exist.\<close>

fun LoadEnvFiles_loop :: "string option \<Rightarrow> string list \<Rightarrow> disk \<Rightarrow> string gomap \<Rightarrow> err + string gomap" where
  "LoadEnvFiles_loop home [] dk merged = Inr merged"
| "LoadEnvFiles_loop home (p0 # ps) dk merged =
     (if p0 = '''' then LoadEnvFiles_loop home ps dk merged
      else let p = (case home of Some h \<Rightarrow> if has_prefix ''~/'' p0 then h @ tl p0 else p0 | None \<Rightarrow> p0)
      in if dk_files dk p = None then LoadEnvFiles_loop home ps dk merged
         else (case LoadEnvFile p dk of
            Inl e \<Rightarrow> Inl e
          | Inr env \<Rightarrow> LoadEnvFiles_loop home ps dk (foldl (\<lambda>m (k, v). map_put k v m) merged env)))"

definition LoadEnvFiles :: "string option \<Rightarrow> string list \<Rightarrow> disk \<Rightarrow> err + string gomap" where
  "LoadEnvFiles home paths dk = LoadEnvFiles_loop home paths dk []"

section \<open>Lemmas\<close>

lemma ExpandEnv_plain: "c \<noteq> CHR ''$'' \<Longrightarrow> ExpandEnv_loop getenv env (c # s) = c # ExpandEnv_loop getenv env s"
  by (cases s) simp_all

lemma ExpandEnv_no_dollar: "CHR ''$'' \<notin> set s \<Longrightarrow> ExpandEnv getenv s env = s"
  unfolding ExpandEnv_def by (induction s) (auto simp: ExpandEnv_plain)

text \<open>A text with every dollar doubled.\<close>

definition escape_dollars :: "string \<Rightarrow> string" where
  "escape_dollars s = concat (map (\<lambda>c. if c = CHR ''$'' then ''$$'' else [c]) s)"

lemma ExpandEnv_escaped_prefix:
  "ExpandEnv_loop getenv env (escape_dollars s @ t) = s @ ExpandEnv_loop getenv env t"
  by (induction s) (auto simp: escape_dollars_def ExpandEnv_plain)

lemma TrimSpace_id: "s \<noteq> [] \<Longrightarrow> \<not> is_space (hd s) \<Longrightarrow> \<not> is_space (last s) \<Longrightarrow> TrimSpace s = s"
proof -
  assume s: "s \<noteq> []" "\<not> is_space (hd s)" "\<not> is_space (last s)"
  have "dropWhile is_space s = s" using s(1,2) by (cases s) simp_all
  moreover have "dropWhile is_space (rev s) = rev s" using s(1,3) by (cases s rule: rev_cases) simp_all
  ultimately show ?thesis by (simp add: TrimSpace_def trim_right_def)
qed

lemma name_chars: "isValidEnvName k \<Longrightarrow> c \<in> set k \<Longrightarrow> isAlnumOrUnderscore c"
  by (cases k) (auto simp: isValidEnvName_def isAlphaOrUnderscore_def isAlnumOrUnderscore_def list_all_iff)

lemma alnum_plain:
  assumes "isAlnumOrUnderscore c"
  shows "\<not> is_space c" "c \<noteq> CHR ''=''" "c \<noteq> CHR ''#''" "c \<noteq> CHR '' ''" "c \<noteq> CHR 0x0A" "c \<noteq> CHR 0x7D"
  using assms by (auto simp: isAlnumOrUnderscore_def is_space_def is_lower_def is_upper_def is_digit_def less_eq_char_def)

lemma name_not_Nil: "isValidEnvName k \<Longrightarrow> k \<noteq> []"
  by (auto simp: isValidEnvName_def)

definition env_entry :: "string \<times> string \<Rightarrow> string" where
  "env_entry kv = fst kv @ ''='' @ [CHR 0x22] @ snd kv @ [CHR 0x22]"

lemma env_line_entry:
  assumes "isValidEnvName k"
  shows "env_line (env_entry (k, v)) = Some (k, v)"
proof -
  let ?q = "CHR 0x22 # v @ [CHR 0x22]"
  have k: "k \<noteq> []" "\<forall>c \<in> set k. isAlnumOrUnderscore c" using name_not_Nil name_chars assms by blast+
  let ?l = "k @ CHR ''='' # ?q"
  have l: "env_entry (k, v) = ?l" by (simp add: env_entry_def)
  have hd: "\<not> is_space (hd ?l)" "hd ?l \<noteq> CHR ''#''" using k alnum_plain by (auto simp: hd_append)
  have trim: "TrimSpace ?l = ?l" by (rule TrimSpace_id) (use hd in \<open>auto simp: is_space_def\<close>)
  have tw: "takeWhile (\<lambda>x. x \<noteq> CHR ''='') ?l = k" "dropWhile (\<lambda>x. x \<noteq> CHR ''='') ?l = CHR ''='' # ?q"
    using k(2) alnum_plain(2) by (auto simp: takeWhile_append dropWhile_append)
  have export: "\<not> has_prefix ''export '' ?l"
  proof
    assume "has_prefix ''export '' ?l"
    then obtain t where "?l = ''export '' @ t" by (auto simp: has_prefix_iff)
    then have "takeWhile (\<lambda>x. x \<noteq> CHR ''='') ?l = ''export '' @ takeWhile (\<lambda>x. x \<noteq> CHR ''='') t" by simp
    then have "CHR '' '' \<in> set k" using tw(1) by simp
    then show False using k(2) alnum_plain(4) by blast
  qed
  have hash: "\<not> has_prefix ''#'' ?l" using hd(2) k(1) by (cases k) (auto simp: has_prefix_def)
  have cut: "cut CHR ''='' ?l = Some (k, ?q)" using tw by (simp add: cut_def)
  have ks: "TrimSpace k = k" by (rule TrimSpace_id) (use k alnum_plain in auto)
  have qs: "TrimSpace ?q = ?q" by (rule TrimSpace_id) (auto simp: is_space_def)
  have val: "env_value ?q = v" by (simp add: env_value_def is_quoted_def)
  show ?thesis unfolding env_line_def l Let_def trim using hash export cut ks qs val k(1) by simp
qed

lemma foldl_map_put:
  "distinct (map fst (m @ env)) \<Longrightarrow> foldl (\<lambda>res (k, v). map_put k v res) m env = m @ env"
proof (induction env arbitrary: m)
  case (Cons kv env)
  obtain k v where kv: "kv = (k, v)" by force
  have "map_put k v m = m @ [(k, v)]" if "k \<notin> fst ` set m" for m :: "(string \<times> 'a) list"
    using that by (induction k v m rule: map_put.induct) auto
  then have "map_put k v m = m @ [(k, v)]" using Cons.prems kv by force
  then show ?case using Cons.IH [of "m @ [(k, v)]"] Cons.prems kv by simp
qed simp

lemma split_lines:
  "\<forall>l \<in> set ls. CHR 0x0A \<notin> set l \<Longrightarrow> split_on CHR 0x0A (concat (map (\<lambda>l. l @ [CHR 0x0A]) ls)) = ls @ [[]]"
  by (induction ls) (auto simp: split_on_append)

lemma entry_chars: "isValidEnvName k \<Longrightarrow> CHR 0x0A \<notin> set v \<Longrightarrow> CHR 0x0A \<notin> set (env_entry (k, v))"
  using name_chars alnum_plain(5) by (fastforce simp: env_entry_def)

section \<open>Properties\<close>

text \<open>Escaping is undone by expansion. A text with every dollar doubled expands to itself, whatever the environment
holds, and what follows it is expanded as if it stood alone.\<close>

theorem expand_undoes_escape:
  "ExpandEnv getenv (escape_dollars s @ t) env = s @ ExpandEnv getenv t env"
  unfolding ExpandEnv_def by (rule ExpandEnv_escaped_prefix)

text \<open>C22: an environment file reads back. Writing valid names and values without newlines, one quoted entry per line, and
parsing the file yields the same variables, blanks, comment signs and equal signs in the values included.\<close>

theorem env_file_roundtrip:
  assumes "\<forall>(k, v) \<in> set env. isValidEnvName k \<and> CHR 0x0A \<notin> set v \<and> length (env_entry (k, v)) < MaxScanTokenSize"
    and "distinct (map fst env)"
  shows "parse_env (concat (map (\<lambda>kv. env_entry kv @ [CHR 0x0A]) env)) = Inr env"
proof -
  let ?ls = "map env_entry env"
  have n: "\<forall>l \<in> set ?ls. CHR 0x0A \<notin> set l" using assms(1) entry_chars by fastforce
  have "concat (map (\<lambda>kv. env_entry kv @ [CHR 0x0A]) env) = concat (map (\<lambda>l. l @ [CHR 0x0A]) ?ls)" by (simp add: comp_def)
  then have raw: "raw_lines (concat (map (\<lambda>kv. env_entry kv @ [CHR 0x0A]) env)) = ?ls"
    using split_lines [OF n] by (simp add: raw_lines_def Let_def)
  have cr: "drop_cr (env_entry kv) = env_entry kv" for kv by (simp add: drop_cr_def env_entry_def)
  have "foldl (\<lambda>res l. case env_line (drop_cr l) of None \<Rightarrow> res | Some (k, v) \<Rightarrow> map_put k v res) m (map env_entry xs) =
      foldl (\<lambda>res (k, v). map_put k v res) m xs" if "set xs \<subseteq> set env" for m xs
    using that assms(1) by (induction xs arbitrary: m) (auto simp: cr env_line_entry)
  then have "foldl (\<lambda>res l. case env_line (drop_cr l) of None \<Rightarrow> res | Some (k, v) \<Rightarrow> map_put k v res) [] ?ls = env"
    using foldl_map_put [of "[]" env] assms(2) by simp
  then show ?thesis using raw assms(1) by (force simp: parse_env_def list_ex_iff)
qed

theorem env_file_roundtrip_witness:
  "parse_env (concat (map (\<lambda>kv. env_entry kv @ [CHR 0x0A]) [(''TOKEN'', ''a # b=c''), (''HOST'', '' x '')])) =
     Inr [(''TOKEN'', ''a # b=c''), (''HOST'', '' x '')]"
  by (rule env_file_roundtrip)
    (simp_all add: isValidEnvName_def isAlphaOrUnderscore_def isAlnumOrUnderscore_def is_lower_def is_upper_def less_eq_char_def env_entry_def MaxScanTokenSize_def)

end
