(* ===== verification/Hub_Supervisor.thy ===== *)
theory Hub_Supervisor
  imports Hub_Vault
begin

text \<open>
  The supervisor of the hub's tool processes (\<^verbatim>\<open>internal/hub/supervisor.go\<close>, \<^verbatim>\<open>reaper.go\<close>): one process per pool key,
  shared by all clients, whose requests are multiplexed over its standard input and output. A request is sent
  under an identifier of the supervisor's own, the reader of the process's output routes a response to the
  channel registered under its identifier, and the client's identifier is put back.

  \<^verbatim>\<open>atomic.AddUint64\<close> counts in \<open>nat\<close>: the counter would have to pass 2 to the 64 to wrap. A channel is the number of
  the call that waits on it. What happens to the operating system's process when it is signalled is not modelled
  beyond its reader ending.
\<close>

section \<open>State\<close>

datatype ToolStatus = Registered | Starting | Running | Stopping | Stopped | Failed

fun ToolStatus_code :: "ToolStatus \<Rightarrow> string" where
  "ToolStatus_code Registered = ''REGISTERED''"
| "ToolStatus_code Starting = ''STARTING''"
| "ToolStatus_code Running = ''RUNNING''"
| "ToolStatus_code Stopping = ''STOPPING''"
| "ToolStatus_code Stopped = ''STOPPED''"
| "ToolStatus_code Failed = ''FAILED''"

record JSONRPCError =
  re_Code :: int
  re_Message :: string

record JSONRPCRequest =
  rq_ID :: string
  rq_Method :: string
  rq_Params :: string

record JSONRPCResponse =
  rs_ID :: string
  rs_Result :: string
  rs_Error :: "JSONRPCError option"

record ManagedTool =
  mt_config :: ToolConfig
  mt_status :: ToolStatus
  mt_cmd :: "nat option"
  mt_pid :: nat
  mt_startTime :: gotime
  mt_lastActive :: gotime
  mt_restarts :: nat
  mt_reqSeq :: nat
  mt_pending :: "string \<rightharpoonup> nat"
  mt_initResult :: string
  mt_toolsResult :: string

definition new_tool :: "ToolConfig \<Rightarrow> gotime \<Rightarrow> ManagedTool" where
  "new_tool cfg now = \<lparr>mt_config = cfg, mt_status = Registered, mt_cmd = None, mt_pid = 0, mt_startTime = 0, mt_lastActive = now,
     mt_restarts = 0, mt_reqSeq = 0, mt_pending = Map.empty, mt_initResult = '''', mt_toolsResult = ''''\<rparr>"

type_synonym Supervisor = "ManagedTool gomap"

definition RegisterTool :: "ToolConfig \<Rightarrow> gotime \<Rightarrow> Supervisor \<Rightarrow> Supervisor" where
  "RegisterTool cfg now s = map_put (tl_Name cfg) (new_tool cfg now) s"

definition GetTool :: "string \<Rightarrow> Supervisor \<Rightarrow> ManagedTool option" where
  "GetTool name s = map_of s name"

definition GetOrCreateTool :: "string \<Rightarrow> ToolConfig \<Rightarrow> gotime \<Rightarrow> Supervisor \<Rightarrow> ManagedTool \<times> Supervisor" where
  "GetOrCreateTool key cfg now s =
     (case map_of s key of
        Some t \<Rightarrow> (t, s)
      | None \<Rightarrow> (let t = new_tool cfg now in (t, map_put key t s)))"

record ToolStats =
  ts_Name :: string
  ts_Status :: string
  ts_PID :: nat
  ts_Uptime :: int
  ts_IdleDuration :: int
  ts_RestartCount :: nat
  ts_Command :: string
  ts_CrossProfile :: bool

definition tool_stats :: "gotime \<Rightarrow> string \<Rightarrow> ManagedTool \<Rightarrow> ToolStats" where
  "tool_stats now name t =
     \<lparr>ts_Name = name, ts_Status = ToolStatus_code (mt_status t), ts_PID = mt_pid t,
      ts_Uptime = (if mt_startTime t \<noteq> 0 \<and> mt_status t = Running then now - mt_startTime t else 0),
      ts_IdleDuration = (if mt_lastActive t = 0 then 0 else now - mt_lastActive t),
      ts_RestartCount = mt_restarts t, ts_Command = tl_Command (mt_config t), ts_CrossProfile = has_prefix ''shared:'' name\<rparr>"

definition ListTools :: "gotime \<Rightarrow> Supervisor \<Rightarrow> ToolStats gomap" where
  "ListTools now s = map (\<lambda>(name, t). (name, tool_stats now name t)) s"

definition Touch :: "gotime \<Rightarrow> ManagedTool \<Rightarrow> ManagedTool" where
  "Touch now t = t\<lparr>mt_lastActive := now\<rparr>"

section \<open>Calls\<close>

text \<open>The identifier a request is forwarded under, and the key of its channel: the identifier as JSON text.\<close>

definition request_id :: "bool \<Rightarrow> nat \<Rightarrow> string" where
  "request_id internal n = Sprintf (if internal then ''internal-%d'' else ''req-%d'') [AInt (int n)]"

definition pending_key :: "bool \<Rightarrow> nat \<Rightarrow> string" where
  "pending_key internal n = Sprintf ''%q'' [AStr (request_id internal n)]"

text \<open>The start of \<^verbatim>\<open>callRaw\<close> and \<^verbatim>\<open>callRawLocked\<close>: the forwarded request and the registered channel.\<close>

definition callRaw_register :: "bool \<Rightarrow> nat \<Rightarrow> JSONRPCRequest \<Rightarrow> ManagedTool \<Rightarrow> JSONRPCRequest \<times> ManagedTool" where
  "callRaw_register internal ch req t =
     (let n = Suc (mt_reqSeq t); key = pending_key internal n
      in (req\<lparr>rq_ID := key\<rparr>, t\<lparr>mt_reqSeq := n, mt_pending := (mt_pending t)(key \<mapsto> ch)\<rparr>))"

text \<open>Its end when the write fails or the context is done.\<close>

definition callRaw_abandon :: "string \<Rightarrow> ManagedTool \<Rightarrow> ManagedTool" where
  "callRaw_abandon key t = t\<lparr>mt_pending := (mt_pending t)(key := None)\<rparr>"

text \<open>A line of a reader that decodes: the channel the response goes to.\<close>

definition readLoop_line :: "JSONRPCResponse \<Rightarrow> ManagedTool \<Rightarrow> nat option \<times> ManagedTool" where
  "readLoop_line resp t =
     (case mt_pending t (rs_ID resp) of
        None \<Rightarrow> (None, t)
      | Some ch \<Rightarrow> (Some ch, t\<lparr>mt_pending := (mt_pending t)(rs_ID resp := None)\<rparr>))"

text \<open>The end of the reader of a process, and of a tool: every channel is closed.\<close>

definition close_pending :: "ManagedTool \<Rightarrow> nat set \<times> ManagedTool" where
  "close_pending t = (ran (mt_pending t), t\<lparr>mt_pending := Map.empty\<rparr>)"

definition readLoop_exit :: "nat \<Rightarrow> ManagedTool \<Rightarrow> nat set \<times> ManagedTool" where
  "readLoop_exit cmd t =
     close_pending (if mt_cmd t = Some cmd \<and> mt_status t = Running then t\<lparr>mt_status := Stopped\<rparr> else t)"

definition ManagedTool_Stop :: "ManagedTool \<Rightarrow> nat set \<times> ManagedTool" where
  "ManagedTool_Stop t =
     (if mt_status t \<noteq> Running \<and> mt_status t \<noteq> Starting then ({}, t)
      else close_pending (t\<lparr>mt_cmd := None, mt_pid := 0, mt_status := Registered\<rparr>))"

text \<open>
  \<^verbatim>\<open>startLocked\<close> up to the start of the reader: the pipes and the process either fail or give a process with its number
  in the operating system.
\<close>

definition startLocked_spawn :: "gotime \<Rightarrow> nat \<Rightarrow> err + nat \<Rightarrow> ManagedTool \<Rightarrow> err option \<times> ManagedTool" where
  "startLocked_spawn now cmd launched t =
     (case launched of
        Inl e \<Rightarrow> (Some e, t\<lparr>mt_status := Failed\<rparr>)
      | Inr pid \<Rightarrow> (None, t\<lparr>mt_status := Running, mt_cmd := Some cmd, mt_pid := pid, mt_startTime := now, mt_lastActive := now\<rparr>))"

text \<open>
  What the handshake of \<^verbatim>\<open>startLocked\<close> keeps: the results of \<^verbatim>\<open>initialize\<close> and, if that was answered, \<^verbatim>\<open>tools/list\<close>. A
  failed handshake is no error.
\<close>

definition startLocked_handshake :: "err + JSONRPCResponse \<Rightarrow> err + JSONRPCResponse \<Rightarrow> ManagedTool \<Rightarrow> ManagedTool" where
  "startLocked_handshake initResp toolsResp t =
     (case initResp of
        Inl e \<Rightarrow> t
      | Inr r \<Rightarrow>
         (let t1 = t\<lparr>mt_initResult := rs_Result r\<rparr>
          in case toolsResp of Inl e \<Rightarrow> t1 | Inr r' \<Rightarrow> t1\<lparr>mt_toolsResult := rs_Result r'\<rparr>))"

definition cached_response :: "JSONRPCRequest \<Rightarrow> ManagedTool \<Rightarrow> JSONRPCResponse option" where
  "cached_response req t =
     (if rq_Method req = ''initialize'' \<and> mt_initResult t \<noteq> '''' then
        Some \<lparr>rs_ID = rq_ID req, rs_Result = mt_initResult t, rs_Error = None\<rparr>
      else if rq_Method req = ''tools/list'' \<and> mt_toolsResult t \<noteq> '''' then
        Some \<lparr>rs_ID = rq_ID req, rs_Result = mt_toolsResult t, rs_Error = None\<rparr>
      else None)"

text \<open>
  One request alone with its tool. The outcome of a launch, and what the process answers to a forwarded request (or
  the error of the call), are parameters; \<open>ch\<close> is the first unused call number.
\<close>

definition callRaw :: "bool \<Rightarrow> nat \<Rightarrow> (JSONRPCRequest \<Rightarrow> err + JSONRPCResponse) \<Rightarrow> JSONRPCRequest \<Rightarrow> ManagedTool \<Rightarrow> (err + JSONRPCResponse) \<times> ManagedTool" where
  "callRaw internal ch answer req t =
     (let (fwd, t1) = callRaw_register internal ch req t
      in (answer fwd, callRaw_abandon (rq_ID fwd) t1))"

definition init_request :: JSONRPCRequest where
  "init_request = \<lparr>rq_ID = [CHR 0x22] @ ''init-1'' @ [CHR 0x22], rq_Method = ''initialize'', rq_Params =
     ''{\"protocolVersion\":\"2024-11-05\",\"capabilities\":{},\"clientInfo\":{\"name\":\"omca-hub\",\"version\":\"1.0.0\"}}''\<rparr>"

definition tools_request :: JSONRPCRequest where
  "tools_request = \<lparr>rq_ID = [CHR 0x22] @ ''tools-1'' @ [CHR 0x22], rq_Method = ''tools/list'', rq_Params = ''''\<rparr>"

definition startLocked ::
  "gotime \<Rightarrow> nat \<Rightarrow> err + nat \<Rightarrow> nat \<Rightarrow> (JSONRPCRequest \<Rightarrow> err + JSONRPCResponse) \<Rightarrow> ManagedTool \<Rightarrow> err option \<times> ManagedTool" where
  "startLocked now cmd launched ch answer t =
     (case startLocked_spawn now cmd launched t of
        (Some e, t1) \<Rightarrow> (Some e, t1)
      | (None, t1) \<Rightarrow>
         (let (initResp, t2) = callRaw True ch answer init_request t1
          in case initResp of
               Inl e \<Rightarrow> (None, t2)
             | Inr r \<Rightarrow>
                (let (toolsResp, t3) = callRaw True (Suc ch) answer tools_request t2
                 in (None, startLocked_handshake initResp toolsResp t3))))"

definition HandleClientRequest ::
  "gotime \<Rightarrow> nat \<Rightarrow> err + nat \<Rightarrow> nat \<Rightarrow> (JSONRPCRequest \<Rightarrow> err + JSONRPCResponse) \<Rightarrow> JSONRPCRequest \<Rightarrow> ManagedTool \<Rightarrow>
   (err + JSONRPCResponse) \<times> ManagedTool" where
  "HandleClientRequest now cmd launched ch answer req t0 =
     (let t = Touch now t0
      in case cached_response req t of
        Some r \<Rightarrow> (Inr r, t)
      | None \<Rightarrow>
      (case (if mt_status t \<noteq> Running then startLocked now cmd launched ch answer t else (None, t)) of
        (Some e, t1) \<Rightarrow> (Inl e, t1)
      | (None, t1) \<Rightarrow>
      (case cached_response req t1 of
        Some r \<Rightarrow> (Inr r, t1)
      | None \<Rightarrow>
      (case callRaw False (ch + 2) answer req t1 of
        (Inl e, t2) \<Rightarrow> (Inl e, t2)
      | (Inr resp, t2) \<Rightarrow> (Inr (resp\<lparr>rs_ID := rq_ID req\<rparr>), t2)))))"

section \<open>The idle reaper\<close>

definition reaper_timeout :: "int \<Rightarrow> int" where
  "reaper_timeout timeout = (if timeout \<le> 0 then 5 * 60 * 1000000000 else timeout)"

definition reaper_interval :: "int \<Rightarrow> int" where
  "reaper_interval timeout =
     (let i = reaper_timeout timeout div 2;
          i1 = (if i > 30 * 1000000000 then 30 * 1000000000 else i)
      in if i1 < 500 * 1000000 then 500 * 1000000 else i1)"

text \<open>The tools after a sweep, and how many were reaped.\<close>

fun ReapOnce :: "int \<Rightarrow> gotime \<Rightarrow> Supervisor \<Rightarrow> nat \<times> Supervisor" where
  "ReapOnce timeout now [] = (0, [])"
| "ReapOnce timeout now ((k, t) # s) =
     (let (n, s') = ReapOnce timeout now s
      in if mt_status t \<noteq> Running then (n, (k, t) # s')
         else if now - mt_lastActive t \<ge> timeout then (Suc n, (k, snd (ManagedTool_Stop t)) # s')
         else (n, (k, t) # s'))"

definition StopAll :: "Supervisor \<Rightarrow> Supervisor" where
  "StopAll s = map (\<lambda>(k, t). (k, snd (ManagedTool_Stop t))) s"

section \<open>Concurrent clients of one tool\<close>

text \<open>
  Every client call, reader and stop runs in a goroutine of its own; the steps below are the parts that a mutex
  makes atomic. Calls are numbered as they come; a channel is waited on, has been given a response, is closed, or was
  given up by its own call.
  A reader lives until its process's output ends, which may be long after the tool was stopped or restarted.
\<close>

datatype chan = Waiting | Delivered JSONRPCResponse | Closed | Abandoned

record calls =
  sw_tool :: ManagedTool
  sw_chan :: "nat \<Rightarrow> chan option"
  sw_sent :: "nat \<Rightarrow> string"
  sw_readers :: "nat set"
  sw_started :: nat

definition close_channels :: "nat set \<Rightarrow> (nat \<Rightarrow> chan option) \<Rightarrow> nat \<Rightarrow> chan option" where
  "close_channels chs m = (\<lambda>c. if c \<in> chs then Some Closed else m c)"

inductive call_step :: "calls \<Rightarrow> calls \<Rightarrow> bool" where
  register: "sw_chan w c = None \<Longrightarrow> callRaw_register internal c req (sw_tool w) = (fwd, t) \<Longrightarrow>
    call_step w (w\<lparr>sw_tool := t, sw_chan := (sw_chan w)(c \<mapsto> Waiting), sw_sent := (sw_sent w)(c := rq_ID fwd)\<rparr>)"
| respond: "p \<in> sw_readers w \<Longrightarrow> readLoop_line resp (sw_tool w) = (Some c, t) \<Longrightarrow>
    call_step w (w\<lparr>sw_tool := t, sw_chan := (sw_chan w)(c \<mapsto> Delivered resp)\<rparr>)"
| abandon: "sw_chan w c = Some x \<Longrightarrow>
    call_step w (w\<lparr>sw_tool := callRaw_abandon (sw_sent w c) (sw_tool w), sw_chan := (sw_chan w)(c \<mapsto> Abandoned)\<rparr>)"
| ends: "p \<in> sw_readers w \<Longrightarrow> readLoop_exit p (sw_tool w) = (chs, t) \<Longrightarrow>
    call_step w (w\<lparr>sw_tool := t, sw_chan := close_channels chs (sw_chan w), sw_readers := sw_readers w - {p}\<rparr>)"
| stop: "ManagedTool_Stop (sw_tool w) = (chs, t) \<Longrightarrow>
    call_step w (w\<lparr>sw_tool := t, sw_chan := close_channels chs (sw_chan w)\<rparr>)"
| start: "mt_status (sw_tool w) \<noteq> Running \<Longrightarrow> startLocked_spawn now (sw_started w) (Inr pid) (sw_tool w) = (None, t) \<Longrightarrow>
    call_step w (w\<lparr>sw_tool := t, sw_readers := insert (sw_started w) (sw_readers w), sw_started := Suc (sw_started w)\<rparr>)"
| fail: "mt_status (sw_tool w) \<noteq> Running \<Longrightarrow> startLocked_spawn now n (Inl e) (sw_tool w) = (Some e, t) \<Longrightarrow> call_step w (w\<lparr>sw_tool := t\<rparr>)"
| keep: "call_step w (w\<lparr>sw_tool := startLocked_handshake r1 r2 (sw_tool w)\<rparr>)"

definition idle_calls :: "ManagedTool \<Rightarrow> calls" where
  "idle_calls t = \<lparr>sw_tool = t, sw_chan = Map.empty, sw_sent = (\<lambda>_. ''''), sw_readers = {}, sw_started = 0\<rparr>"

section \<open>Identifiers\<close>

lemma pending_key_eq: "pending_key internal n = CHR 0x22 # (if internal then ''internal-'' else ''req-'') @ nat_dec n @ [CHR 0x22]"
proof -
  have "quote_char c = [c]" if "c \<in> set (nat_dec n)" for c
  proof -
    have "(of_char c :: nat) \<noteq> 34" "(of_char c :: nat) \<noteq> 92" "32 \<le> (of_char c :: nat)" "(of_char c :: nat) \<noteq> 127"
      using nat_dec_digits [OF that] by linarith+
    then show ?thesis by (auto simp: quote_char_def Let_def)
  qed
  then have "concat (map quote_char (nat_dec n)) = concat (map (\<lambda>c. [c]) (nat_dec n))" by (metis (mono_tags, lifting) map_eq_conv)
  then have q: "concat (map quote_char (nat_dec n)) = nat_dec n" by simp
  have w: "concat (map quote_char ''internal-'') = ''internal-''" "concat (map quote_char ''req-'') = ''req-''" by code_simp+
  have "request_id internal n = (if internal then ''internal-'' else ''req-'') @ nat_dec n"
    by (simp add: request_id_def int_dec_def)
  then show ?thesis using q w by (cases internal) (simp_all add: pending_key_def Quote_def)
qed

lemma pending_key_inj: "pending_key i m = pending_key j n \<Longrightarrow> m = n"
  by (cases i; cases j) (auto simp: pending_key_eq nat_dec_inj)

section \<open>The invariant of the channels\<close>

text \<open>
  Of the registered channels, the counter, the channels and the identifiers sent: exactly the waiting calls are
  registered, each under the identifier it was sent with; identifiers are distinct; and what was delivered to a
  call carries its identifier.
\<close>

definition routed :: "(string \<rightharpoonup> nat) \<Rightarrow> nat \<Rightarrow> (nat \<Rightarrow> chan option) \<Rightarrow> (nat \<Rightarrow> string) \<Rightarrow> bool" where
  "routed pend seq chans sent \<longleftrightarrow>
     (\<forall>c. chans c = Some Waiting \<longleftrightarrow> (\<exists>k. pend k = Some c)) \<and>
     (\<forall>k c. pend k = Some c \<longrightarrow> sent c = k) \<and>
     (\<forall>c. chans c \<noteq> None \<longrightarrow> (\<exists>i n. sent c = pending_key i n \<and> n \<le> seq)) \<and>
     (\<forall>c d. chans c \<noteq> None \<and> chans d \<noteq> None \<and> sent c = sent d \<longrightarrow> c = d) \<and>
     (\<forall>c r. chans c = Some (Delivered r) \<longrightarrow> rs_ID r = sent c)"

abbreviation routed_calls :: "calls \<Rightarrow> bool" where
  "routed_calls w \<equiv> routed (mt_pending (sw_tool w)) (mt_reqSeq (sw_tool w)) (sw_chan w) (sw_sent w)"

lemma routedD:
  assumes "routed pend seq chans sent"
  shows "chans c = Some Waiting \<longleftrightarrow> (\<exists>k. pend k = Some c)"
    "pend k = Some c \<Longrightarrow> sent c = k"
    "chans c \<noteq> None \<Longrightarrow> \<exists>i n. sent c = pending_key i n \<and> n \<le> seq"
    "chans c \<noteq> None \<Longrightarrow> chans d \<noteq> None \<Longrightarrow> sent c = sent d \<Longrightarrow> c = d"
    "chans c = Some (Delivered r) \<Longrightarrow> rs_ID r = sent c"
  using assms unfolding routed_def by blast+

lemma routed_close:
  assumes w: "routed pend seq chans sent"
  shows "routed Map.empty seq (close_channels (ran pend) chans) sent"
proof -
  have r: "c \<in> ran pend \<longleftrightarrow> chans c = Some Waiting" for c using routedD(1) [OF w, of c] by (auto simp: ran_def)
  have n: "close_channels (ran pend) chans c \<noteq> None \<longleftrightarrow> chans c \<noteq> None" "close_channels (ran pend) chans c \<noteq> Some Waiting"
    for c by (auto simp: close_channels_def r)
  have dl: "chans c = Some (Delivered x)" if "close_channels (ran pend) chans c = Some (Delivered x)" for c x
    using that by (simp add: close_channels_def split: if_splits)
  show ?thesis unfolding routed_def
  proof (intro conjI allI impI)
    fix c
    show "close_channels (ran pend) chans c = Some Waiting \<longleftrightarrow> (\<exists>k. Map.empty k = Some c)" using n(2) by simp
  next
    fix c assume "close_channels (ran pend) chans c \<noteq> None"
    then show "\<exists>i m. sent c = pending_key i m \<and> m \<le> seq" using n(1) routedD(3) [OF w] by blast
  next
    fix c d assume "close_channels (ran pend) chans c \<noteq> None \<and> close_channels (ran pend) chans d \<noteq> None \<and> sent c = sent d"
    then show "c = d" using n(1) routedD(4) [OF w] by blast
  next
    fix c x assume "close_channels (ran pend) chans c = Some (Delivered x)"
    then show "rs_ID x = sent c" using dl routedD(5) [OF w] by blast
  qed simp
qed

text \<open>A channel that is no longer waited on: answered, or given up.\<close>

lemma routed_settle:
  assumes w: "routed pend seq chans sent" and c: "chans c \<noteq> None" "x \<noteq> Waiting" "\<And>r. x = Delivered r \<Longrightarrow> rs_ID r = sent c"
  shows "routed (pend(sent c := None)) seq (chans(c \<mapsto> x)) sent"
  unfolding routed_def
proof (intro conjI allI impI)
  fix d
  have other: "pend k = Some d \<Longrightarrow> k = sent c \<Longrightarrow> d = c" for k
    using routedD(2) [OF w, of k d] routedD(1) [OF w, of d] routedD(4) [OF w, of d c] c(1) by auto
  have own: "pend k = Some c \<Longrightarrow> k = sent c" for k using routedD(2) [OF w] by blast
  show "(chans(c \<mapsto> x)) d = Some Waiting \<longleftrightarrow> (\<exists>k. (pend(sent c := None)) k = Some d)"
  proof (cases "d = c")
    case True
    then show ?thesis using c(2) own by auto
  next
    case False
    have "(chans(c \<mapsto> x)) d = Some Waiting \<longleftrightarrow> (\<exists>k. pend k = Some d)" using routedD(1) [OF w, of d] False by simp
    also have "\<dots> \<longleftrightarrow> (\<exists>k. (pend(sent c := None)) k = Some d)" using other False by (metis fun_upd_apply option.distinct(1))
    finally show ?thesis .
  qed
next
  fix d r assume "(chans(c \<mapsto> x)) d = Some (Delivered r)"
  then show "rs_ID r = sent d" using c(3) routedD(5) [OF w, of d r] by (cases "d = c") simp_all
next
  fix d assume "(chans(c \<mapsto> x)) d \<noteq> None"
  then have "chans d \<noteq> None" using c(1) by (cases "d = c") simp_all
  then show "\<exists>i n. sent d = pending_key i n \<and> n \<le> seq" by (rule routedD(3) [OF w])
next
  fix d e assume "(chans(c \<mapsto> x)) d \<noteq> None \<and> (chans(c \<mapsto> x)) e \<noteq> None \<and> sent d = sent e"
  moreover then have "chans d \<noteq> None" "chans e \<noteq> None" using c(1) by (auto split: if_splits)
  ultimately show "d = e" using routedD(4) [OF w] by blast
next
  fix k d assume "(pend(sent c := None)) k = Some d"
  then show "sent d = k" using routedD(2) [OF w, of k d] by (auto split: if_splits)
qed

lemma routed_register:
  assumes w: "routed pend seq chans sent" and c: "chans c = None" and key_def: "key = pending_key internal (Suc seq)"
  shows "routed (pend(key \<mapsto> c)) (Suc seq) (chans(c \<mapsto> Waiting)) (sent(c := key))"
proof -
  have fresh: "sent d \<noteq> key" if "chans d \<noteq> None" for d
    using routedD(3) [OF w that] pending_key_inj unfolding key_def by fastforce
  have k: "pend key = None"
  proof (rule ccontr)
    assume "pend key \<noteq> None"
    then obtain d where "pend key = Some d" by blast
    then have "chans d = Some Waiting" "sent d = key" using routedD(1,2) [OF w] by blast+
    then show False using fresh [of d] by simp
  qed
  have nc: "pend i \<noteq> Some c" for i using routedD(1) [OF w, of c] c by auto
  show ?thesis unfolding routed_def
  proof (intro conjI allI impI)
    fix d
    have "(\<exists>i. (pend(key \<mapsto> c)) i = Some d) \<longleftrightarrow> d = c \<or> (\<exists>i. pend i = Some d)"
      using k nc by (metis fun_upd_apply option.distinct(1) option.inject)
    then show "(chans(c \<mapsto> Waiting)) d = Some Waiting \<longleftrightarrow> (\<exists>i. (pend(key \<mapsto> c)) i = Some d)"
      using routedD(1) [OF w, of d] by simp
  next
    fix i d assume "(pend(key \<mapsto> c)) i = Some d"
    then show "(sent(c := key)) d = i" using nc routedD(2) [OF w, of i d] by (auto split: if_splits)
  next
    fix d assume "(chans(c \<mapsto> Waiting)) d \<noteq> None"
    then show "\<exists>i n. (sent(c := key)) d = pending_key i n \<and> n \<le> Suc seq"
      using routedD(3) [OF w, of d] key_def by (cases "d = c") (auto intro: le_SucI)
  next
    fix d e assume a: "(chans(c \<mapsto> Waiting)) d \<noteq> None \<and> (chans(c \<mapsto> Waiting)) e \<noteq> None \<and> (sent(c := key)) d = (sent(c := key)) e"
    then show "d = e" using fresh [of d] fresh [of e] routedD(4) [OF w, of d e] by (cases "d = c"; cases "e = c") auto
  next
    fix d r assume "(chans(c \<mapsto> Waiting)) d = Some (Delivered r)"
    then show "rs_ID r = (sent(c := key)) d" using routedD(5) [OF w, of d r] by (cases "d = c") simp_all
  qed
qed

lemma routed_step:
  assumes "call_step w w'" "routed_calls w"
  shows "routed_calls w'"
  using assms(1)
proof cases
  case (register c internal req fwd t)
  then show ?thesis using routed_register [OF assms(2), of c _ internal] by (auto simp: callRaw_register_def Let_def)
next
  case (respond p resp c t)
  then have p: "mt_pending (sw_tool w) (rs_ID resp) = Some c" and t: "mt_pending t = (mt_pending (sw_tool w))(rs_ID resp := None)" "mt_reqSeq t = mt_reqSeq (sw_tool w)"
    by (auto simp: readLoop_line_def split: option.splits)
  have "sw_sent w c = rs_ID resp" "sw_chan w c \<noteq> None" using p routedD(1,2) [OF assms(2)] by fastforce+
  then show ?thesis using routed_settle [OF assms(2), of c "Delivered resp"] t respond(1) by simp
next
  case (abandon c x)
  then show ?thesis using routed_settle [OF assms(2), of c Abandoned] by (simp add: callRaw_abandon_def)
next
  case (ends p chs t)
  then have "chs = ran (mt_pending (sw_tool w))" "mt_pending t = Map.empty" "mt_reqSeq t = mt_reqSeq (sw_tool w)"
    by (auto simp: readLoop_exit_def close_pending_def split: if_splits)
  then show ?thesis using routed_close [OF assms(2)] ends(1) by simp
next
  case (stop chs t)
  show ?thesis
  proof (cases "mt_status (sw_tool w) \<noteq> Running \<and> mt_status (sw_tool w) \<noteq> Starting")
    case True
    then show ?thesis using stop assms(2) by (simp add: ManagedTool_Stop_def close_channels_def)
  next
    case False
    then have "chs = ran (mt_pending (sw_tool w))" "mt_pending t = Map.empty" "mt_reqSeq t = mt_reqSeq (sw_tool w)"
      using stop(2) by (auto simp: ManagedTool_Stop_def close_pending_def)
    then show ?thesis using routed_close [OF assms(2)] stop(1) by simp
  qed
next
  case (keep r1 r2)
  then show ?thesis using assms(2) by (simp add: startLocked_handshake_def Let_def split: sum.split)
qed (use assms(2) in \<open>auto simp: startLocked_spawn_def\<close>)

section \<open>Properties\<close>

lemma routed_reachable:
  assumes "call_step\<^sup>*\<^sup>* (idle_calls (new_tool cfg now)) w"
  shows "routed_calls w"
  using assms
proof (induction rule: rtranclp_induct)
  case base
  show ?case by (simp add: idle_calls_def new_tool_def routed_def)
next
  case (step w w')
  then show ?case using routed_step by blast
qed

text \<open>C4: clients do not get each other's responses. However calls, readers, restarts and failures interleave, and
whatever identifiers the process writes, a response that is delivered to a call carries the identifier under which
that call was forwarded, which no other call ever made was forwarded under; and a call that waits is still
registered under its own identifier, so its response would find it.\<close>

theorem responses_reach_their_call:
  assumes "call_step\<^sup>*\<^sup>* (idle_calls (new_tool cfg now)) w"
  shows "(\<forall>c r. sw_chan w c = Some (Delivered r) \<longrightarrow>
      rs_ID r = sw_sent w c \<and> (\<forall>d. d \<noteq> c \<and> sw_chan w d \<noteq> None \<longrightarrow> sw_sent w d \<noteq> rs_ID r)) \<and>
    (\<forall>c. sw_chan w c = Some Waiting \<longrightarrow> mt_pending (sw_tool w) (sw_sent w c) = Some c)"
proof -
  note w = routed_reachable [OF assms]
  have "sw_sent w d \<noteq> rs_ID r" if "sw_chan w c = Some (Delivered r)" "d \<noteq> c" "sw_chan w d \<noteq> None" for c d r
    using routedD(4) [OF w, of d c] routedD(5) [OF w that(1)] that by auto
  moreover have "mt_pending (sw_tool w) (sw_sent w c) = Some c" if "sw_chan w c = Some Waiting" for c
    using routedD(1) [OF w, of c] routedD(2) [OF w] that by blast
  ultimately show ?thesis using routedD(5) [OF w] by blast
qed

text \<open>The reader of a dead process closes the calls of its successor. A tool that was stopped and started again
shares one table of channels with the reader of the process before, and that reader, when it ends, closes all of
them: a call that waits on the new process fails although that process is running, and stays the tool's process.\<close>

theorem stale_reader_closes_new_calls:
  assumes "call_step\<^sup>*\<^sup>* (idle_calls (new_tool cfg now)) w"
    and "p \<in> sw_readers w" "mt_cmd (sw_tool w) = Some q" "q \<noteq> p" "sw_chan w c = Some Waiting"
  shows "\<exists>w'. call_step w w' \<and> sw_chan w' c = Some Closed \<and> mt_cmd (sw_tool w') = Some q \<and>
     mt_status (sw_tool w') = mt_status (sw_tool w) \<and> q \<in> sw_readers w' = (q \<in> sw_readers w)"
proof -
  obtain chs t where e: "readLoop_exit p (sw_tool w) = (chs, t)" by force
  have chs: "chs = ran (mt_pending (sw_tool w))" "mt_cmd t = Some q" "mt_status t = mt_status (sw_tool w)"
    using e assms(3,4) by (auto simp: readLoop_exit_def close_pending_def)
  have "c \<in> chs" using routedD(1) [OF routed_reachable [OF assms(1)], of c] assms(5) by (auto simp: chs(1) ran_def)
  then show ?thesis using call_step.ends [OF assms(2) e] chs assms(4) by (auto simp: close_channels_def)
qed

lemma callRaw_frame:
  assumes "callRaw internal ch answer req t = (r, t')"
  shows "mt_status t' = mt_status t" "mt_cmd t' = mt_cmd t" "mt_initResult t' = mt_initResult t" "mt_toolsResult t' = mt_toolsResult t"
    "\<forall>k. (\<forall>i n. mt_reqSeq t < n \<longrightarrow> k \<noteq> pending_key i n) \<longrightarrow> mt_pending t' k = mt_pending t k" "ch \<notin> ran (mt_pending t) \<Longrightarrow> ch \<notin> ran (mt_pending t')"
    "mt_reqSeq t' = Suc (mt_reqSeq t)"
  using assms by (auto simp: callRaw_def callRaw_register_def callRaw_abandon_def Let_def ran_def split: if_splits)

lemma startLocked_cases:
  assumes "startLocked now cmd launched ch answer t = (r, t')"
  obtains (failed) e where "launched = Inl e" "r = Some e" "t' = t\<lparr>mt_status := Failed\<rparr>"
  | (running) pid where "launched = Inr pid" "r = None" "mt_status t' = Running" "mt_cmd t' = Some cmd"
proof (cases launched)
  case (Inl e)
  then show thesis using assms failed by (simp add: startLocked_def startLocked_spawn_def)
next
  case (Inr pid)
  let ?t1 = "t\<lparr>mt_status := Running, mt_cmd := Some cmd, mt_pid := pid, mt_startTime := now, mt_lastActive := now\<rparr>"
  obtain i t2 where i: "callRaw True ch answer init_request ?t1 = (i, t2)" by force
  obtain j t3 where j: "callRaw True (Suc ch) answer tools_request t2 = (j, t3)" by force
  have "r = None \<and> mt_status t' = Running \<and> mt_cmd t' = Some cmd"
    using assms Inr i j callRaw_frame(1,2) [OF i] callRaw_frame(1,2) [OF j]
    by (auto simp: startLocked_def startLocked_spawn_def startLocked_handshake_def Let_def split: sum.splits)
  then show thesis using running Inr by blast
qed

lemma cached_response_id: "cached_response req t = Some r \<Longrightarrow> rs_ID r = rq_ID req"
  by (auto simp: cached_response_def split: if_splits)

lemma cached_Touch [simp]: "cached_response req (Touch now t) = cached_response req t"
  by (simp add: cached_response_def Touch_def)

text \<open>A request alone. An answer carries the client's own identifier; a running tool keeps its process; a request that
the caches do not answer starts a tool that is not running, reports the error of a launch that fails and marks the
tool failed, and leaves it running under the new process otherwise, whatever the process answers.\<close>

theorem handle_request_alone:
  assumes "HandleClientRequest now cmd launched ch answer req t = (r, t')"
  shows "(\<forall>resp. r = Inr resp \<longrightarrow> rs_ID resp = rq_ID req) \<and>
    (mt_status t = Running \<longrightarrow> mt_status t' = Running \<and> mt_cmd t' = mt_cmd t) \<and>
    (mt_status t \<noteq> Running \<and> cached_response req t = None \<longrightarrow>
       (case launched of Inl e \<Rightarrow> r = Inl e \<and> mt_status t' = Failed | Inr pid \<Rightarrow> mt_status t' = Running \<and> mt_cmd t' = Some cmd))"
proof (cases "cached_response req (Touch now t)")
  case (Some x)
  then have "r = Inr x" "t' = Touch now t" "cached_response req t = Some x"
    using assms by (simp_all add: HandleClientRequest_def)
  then show ?thesis using cached_response_id [OF Some] by (simp add: Touch_def)
next
  case None
  have touch: "mt_status (Touch now t) = mt_status t" "mt_cmd (Touch now t) = mt_cmd t" by (simp_all add: Touch_def)
  obtain s t1 where s: "(if mt_status (Touch now t) \<noteq> Running then startLocked now cmd launched ch answer (Touch now t) else (None, Touch now t)) = (s, t1)"
    by (metis surj_pair)
  note d = assms [unfolded HandleClientRequest_def Let_def]
  show ?thesis
  proof (cases s)
    case (Some e)
    then have st: "startLocked now cmd launched ch answer (Touch now t) = (Some e, t1)" "mt_status t \<noteq> Running"
      using s touch by (auto split: if_splits)
    have r: "r = Inl e" "t' = t1" using d None s Some by simp_all
    from st(1) show ?thesis by (cases rule: startLocked_cases) (use r st(2) in simp_all)
  next
    case sn: None
    have run: "mt_status t1 = Running" "mt_status t = Running \<Longrightarrow> mt_cmd t1 = mt_cmd t"
      "mt_status t \<noteq> Running \<Longrightarrow> \<exists>pid. launched = Inr pid \<and> mt_cmd t1 = Some cmd"
    proof -
      show "mt_status t = Running \<Longrightarrow> mt_cmd t1 = mt_cmd t" using s touch by simp
      have "mt_status t1 = Running \<and> (mt_status t \<noteq> Running \<longrightarrow> (\<exists>pid. launched = Inr pid \<and> mt_cmd t1 = Some cmd))"
      proof (cases "mt_status t = Running")
        case False
        then have "startLocked now cmd launched ch answer (Touch now t) = (None, t1)" using s touch sn by simp
        then show ?thesis by (cases rule: startLocked_cases) simp_all
      qed (use s touch in auto)
      then show "mt_status t1 = Running" "mt_status t \<noteq> Running \<Longrightarrow> \<exists>pid. launched = Inr pid \<and> mt_cmd t1 = Some cmd" by auto
    qed
    show ?thesis
    proof (cases "cached_response req t1")
      case (Some x)
      then have "r = Inr x" "t' = t1" using d None s sn by simp_all
      then show ?thesis using run cached_response_id [OF Some] by (auto split: sum.split)
    next
      case c: None
      obtain x t2 where x: "callRaw False (ch + 2) answer req t1 = (x, t2)" by force
      have r: "t' = t2" "\<forall>resp. r = Inr resp \<longrightarrow> rs_ID resp = rq_ID req" using d None s sn c x by (auto split: sum.splits)
      show ?thesis using r run callRaw_frame(1,2) [OF x] by (auto split: sum.split)
    qed
  qed
qed

text \<open>The reaper stops exactly the tools that run and have been idle for the timeout, counts them, and leaves every
other tool as it is, in its place.\<close>

theorem reaper_stops_exactly_idle:
  "ReapOnce timeout now s =
     (length (filter (\<lambda>(k, t). mt_status t = Running \<and> now - mt_lastActive t \<ge> timeout) s),
      map (\<lambda>(k, t). if mt_status t = Running \<and> now - mt_lastActive t \<ge> timeout
           then (k, t\<lparr>mt_cmd := None, mt_pid := 0, mt_status := Registered, mt_pending := Map.empty\<rparr>) else (k, t)) s)"
  by (induction timeout now s rule: ReapOnce.induct) (auto simp: ManagedTool_Stop_def close_pending_def Let_def)

section \<open>Samples\<close>

definition sample_managed :: ManagedTool where
  "sample_managed = new_tool (sample_tool ''search'') 5"

definition sample_call :: JSONRPCRequest where
  "sample_call = \<lparr>rq_ID = ''1'', rq_Method = ''tools/call'', rq_Params = ''''\<rparr>"

text \<open>A process was started, and a first call made.\<close>

definition sample_running :: "nat \<Rightarrow> ManagedTool \<Rightarrow> ManagedTool" where
  "sample_running p t = t\<lparr>mt_status := Running, mt_cmd := Some p, mt_pid := 7, mt_startTime := 9, mt_lastActive := 9\<rparr>"

definition sample_calls :: calls where
  "sample_calls = (let t = snd (callRaw_register False 0 sample_call (sample_running 0 sample_managed))
     in \<lparr>sw_tool = t, sw_chan = [0 \<mapsto> Waiting], sw_sent = (\<lambda>_. '''')(0 := pending_key False 1), sw_readers = {0}, sw_started = 1\<rparr>)"

lemma sample_start:
  assumes "mt_status (sw_tool w) \<noteq> Running"
  shows "call_step w (w\<lparr>sw_tool := sample_running (sw_started w) (sw_tool w), sw_readers := insert (sw_started w) (sw_readers w), sw_started := Suc (sw_started w)\<rparr>)"
  by (rule call_step.start [OF assms, of 9 7]) (simp add: startLocked_spawn_def sample_running_def)

lemma sample_reach: "call_step\<^sup>*\<^sup>* (idle_calls sample_managed) sample_calls"
proof -
  let ?w0 = "idle_calls sample_managed"
  let ?w1 = "?w0\<lparr>sw_tool := sample_running 0 sample_managed, sw_readers := {0}, sw_started := 1\<rparr>"
  have "call_step ?w0 ?w1" using sample_start [of ?w0] by (simp add: idle_calls_def sample_managed_def new_tool_def)
  moreover have "call_step ?w1 sample_calls"
    using call_step.register [of ?w1 0 False sample_call]
    by (simp add: sample_calls_def idle_calls_def callRaw_register_def sample_running_def sample_managed_def new_tool_def Let_def)
  ultimately show ?thesis by (meson rtranclp.rtrancl_into_rtrancl rtranclp.rtrancl_refl)
qed

theorem responses_reach_their_call_witness:
  "sw_chan sample_calls 0 = Some Waiting \<and> mt_pending (sw_tool sample_calls) (sw_sent sample_calls 0) = Some 0"
proof -
  have "sw_chan sample_calls 0 = Some Waiting" by (simp add: sample_calls_def Let_def)
  then show ?thesis using responses_reach_their_call [OF sample_reach [unfolded sample_managed_def]] by blast
qed

text \<open>The tool is stopped and started again, and a call is made on its second process.\<close>

definition sample_restarted :: calls where
  "sample_restarted = (let t = snd (callRaw_register False 0 sample_call (sample_running 1 (snd (ManagedTool_Stop (sample_running 0 sample_managed)))))
     in \<lparr>sw_tool = t, sw_chan = [0 \<mapsto> Waiting], sw_sent = (\<lambda>_. '''')(0 := pending_key False 1), sw_readers = {0, 1}, sw_started = 2\<rparr>)"

lemma sample_reach_restarted: "call_step\<^sup>*\<^sup>* (idle_calls sample_managed) sample_restarted"
proof -
  let ?w0 = "idle_calls sample_managed"
  let ?w1 = "?w0\<lparr>sw_tool := sample_running 0 sample_managed, sw_readers := {0}, sw_started := 1\<rparr>"
  let ?t = "snd (ManagedTool_Stop (sample_running 0 sample_managed))"
  let ?w2 = "?w1\<lparr>sw_tool := ?t\<rparr>"
  let ?w3 = "?w2\<lparr>sw_tool := sample_running 1 ?t, sw_readers := {0, 1}, sw_started := 2\<rparr>"
  have "call_step ?w0 ?w1" using sample_start [of ?w0] by (simp add: idle_calls_def sample_managed_def new_tool_def)
  moreover have "ManagedTool_Stop (sample_running 0 sample_managed) = ({}, ?t)"
    by (simp add: ManagedTool_Stop_def close_pending_def sample_running_def sample_managed_def new_tool_def)
  then have "call_step ?w1 ?w2" using call_step.stop [of ?w1 "{}" ?t] by (simp add: close_channels_def idle_calls_def)
  moreover have "mt_status ?t = Registered" by (simp add: ManagedTool_Stop_def close_pending_def sample_running_def)
  then have "call_step ?w2 ?w3" using sample_start [of ?w2] by (simp add: idle_calls_def insert_commute numeral_2_eq_2)
  moreover have "call_step ?w3 sample_restarted"
    using call_step.register [of ?w3 0 False sample_call]
    by (simp add: sample_restarted_def idle_calls_def callRaw_register_def sample_running_def sample_managed_def new_tool_def
        ManagedTool_Stop_def close_pending_def Let_def)
  ultimately show ?thesis by (meson rtranclp.rtrancl_into_rtrancl rtranclp.rtrancl_refl)
qed

theorem stale_reader_closes_new_calls_witness:
  "\<exists>w'. call_step sample_restarted w' \<and> sw_chan w' 0 = Some Closed \<and> mt_cmd (sw_tool w') = Some 1 \<and> mt_status (sw_tool w') = Running"
proof -
  have "0 \<in> sw_readers sample_restarted" "mt_cmd (sw_tool sample_restarted) = Some 1" "sw_chan sample_restarted 0 = Some Waiting"
    "mt_status (sw_tool sample_restarted) = Running"
    by (simp_all add: sample_restarted_def callRaw_register_def sample_running_def Let_def)
  then show ?thesis
    using stale_reader_closes_new_calls [OF sample_reach_restarted [unfolded sample_managed_def], of 0 1 0] by force
qed

theorem handle_request_alone_witness:
  "\<exists>r t'. HandleClientRequest 9 3 (Inr 7) 0 (\<lambda>q. Inr \<lparr>rs_ID = rq_ID q, rs_Result = ''ok'', rs_Error = None\<rparr>) sample_call sample_managed = (r, t') \<and>
     mt_status t' = Running \<and> mt_cmd t' = Some 3"
proof -
  obtain r t' where h: "HandleClientRequest 9 3 (Inr 7) 0 (\<lambda>q. Inr \<lparr>rs_ID = rq_ID q, rs_Result = ''ok'', rs_Error = None\<rparr>) sample_call sample_managed = (r, t')"
    by force
  show ?thesis using handle_request_alone [OF h] h by (auto simp: sample_managed_def new_tool_def cached_response_def sample_call_def)
qed

end
