(* ===== verification/Hub_Pool.thy ===== *)
theory Hub_Pool
  imports Prelude Complex_Main
begin

text \<open>
  The worker pool of the hub (\<^verbatim>\<open>internal/hub/pool.go\<close>): slots for concurrent calls, a token bucket that spreads their
  starts, and the registry of running workers. Times are nanoseconds; the bucket's \<^verbatim>\<open>float64\<close> values are exact rational
  numbers, and a duration is truncated to nanoseconds as the conversion does.
\<close>

section \<open>The registry of workers\<close>

record ActiveWorker =
  aw_ID :: string
  aw_Type :: string
  aw_ToolName :: string
  aw_HostName :: string
  aw_Model :: string
  aw_PromptPreview :: string
  aw_StartTime :: gotime
  aw_LastHeartbeat :: gotime
  aw_Phase :: string
  aw_DeclaredLease :: int
  aw_cancel :: "nat option"

type_synonym workers = "ActiveWorker gomap"

definition RegisterWorker :: "gotime \<Rightarrow> ActiveWorker option \<Rightarrow> nat option \<Rightarrow> workers \<Rightarrow> workers" where
  "RegisterWorker now wo cancel ws =
     (case wo of
        None \<Rightarrow> ws
      | Some w \<Rightarrow>
          if aw_ID w = '''' then ws
          else map_put (aw_ID w)
            (w\<lparr>aw_cancel := cancel,
               aw_StartTime := (if aw_StartTime w = 0 then now else aw_StartTime w),
               aw_LastHeartbeat := (if aw_LastHeartbeat w = 0 then now else aw_LastHeartbeat w),
               aw_Phase := (if aw_Phase w = '''' then ''running'' else aw_Phase w)\<rparr>) ws)"

definition TouchWorker :: "gotime \<Rightarrow> string \<Rightarrow> string \<Rightarrow> int \<Rightarrow> workers \<Rightarrow> workers" where
  "TouchWorker now wid phase lease ws =
     (case map_of ws wid of
        None \<Rightarrow> ws
      | Some w \<Rightarrow> map_put wid
          (w\<lparr>aw_LastHeartbeat := now, aw_Phase := (if phase \<noteq> '''' then phase else aw_Phase w),
             aw_DeclaredLease := (if lease > 0 then lease else aw_DeclaredLease w)\<rparr>) ws)"

definition UnregisterWorker :: "string \<Rightarrow> workers \<Rightarrow> workers" where
  "UnregisterWorker wid ws = filter (\<lambda>kw. fst kw \<noteq> wid) ws"

text \<open>The error, the context that is cancelled, and the registry.\<close>

definition KillWorker :: "string \<Rightarrow> workers \<Rightarrow> err option \<times> nat option \<times> workers" where
  "KillWorker wid ws =
     (case map_of ws wid of
        None \<Rightarrow> (Some (Errorf ''worker %q not found or already finished'' [AStr wid]), None, ws)
      | Some w \<Rightarrow> (None, aw_cancel w, UnregisterWorker wid ws))"

definition ListActiveWorkers :: "workers \<Rightarrow> ActiveWorker list" where
  "ListActiveWorkers ws = map snd ws"

definition GetWorker :: "string \<Rightarrow> workers \<Rightarrow> ActiveWorker option" where
  "GetWorker wid ws = map_of ws wid"

section \<open>The token bucket\<close>

record bucket =
  tb_Tokens :: rat
  tb_Capacity :: rat
  tb_RefillRate :: rat
  tb_LastRefill :: gotime
  tb_rateLimited :: nat

definition new_bucket :: "gotime \<Rightarrow> bucket" where
  "new_bucket now = \<lparr>tb_Tokens = 50, tb_Capacity = 50, tb_RefillRate = 50, tb_LastRefill = now, tb_rateLimited = 0\<rparr>"

text \<open>How long the call sleeps, and the bucket it leaves.\<close>

definition throttleRateLimit :: "gotime \<Rightarrow> bucket \<Rightarrow> int \<times> bucket" where
  "throttleRateLimit now b =
     (let elapsed = rat_of_int (now - tb_LastRefill b) / 10 ^ 9;
          t0 = tb_Tokens b + elapsed * tb_RefillRate b;
          t1 = (if t0 > tb_Capacity b then tb_Capacity b else t0);
          b1 = b\<lparr>tb_LastRefill := now, tb_Tokens := t1\<rparr>
      in if t1 < 1 then
           (let b2 = b1\<lparr>tb_rateLimited := Suc (tb_rateLimited b)\<rparr>;
                waitTime = \<lfloor>(1 - t1) / tb_RefillRate b * 10 ^ 9\<rfloor>
            in if waitTime > 0 \<and> waitTime < 2 * 10 ^ 9 then (waitTime, b2\<lparr>tb_Tokens := 0\<rparr>)
               else (0, b2\<lparr>tb_Tokens := t1 - 1\<rparr>))
         else (0, b1\<lparr>tb_Tokens := t1 - 1\<rparr>))"

text \<open>A client that calls again as soon as its call returns: when it has made the given number of calls.\<close>

fun busy_client :: "nat \<Rightarrow> gotime \<Rightarrow> bucket \<Rightarrow> gotime \<times> bucket" where
  "busy_client 0 now b = (now, b)"
| "busy_client (Suc n) now b = (case throttleRateLimit now b of (sleep, b') \<Rightarrow> busy_client n (now + sleep) b')"

section \<open>Slots\<close>

text \<open>
  One class of slots, tasks or batches, and the goroutines that want them. A goroutine waits in the queue until it
  gets a slot or its context is done; the counters are separate atomic variables, so a slot is taken before it is
  counted, and given back before it is no longer counted.
\<close>

datatype slot_phase = Outside | Queued | Taken | Holding | Leaving

record slots =
  sl_sem :: nat
  sl_active :: int
  sl_queued :: int
  sl_total :: int
  sl_phase :: "nat \<Rightarrow> slot_phase"









definition MaxTasks :: nat where
  "MaxTasks = 5"

definition MaxBatch :: nat where
  "MaxBatch = 50"

record PoolStats =
  ps_ActiveTasks :: int
  ps_QueuedTasks :: int
  ps_MaxTasks :: int
  ps_ActiveBatch :: int
  ps_QueuedBatch :: int
  ps_MaxBatch :: int
  ps_TotalExecuted :: int
  ps_Prevented429 :: int
  ps_Workers :: "ActiveWorker list"

definition Stats :: "slots \<Rightarrow> slots \<Rightarrow> bucket \<Rightarrow> workers \<Rightarrow> PoolStats" where
  "Stats tasks batch b ws =
     \<lparr>ps_ActiveTasks = sl_active tasks, ps_QueuedTasks = sl_queued tasks, ps_MaxTasks = int MaxTasks,
      ps_ActiveBatch = sl_active batch, ps_QueuedBatch = sl_queued batch, ps_MaxBatch = int MaxBatch,
      ps_TotalExecuted = sl_total tasks + sl_total batch, ps_Prevented429 = int (tb_rateLimited b), ps_Workers = ListActiveWorkers ws\<rparr>"

section \<open>Lemmas\<close>






section \<open>Properties\<close>



definition bucket_ok :: "bucket \<Rightarrow> bool" where
  "bucket_ok b \<longleftrightarrow> tb_Capacity b = 50 \<and> tb_RefillRate b = 50 \<and> - 1 / 10 ^ 7 \<le> tb_Tokens b \<and> tb_Tokens b \<le> 50"

text \<open>The bucket stays within its bounds and a call never sleeps for long: with the code's rate and capacity, a call at or
after the last refill leaves at most fifty tokens and never fewer than minus a ten-millionth, and sleeps for
at most a fiftieth of a second and two nanoseconds.\<close>

theorem throttle_bounds:
  assumes "bucket_ok b" "tb_LastRefill b \<le> now" "throttleRateLimit now b = (sleep, b')"
  shows "bucket_ok b' \<and> tb_LastRefill b' = now \<and> 0 \<le> sleep \<and> sleep \<le> 20000002"
proof -
  let ?t0 = "tb_Tokens b + rat_of_int (now - tb_LastRefill b) / 10 ^ 9 * 50"
  define t1 where "t1 = (if ?t0 > 50 then 50 else ?t0)"
  have b: "tb_Capacity b = 50" "tb_RefillRate b = 50" "- 1 / 10 ^ 7 \<le> tb_Tokens b" "tb_Tokens b \<le> 50" using assms(1) by (auto simp: bucket_ok_def)
  have "rat_of_int (now - tb_LastRefill b) / 10 ^ 9 * 50 \<ge> 0" using assms(2) by simp
  then have "- 1 / 10 ^ 7 \<le> ?t0" using b(3) by linarith
  then have t1: "- 1 / 10 ^ 7 \<le> t1" "t1 \<le> 50" unfolding t1_def by simp_all
  define w where "w = \<lfloor>(1 - t1) / 50 * 10 ^ 9\<rfloor>"
  have w: "rat_of_int w \<le> (1 - t1) / 50 * 10 ^ 9" "(1 - t1) / 50 * 10 ^ 9 < rat_of_int w + 1" unfolding w_def by linarith+
  have "rat_of_int w \<le> rat_of_int 20000002" using w(1) t1(1) by simp
  then have w_le: "w \<le> 20000002" by (simp only: of_int_le_iff)
  have tok: "- 1 / 10 ^ 7 \<le> t1 - 1" if "w \<le> 0"
  proof -
    have "rat_of_int w \<le> 0" using that by simp
    then show ?thesis using w(2) by simp
  qed
  have r: "throttleRateLimit now b =
      (if t1 < 1 then
         (if w > 0 \<and> w < 2 * 10 ^ 9 then (w, b\<lparr>tb_LastRefill := now, tb_Tokens := 0, tb_rateLimited := Suc (tb_rateLimited b)\<rparr>)
          else (0, b\<lparr>tb_LastRefill := now, tb_Tokens := t1 - 1, tb_rateLimited := Suc (tb_rateLimited b)\<rparr>))
       else (0, b\<lparr>tb_LastRefill := now, tb_Tokens := t1 - 1\<rparr>))"
    by (simp add: throttleRateLimit_def Let_def b(1,2) t1_def w_def)
  consider (sleeps) "t1 < 1" "w > 0" | (close) "t1 < 1" "w \<le> 0" | (full) "t1 \<ge> 1" by linarith
  then show ?thesis
  proof cases
    case sleeps
    then have "sleep = w" "b' = b\<lparr>tb_LastRefill := now, tb_Tokens := 0, tb_rateLimited := Suc (tb_rateLimited b)\<rparr>"
      using r assms(3) w_le by simp_all
    then show ?thesis using sleeps w_le b by (simp add: bucket_ok_def)
  next
    case close
    then have "sleep = 0" "b' = b\<lparr>tb_LastRefill := now, tb_Tokens := t1 - 1, tb_rateLimited := Suc (tb_rateLimited b)\<rparr>"
      using r assms(3) by simp_all
    then show ?thesis using close tok b t1 by (simp add: bucket_ok_def)
  next
    case full
    then have "sleep = 0" "b' = b\<lparr>tb_LastRefill := now, tb_Tokens := t1 - 1\<rparr>" using r assms(3) by simp_all
    then show ?thesis using full b t1(2) by (simp add: bucket_ok_def)
  qed
qed

text \<open>The throttle admits twice its rate. The refill of a call that slept counts from before the sleep, so the time slept is
credited again to the next call: a client that keeps calling on an empty bucket, which is meant to admit fifty calls
in a second, makes two calls in every fiftieth of a second.\<close>

theorem throttle_admits_double_rate:
  assumes "bucket_ok b" "tb_Tokens b = 0" "tb_LastRefill b = now"
  shows "fst (busy_client (2 * n) now b) = now + int n * 20000000"
  using assms
proof (induction n arbitrary: now b)
  case (Suc n)
  have b: "tb_Capacity b = 50" "tb_RefillRate b = 50" using Suc.prems(1) by (auto simp: bucket_ok_def)
  let ?b1 = "b\<lparr>tb_rateLimited := Suc (tb_rateLimited b)\<rparr>"
  let ?b2 = "?b1\<lparr>tb_LastRefill := now + 20000000\<rparr>"
  have one: "throttleRateLimit now b = (20000000, ?b1)"
    using Suc.prems(2,3) b by (simp add: throttleRateLimit_def Let_def)
  have two: "throttleRateLimit (now + 20000000) ?b1 = (0, ?b2)"
    using Suc.prems(2,3) b by (simp add: throttleRateLimit_def Let_def)
  have "fst (busy_client (2 * n) (now + 20000000) ?b2) = now + 20000000 + int n * 20000000"
    by (rule Suc.IH) (use Suc.prems in \<open>simp_all add: bucket_ok_def\<close>)
  then show ?case using one two by (simp add: algebra_simps)
qed simp

theorem throttle_bounds_witness:
  "\<exists>sleep b'. throttleRateLimit 7 (new_bucket 5) = (sleep, b') \<and> sleep \<le> 20000002 \<and> bucket_ok b'"
proof -
  obtain sleep b' where t: "throttleRateLimit 7 (new_bucket 5) = (sleep, b')" by force
  have "bucket_ok (new_bucket 5)" "tb_LastRefill (new_bucket 5) \<le> 7" by (simp_all add: bucket_ok_def new_bucket_def)
  from throttle_bounds [OF this t] t show ?thesis by blast
qed

theorem throttle_admits_double_rate_witness:
  "fst (busy_client 100 0 (new_bucket 0\<lparr>tb_Tokens := 0\<rparr>)) = 1000000000"
  using throttle_admits_double_rate [of "new_bucket 0\<lparr>tb_Tokens := 0\<rparr>" 0 50] by (simp add: bucket_ok_def new_bucket_def)

text \<open>A worker is killed exactly when it is registered: then its own context is the one cancelled and it, and no other
worker, is gone from the registry; otherwise the error names it and nothing changes.\<close>

theorem kill_worker_exact:
  "(case KillWorker wid ws of (e, cancelled, ws') \<Rightarrow>
      (e = None \<longleftrightarrow> wid \<in> dom (map_of ws)) \<and> map_of ws' = (map_of ws)(wid := None) \<and>
      cancelled = Option.bind (map_of ws wid) aw_cancel)"
proof -
  have f: "map_of (filter (\<lambda>kw. fst kw \<noteq> wid) xs) = (map_of xs)(wid := None)" for xs :: workers
    by (induction xs) (auto simp: fun_eq_iff)
  show ?thesis by (cases "map_of ws wid") (auto simp: KillWorker_def UnregisterWorker_def f fun_eq_iff)
qed

end
