(* ===== verification/Hub_Watchdog.thy ===== *)
theory Hub_Watchdog
  imports Go_Text Go_Fmt
begin

text \<open>
  The watchdog of subagent calls (\<^verbatim>\<open>internal/hub/watchdog.go\<close>): the repair of truncated JSON, the detection of repeated
  blocks of words, and the circuit breaker on identical calls. The repair works on bytes: every rune it looks for
  is ASCII, and no byte of a longer UTF-8 sequence is. The quorum decision, which compares floating point ratios,
  is not modelled.
\<close>

section \<open>Repair of truncated JSON\<close>

text \<open>The state of the scan: the closers still due, innermost first, whether it is in a string, and after a backslash.\<close>

type_synonym scan = "string \<times> bool \<times> bool"

definition maxStackDepth :: nat where
  "maxStackDepth = 512"

definition push_closer :: "char \<Rightarrow> scan \<Rightarrow> scan option" where
  "push_closer c s = (case s of (st, i, e) \<Rightarrow> if length st \<ge> maxStackDepth then None else Some (c # st, i, e))"

definition scan_rune :: "char \<Rightarrow> scan \<Rightarrow> scan option" where
  "scan_rune r s =
     (case s of (st, inString, escaped) \<Rightarrow>
        if inString then
          (if escaped then Some (st, True, False)
           else if r = CHR 0x5C then Some (st, True, True)
           else if r = CHR 0x22 then Some (st, False, False)
           else Some (st, True, False))
        else if r = CHR 0x22 then Some (st, True, escaped)
        else if r = CHR 0x7B then push_closer CHR 0x7D s
        else if r = CHR 0x5B then push_closer CHR 0x5D s
        else if r = CHR 0x7D \<or> r = CHR 0x5D then (if st \<noteq> [] \<and> hd st = r then Some (tl st, inString, escaped) else Some s)
        else Some s)"

text \<open>\<open>None\<close> when the depth was exceeded.\<close>

fun scan_text :: "string \<Rightarrow> scan \<Rightarrow> scan option" where
  "scan_text [] s = Some s"
| "scan_text (r # rs) s = (case scan_rune r s of None \<Rightarrow> None | Some s' \<Rightarrow> scan_text rs s')"

definition scan_start :: scan where
  "scan_start = ([], False, False)"

definition meta_note :: string where
  "meta_note = '',\"_meta\":{\"truncated\":true,\"reason\":\"SLA_150S_EXCEEDED\"}''"

definition close_text :: "string \<Rightarrow> scan \<Rightarrow> string" where
  "close_text trimmed s =
     (case s of (st, inString, escaped) \<Rightarrow>
        (let b1 = (if escaped \<and> trimmed \<noteq> [] \<and> last trimmed = CHR 0x5C then butlast trimmed else trimmed);
             b2 = (if inString then b1 @ [CHR 0x22] else b1)
         in if st \<noteq> [] \<and> last st = CHR 0x7D then b2 @ butlast st @ meta_note @ [CHR 0x7D]
            else b2 @ st))"

definition JSONAutoRepair :: "string \<Rightarrow> string" where
  "JSONAutoRepair s =
     (let trimmed = TrimSpace s
      in if trimmed = '''' then [CHR 0x7B, CHR 0x7D]
         else if length s > 10 * 1024 * 1024 then s @ [CHR 0x0A] @ ''... [Truncated: exceeded 10MB safety limit]''
         else if \<not> has_prefix [CHR 0x7B] trimmed \<and> \<not> has_prefix [CHR 0x5B] trimmed then s @ [CHR 0x0A] @ ''... [Truncated at 150s SLA]''
         else (case scan_text trimmed scan_start of
            None \<Rightarrow> ''{\"_meta\":{\"truncated\":true,\"error\":\"MAX_NESTING_DEPTH_EXCEEDED\"}}''
          | Some st \<Rightarrow> close_text trimmed st))"

section \<open>Repeated words and calls\<close>

text \<open>The inner loop: how many consecutive blocks of \<open>n\<close> words from index \<open>i\<close> on equal the first, up to the threshold.\<close>

fun count_blocks :: "string list \<Rightarrow> nat \<Rightarrow> string \<Rightarrow> nat \<Rightarrow> nat \<Rightarrow> nat" where
  "count_blocks ws n target start 0 = 0"
| "count_blocks ws n target start (Suc m) =
     (if start + n > length ws then 0
      else if join_with '' '' (take n (drop start ws)) = target then Suc (count_blocks ws n target (start + n) m)
      else 0)"

definition block_repeats :: "string list \<Rightarrow> nat \<Rightarrow> nat \<Rightarrow> nat \<Rightarrow> bool" where
  "block_repeats ws n threshold i =
     (1 + count_blocks ws n (join_with '' '' (take n (drop i ws))) (i + n) (threshold - 1) \<ge> threshold)"

definition DetectNgramLoop :: "string \<Rightarrow> int \<Rightarrow> int \<Rightarrow> bool" where
  "DetectNgramLoop text n0 threshold0 =
     (let n = (if n0 \<le> 0 then 8 else nat n0); threshold = (if threshold0 \<le> 1 then 4 else nat threshold0);
          ws0 = Fields text;
          ws = (if length ws0 > 2000 then drop (length ws0 - 2000) ws0 else ws0)
      in if length ws < n * threshold then False
         else list_ex (block_repeats ws n threshold) [0..<Suc (length ws - n * threshold)])"

definition FingerprintCall :: "(string \<Rightarrow> string) \<Rightarrow> string \<Rightarrow> string \<Rightarrow> string" where
  "FingerprintCall sha toolName canonicalArgs = take 32 (sha (Sprintf ''%s:%s'' [AStr toolName, AStr (TrimSpace canonicalArgs)]))"

definition CheckCallLoop :: "string list \<Rightarrow> int \<Rightarrow> err option" where
  "CheckCallLoop history threshold0 =
     (let threshold = (if threshold0 \<le> 1 then 3 else nat threshold0)
      in if length history < threshold then None
         else if length (takeWhile (\<lambda>h. h = last history) (rev history)) \<ge> threshold then
           Some (Errorf ''circuit breaker: detected 3 consecutive identical tool calls with same arguments'' [])
         else None)"

section \<open>Lemmas\<close>

lemma scan_text_append: "scan_text (xs @ ys) s = (case scan_text xs s of None \<Rightarrow> None | Some t \<Rightarrow> scan_text ys t)"
  by (induction xs arbitrary: s) (simp_all split: option.split)

definition scan_ok :: "scan \<Rightarrow> bool" where
  "scan_ok s \<longleftrightarrow> (case s of (st, i, e) \<Rightarrow> (e \<longrightarrow> i) \<and> set st \<subseteq> {CHR 0x7D, CHR 0x5D} \<and> length st \<le> maxStackDepth)"

lemma scan_rune_ok: "scan_ok s \<Longrightarrow> scan_rune r s = Some s' \<Longrightarrow> scan_ok s'"
  by (cases s) (auto simp: scan_rune_def scan_ok_def push_closer_def split: if_splits dest: list.set_sel(2))

lemma scan_text_ok: "scan_ok s \<Longrightarrow> scan_text t s = Some s' \<Longrightarrow> scan_ok s'"
  by (induction t arbitrary: s) (auto split: option.splits dest: scan_rune_ok)

lemma scan_escaped:
  assumes "scan_ok s" "scan_rune r s = Some (st, i, True)"
  shows "r = CHR 0x5C \<and> s = (st, True, False)"
  using assms by (cases s) (auto simp: scan_rune_def scan_ok_def push_closer_def split: if_splits)

lemma scan_text_escaped:
  assumes "scan_ok s" "snd (snd s) = False" "scan_text t s = Some (st, i, True)"
  shows "\<exists>u. t = u @ [CHR 0x5C] \<and> scan_text u s = Some (st, True, False)"
proof (cases t rule: rev_cases)
  case Nil
  then show ?thesis using assms by simp
next
  case (snoc u r)
  then obtain s' where u: "scan_text u s = Some s'" "scan_rune r s' = Some (st, i, True)"
    using assms(3) by (auto simp: scan_text_append split: option.splits)
  then show ?thesis using scan_escaped [OF scan_text_ok [OF assms(1) u(1)] u(2)] snoc by auto
qed

lemma scan_closers: "set st \<subseteq> {CHR 0x7D, CHR 0x5D} \<Longrightarrow> scan_text st (st @ us, False, False) = Some (us, False, False)"
  by (induction st) (auto simp: scan_rune_def)

lemma scan_meta: "scan_text meta_note ([CHR 0x7D], False, False) = Some ([CHR 0x7D], False, False)"
  by code_simp

text \<open>C23: a repaired text is closed. Whenever a text is repaired as JSON, within the depth and size limits, scanning the result
finds every string ended and every bracket closed, in the right order.\<close>

theorem repair_closes_everything:
  assumes "length s \<le> 10 * 1024 * 1024" "has_prefix [CHR 0x7B] (TrimSpace s) \<or> has_prefix [CHR 0x5B] (TrimSpace s)"
    and "scan_text (TrimSpace s) scan_start \<noteq> None"
  shows "scan_text (JSONAutoRepair s) scan_start = Some scan_start"
proof -
  let ?t = "TrimSpace s"
  obtain st i e where scan: "scan_text ?t scan_start = Some (st, i, e)" using assms(3) by (cases "scan_text ?t scan_start") auto
  have ok0: "scan_ok scan_start" by (simp add: scan_ok_def scan_start_def)
  have ok: "e \<longrightarrow> i" "set st \<subseteq> {CHR 0x7D, CHR 0x5D}" using scan_text_ok [OF ok0 scan] by (auto simp: scan_ok_def)
  define b1 where "b1 = (if e \<and> ?t \<noteq> [] \<and> last ?t = CHR 0x5C then butlast ?t else ?t)"
  have b1: "scan_text b1 scan_start = Some (st, i, False)"
  proof (cases e)
    case True
    then have "scan_text ?t scan_start = Some (st, i, True)" using scan by simp
    then obtain u where "?t = u @ [CHR 0x5C]" "scan_text u scan_start = Some (st, True, False)"
      using scan_text_escaped [OF ok0 _ \<open>scan_text ?t scan_start = Some (st, i, True)\<close>] by (auto simp: scan_start_def)
    then show ?thesis using True ok(1) by (simp add: b1_def)
  next
    case False
    then show ?thesis using scan by (simp add: b1_def)
  qed
  define b2 where "b2 = (if i then b1 @ [CHR 0x22] else b1)"
  have b2: "scan_text b2 scan_start = Some (st, False, False)"
    using b1 by (cases i) (simp_all add: b2_def scan_text_append scan_rune_def)
  have "scan_text (close_text ?t (st, i, e)) scan_start = Some scan_start"
  proof (cases "st \<noteq> [] \<and> last st = CHR 0x7D")
    case True
    then obtain us where us: "st = us @ [CHR 0x7D]" by (metis append_butlast_last_id)
    have "scan_text us (us @ [CHR 0x7D], False, False) = Some ([CHR 0x7D], False, False)" by (rule scan_closers) (use us ok(2) in auto)
    moreover have "close_text ?t (st, i, e) = b2 @ us @ meta_note @ [CHR 0x7D]" using us by (simp add: close_text_def b1_def b2_def Let_def)
    ultimately show ?thesis using b2 us scan_meta by (simp add: scan_text_append scan_rune_def scan_start_def)
  next
    case False
    then have "close_text ?t (st, i, e) = b2 @ st" unfolding close_text_def b1_def b2_def Let_def prod.case by (rule if_not_P)
    then show ?thesis using b2 scan_closers [OF ok(2), of "[]"] by (simp add: scan_text_append scan_start_def)
  qed
  moreover have "?t \<noteq> []" using assms(2) by (auto simp: has_prefix_def)
  ultimately show ?thesis using assms(1,2) scan by (auto simp: JSONAutoRepair_def Let_def)
qed

theorem repair_closes_everything_witness:
  "scan_text (JSONAutoRepair ''{\"a\": [1, \"x'') scan_start = Some scan_start"
proof (rule repair_closes_everything)
  show "length ''{\"a\": [1, \"x'' \<le> 10 * 1024 * 1024" by simp
  have "has_prefix [CHR 0x7B] (TrimSpace ''{\"a\": [1, \"x'')" by code_simp
  then show "has_prefix [CHR 0x7B] (TrimSpace ''{\"a\": [1, \"x'') \<or> has_prefix [CHR 0x5B] (TrimSpace ''{\"a\": [1, \"x'')" ..
  show "scan_text (TrimSpace ''{\"a\": [1, \"x'') scan_start \<noteq> None" by code_simp
qed

section \<open>Exactness of the detectors\<close>

lemma join_inj:
  assumes "\<forall>w \<in> set xs. CHR '' '' \<notin> set w" "\<forall>w \<in> set ys. CHR '' '' \<notin> set w" "length xs = length ys" "join_with '' '' xs = join_with '' '' ys"
  shows "xs = ys"
proof (cases "xs = []")
  case False
  then have "ys \<noteq> []" using assms(3) by auto
  then show ?thesis using split_on_join [of xs "CHR '' ''"] split_on_join [of ys "CHR '' ''"] False assms by metis
qed (use assms(3) in simp)

lemma count_blocks_max: "count_blocks ws n t i m \<le> m"
  by (induction ws n t i m rule: count_blocks.induct) auto

text \<open>All \<open>m\<close> blocks of \<open>n\<close> words from index \<open>i\<close> on are the given one.\<close>

lemma count_blocks_all:
  assumes "\<forall>w \<in> set ws. CHR '' '' \<notin> set w" "length b = n" "\<forall>w \<in> set b. CHR '' '' \<notin> set w" "n > 0"
  shows "count_blocks ws n (join_with '' '' b) i m \<ge> m \<longleftrightarrow> (\<forall>k < m. take n (drop (i + k * n) ws) = b)"
proof (induction m arbitrary: i)
  case (Suc m)
  have eq: "join_with '' '' (take n (drop i ws)) = join_with '' '' b \<longleftrightarrow> take n (drop i ws) = b" if "i + n \<le> length ws"
    using join_inj [of "take n (drop i ws)" b] assms that by (auto dest: in_set_takeD in_set_dropD)
  have len: "take n (drop i ws) = b \<Longrightarrow> i + n \<le> length ws" using assms(2,4) by auto
  have all: "(\<forall>k < Suc m. take n (drop (i + k * n) ws) = b) \<longleftrightarrow> take n (drop i ws) = b \<and> (\<forall>k < m. take n (drop (i + n + k * n) ws) = b)"
    by (auto simp: less_Suc_eq_0_disj add.assoc)
  show ?case
  proof (cases "i + n \<le> length ws")
    case True
    then show ?thesis using Suc.IH [of "i + n"] eq all by simp
  next
    case False
    then have "count_blocks ws n (join_with '' '' b) i (Suc m) = 0" "take n (drop i ws) \<noteq> b" using len by auto
    then show ?thesis unfolding all by simp
  qed
qed simp

lemma blocks_concat:
  "i + m * n \<le> length ws \<Longrightarrow> length b = n \<Longrightarrow>
   (\<forall>k < m. take n (drop (i + k * n) ws) = b) \<longleftrightarrow> take (m * n) (drop i ws) = concat (replicate m b)"
proof (induction m arbitrary: i)
  case (Suc m)
  have all: "(\<forall>k < Suc m. take n (drop (i + k * n) ws) = b) \<longleftrightarrow> take n (drop i ws) = b \<and> (\<forall>k < m. take n (drop (i + n + k * n) ws) = b)"
    by (auto simp: less_Suc_eq_0_disj add.assoc)
  have "take (Suc m * n) (drop i ws) = take n (drop i ws) @ take (m * n) (drop (i + n) ws)"
    by (simp add: take_add add.commute)
  then show ?case using Suc.IH [of "i + n"] Suc.prems all by simp
qed simp

lemma Fields_words: "w \<in> set (Fields text) \<Longrightarrow> CHR '' '' \<notin> set w"
  using Fields_no_space by (fastforce simp: is_space_def)

text \<open>The words that are examined: the last two thousand.\<close>

definition recent_words :: "string \<Rightarrow> string list" where
  "recent_words text = (let ws = Fields text in if length ws > 2000 then drop (length ws - 2000) ws else ws)"

text \<open>The detector of repeated blocks is exact. With a positive block length and a threshold above one it reports a
loop exactly when among the last two thousand words some block of that many words occurs that many times in a row.\<close>

theorem ngram_loop_exact:
  assumes "0 < n" "1 < threshold"
  shows "DetectNgramLoop text (int n) (int threshold) \<longleftrightarrow>
    (\<exists>pre b post. recent_words text = pre @ concat (replicate threshold b) @ post \<and> length b = n)"
proof -
  let ?ws = "recent_words text"
  have words: "\<forall>w \<in> set ?ws. CHR '' '' \<notin> set w" using Fields_words by (auto simp: recent_words_def Let_def dest: in_set_dropD)
  have rep: "block_repeats ?ws n threshold i \<longleftrightarrow> take (threshold * n) (drop i ?ws) = concat (replicate threshold (take n (drop i ?ws)))"
    if "i + threshold * n \<le> length ?ws" for i
  proof -
    let ?b = "take n (drop i ?ws)"
    have "n \<le> threshold * n" using assms(2) by simp
    then have "n \<le> length ?ws - i" using that by linarith
    then have b: "length ?b = n" by simp
    have nosp: "\<forall>w \<in> set ?b. CHR '' '' \<notin> set w" using words by (auto dest: in_set_takeD in_set_dropD)
    obtain m where m: "threshold = Suc m" using assms(2) by (cases threshold) auto
    have "block_repeats ?ws n threshold i \<longleftrightarrow> (\<forall>k < m. take n (drop (i + n + k * n) ?ws) = ?b)"
      using count_blocks_all [OF words b nosp assms(1)] by (simp add: block_repeats_def m)
    also have "\<dots> \<longleftrightarrow> (\<forall>k < Suc m. take n (drop (i + k * n) ?ws) = ?b)" by (auto simp: less_Suc_eq_0_disj add.assoc)
    also have "\<dots> \<longleftrightarrow> take (threshold * n) (drop i ?ws) = concat (replicate threshold ?b)"
      using blocks_concat [of i "Suc m" n ?ws ?b] that b m by simp
    finally show ?thesis .
  qed
  have detect: "DetectNgramLoop text (int n) (int threshold) \<longleftrightarrow> (\<exists>i. i + threshold * n \<le> length ?ws \<and> block_repeats ?ws n threshold i)"
  proof -
    have gen: "(if L < m then False else list_ex P [0..<Suc (L - m)]) \<longleftrightarrow> (\<exists>i. i + m \<le> L \<and> P i)" for L m :: nat and P
    proof (cases "L < m")
      case False
      then have "i < Suc (L - m) \<longleftrightarrow> i + m \<le> L" for i by linarith
      then show ?thesis using False by (auto simp: list_ex_iff simp del: upt_Suc)
    qed auto
    have "DetectNgramLoop text (int n) (int threshold) =
        (if length ?ws < n * threshold then False else list_ex (block_repeats ?ws n threshold) [0..<Suc (length ?ws - n * threshold)])"
      using assms unfolding DetectNgramLoop_def recent_words_def Let_def by (simp del: upt_Suc)
    then show ?thesis unfolding gen by (simp add: mult.commute)
  qed
  show ?thesis unfolding detect
  proof
    assume "\<exists>i. i + threshold * n \<le> length ?ws \<and> block_repeats ?ws n threshold i"
    then obtain i where i: "i + threshold * n \<le> length ?ws" "take (threshold * n) (drop i ?ws) = concat (replicate threshold (take n (drop i ?ws)))"
      using rep by blast
    have "?ws = take i ?ws @ take (threshold * n) (drop i ?ws) @ drop (threshold * n) (drop i ?ws)" by (metis append_take_drop_id)
    moreover have "length (take n (drop i ?ws)) = n" using i(1) assms(2) le_trans [of n "threshold * n"] by simp
    ultimately show "\<exists>pre b post. ?ws = pre @ concat (replicate threshold b) @ post \<and> length b = n" using i(2) by metis
  next
    assume "\<exists>pre b post. ?ws = pre @ concat (replicate threshold b) @ post \<and> length b = n"
    then obtain pre b post where w: "?ws = pre @ concat (replicate threshold b) @ post" "length b = n" by blast
    have lc: "length (concat (replicate threshold b)) = threshold * n" using w(2) by (simp add: length_concat sum_list_replicate)
    obtain m where m: "threshold = Suc m" using assms(2) by (cases threshold) auto
    have "take n (drop (length pre) ?ws) = b" using w m by simp
    then show "\<exists>i. i + threshold * n \<le> length ?ws \<and> block_repeats ?ws n threshold i"
      using rep [of "length pre"] w lc by (intro exI [of _ "length pre"]) simp
  qed
qed

text \<open>The circuit breaker is exact. With a threshold above one it opens exactly when the history ends with that many
copies of one fingerprint.\<close>

theorem call_loop_exact:
  assumes "1 < threshold"
  shows "CheckCallLoop history (int threshold) \<noteq> None \<longleftrightarrow> (\<exists>pre h. history = pre @ replicate threshold h)"
proof -
  let ?t = "takeWhile (\<lambda>h. h = last history) (rev history)"
  have c: "CheckCallLoop history (int threshold) \<noteq> None \<longleftrightarrow> threshold \<le> length history \<and> threshold \<le> length ?t"
    using assms by (simp add: CheckCallLoop_def Let_def)
  have le: "length ?t \<le> length history" using length_takeWhile_le [of _ "rev history"] by simp
  show ?thesis unfolding c
  proof
    assume a: "threshold \<le> length history \<and> threshold \<le> length ?t"
    define tw where "tw = ?t"
    have "tw = take (length tw) (rev history)" unfolding tw_def by (rule takeWhile_eq_take)
    then have "take threshold tw = take threshold (take (length tw) (rev history))" by simp
    then have t: "take threshold (rev history) = take threshold tw" using a by (simp add: tw_def [symmetric] min.absorb1)
    have "\<forall>x \<in> set tw. x = last history" unfolding tw_def by (auto dest: set_takeWhileD)
    then have "take threshold tw = replicate threshold (last history)" using a unfolding tw_def [symmetric]
      by (intro replicate_eqI) (auto dest: in_set_takeD)
    then have "rev history = replicate threshold (last history) @ drop threshold (rev history)" using t by (metis append_take_drop_id)
    then have "history = rev (drop threshold (rev history)) @ replicate threshold (last history)" by (metis rev_append rev_replicate rev_rev_ident)
    then show "\<exists>pre h. history = pre @ replicate threshold h" by blast
  next
    assume "\<exists>pre h. history = pre @ replicate threshold h"
    then obtain pre h where h: "history = pre @ replicate threshold h" by blast
    then have l: "last history = h" using assms by (simp add: last_append last_replicate)
    have "length ?t \<ge> threshold" unfolding l h by (simp add: takeWhile_append)
    then show "threshold \<le> length history \<and> threshold \<le> length ?t" using le by simp
  qed
qed

theorem ngram_loop_exact_witness: "DetectNgramLoop ''x a b a b a b y'' 2 3"
proof -
  have "Fields ''x a b a b a b y'' = [''x'', ''a'', ''b'', ''a'', ''b'', ''a'', ''b'', ''y'']" by code_simp
  then have "recent_words ''x a b a b a b y'' = [''x''] @ concat (replicate 3 [''a'', ''b'']) @ [''y'']"
    by (simp add: recent_words_def numeral_3_eq_3)
  moreover have "length [''a'', ''b''] = 2" by simp
  ultimately have "DetectNgramLoop ''x a b a b a b y'' (int 2) (int 3)" using ngram_loop_exact [of 2 3 "''x a b a b a b y''", OF zero_less_numeral] by (metis one_less_numeral_iff semiring_norm(77))
  then show ?thesis by simp
qed

theorem call_loop_exact_witness: "CheckCallLoop [''a'', ''b'', ''b'', ''b''] 3 \<noteq> None"
proof -
  have "[''a'', ''b'', ''b'', ''b''] = [''a''] @ replicate 3 ''b''" by (simp add: numeral_3_eq_3)
  then have "CheckCallLoop [''a'', ''b'', ''b'', ''b''] (int 3) \<noteq> None" using call_loop_exact [of 3 "[''a'', ''b'', ''b'', ''b'']"] by (metis one_less_numeral_iff semiring_norm(77))
  then show ?thesis by simp
qed

end
