(* ===== verification/Hub.thy ===== *)
theory Hub
  imports Hub_Supervisor Hub_Pool Hub_Watchdog "HOL-Library.Word"
begin

text \<open>
  The hub itself (\<^verbatim>\<open>internal/hub/hub.go\<close>): its tools at the start, the tool a connection attaches to, the dispatch of
  a client's lines, subagent calls, and administration. Sockets, HTTP and the accept loop are not modelled; a
  connection is its attach message and the lines after it.

  Parameters: the environment (\<open>getenv\<close>), the loading of environment files (\<open>load\<close>, \<^verbatim>\<open>LoadEnvFiles\<close> on the disk as it is,
  whose errors the code ignores), the decoding and encoding of JSON, and the processes behind the tools.
\<close>

section \<open>State\<close>

record AttachMessage =
  at_Type :: string
  at_Server :: string
  at_Profile :: string
  at_Cwd :: string
  at_HostName :: string
  at_Action :: string
  at_TargetID :: string

record ConnectedHost =
  ch_ID :: string
  ch_HostName :: string
  ch_Target :: string
  ch_Connected :: gotime

record Hub =
  hb_config :: Config
  hb_supervisor :: Supervisor
  hb_workers :: workers
  hb_hosts :: "ConnectedHost gomap"
  hb_hostSeq :: nat

type_synonym loader = "string list \<Rightarrow> err + string gomap"

definition env_of :: "loader \<Rightarrow> string list \<Rightarrow> string gomap" where
  "env_of load paths = (case load paths of Inl _ \<Rightarrow> [] | Inr m \<Rightarrow> m)"

section \<open>The start\<close>

definition register_shared :: "gotime \<Rightarrow> ToolConfig gomap \<Rightarrow> Supervisor \<Rightarrow> Supervisor" where
  "register_shared now shared sv = foldl (\<lambda>s (name, tc). RegisterTool (tc\<lparr>tl_Name := ''shared:'' @ name\<rparr>) now s) sv shared"

definition profile_tools :: "(string \<Rightarrow> string) \<Rightarrow> loader \<Rightarrow> ProfileConfig gomap \<Rightarrow> ToolConfig list" where
  "profile_tools getenv load profiles =
     concat (map (\<lambda>(pName, pCfg). let envMap = env_of load (wp_EnvFiles pCfg) in
       map (\<lambda>(_, tc). (HydrateToolConfig getenv tc envMap)\<lparr>tl_Name := pName @ '':'' @ tl_Name tc\<rparr>) (wp_Tools pCfg)) profiles)"

definition register_profiles :: "(string \<Rightarrow> string) \<Rightarrow> loader \<Rightarrow> gotime \<Rightarrow> ProfileConfig gomap \<Rightarrow> Supervisor \<Rightarrow> Supervisor" where
  "register_profiles getenv load now profiles sv = foldl (\<lambda>s tc. RegisterTool tc now s) sv (profile_tools getenv load profiles)"

definition register_plain :: "gotime \<Rightarrow> ToolConfig gomap \<Rightarrow> Supervisor \<Rightarrow> Supervisor" where
  "register_plain now tools sv =
     foldl (\<lambda>s (_, tc). case GetTool (tl_Name tc) s of None \<Rightarrow> RegisterTool tc now s | Some _ \<Rightarrow> s) sv tools"

definition New :: "(string \<Rightarrow> string) \<Rightarrow> loader \<Rightarrow> gotime \<Rightarrow> Config \<Rightarrow> Hub" where
  "New getenv load now cfg =
     \<lparr>hb_config = cfg,
      hb_supervisor = register_plain now (cg_Tools cfg) (register_profiles getenv load now (cg_Profiles cfg) (register_shared now (cg_SharedTools cfg) [])),
      hb_workers = [], hb_hosts = [], hb_hostSeq = 0\<rparr>"

section \<open>Attaching\<close>

datatype attach_result = AttachRefused message | Attached string

definition handleConn_attach ::
  "(string \<Rightarrow> string) \<Rightarrow> loader \<Rightarrow> gotime \<Rightarrow> AttachMessage \<Rightarrow> Hub \<Rightarrow> attach_result \<times> Hub" where
  "handleConn_attach getenv load now attach h =
     (case ResolveServer (hb_config h) (at_Profile attach) (at_Cwd attach) (at_Server attach) of
        Some res \<Rightarrow>
          (let targetKey = rv_InstanceKey res
           in case GetTool targetKey (hb_supervisor h) of
                Some _ \<Rightarrow> (Attached targetKey, h)
              | None \<Rightarrow>
                 (let hydrated = (HydrateToolConfig getenv (rv_Config res) (env_of load (rv_EnvFiles res)))\<lparr>tl_Name := targetKey\<rparr>
                  in (Attached targetKey, h\<lparr>hb_supervisor := snd (GetOrCreateTool targetKey hydrated now (hb_supervisor h))\<rparr>)))
      | None \<Rightarrow>
          if at_Profile attach \<noteq> '''' then
            (AttachRefused (Msg ''profile %q does not name a declared workspace (profiles.<name>.workspace_roots); refusing to resolve server %q against it''
               [AStr (at_Profile attach), AStr (at_Server attach)]), h)
          else (Attached (at_Server attach), h))"

definition registerHost :: "gotime \<Rightarrow> string \<Rightarrow> string \<Rightarrow> string \<Rightarrow> Hub \<Rightarrow> Hub" where
  "registerHost now hid hostName target h =
     h\<lparr>hb_hosts := map_put hid \<lparr>ch_ID = hid, ch_HostName = hostName, ch_Target = target, ch_Connected = now\<rparr> (hb_hosts h)\<rparr>"

definition unregisterHost :: "string \<Rightarrow> Hub \<Rightarrow> Hub" where
  "unregisterHost hid h = h\<lparr>hb_hosts := filter (\<lambda>kh. fst kh \<noteq> hid) (hb_hosts h)\<rparr>"

definition ActiveHosts :: "Hub \<Rightarrow> ConnectedHost list" where
  "ActiveHosts h = map snd (hb_hosts h)"

section \<open>Dispatching\<close>

text \<open>What the processes do with one request: the time, the number of a process started for it and whether it starts, the
first unused channel, and its answers.\<close>

record process_env =
  pe_now :: gotime
  pe_cmd :: nat
  pe_launched :: "err + nat"
  pe_chan :: nat
  pe_answer :: "JSONRPCRequest \<Rightarrow> err + JSONRPCResponse"

definition call_tool :: "process_env \<Rightarrow> JSONRPCRequest \<Rightarrow> ManagedTool \<Rightarrow> (err + JSONRPCResponse) \<times> ManagedTool" where
  "call_tool env req t = HandleClientRequest (pe_now env) (pe_cmd env) (pe_launched env) (pe_chan env) (pe_answer env) req t"

definition put_tool :: "string \<Rightarrow> ManagedTool \<Rightarrow> Hub \<Rightarrow> Hub" where
  "put_tool key t h = h\<lparr>hb_supervisor := map_put key t (hb_supervisor h)\<rparr>"

text \<open>An error's text is left to the renderer of errors.\<close>

definition error_response :: "(err \<Rightarrow> string) \<Rightarrow> JSONRPCRequest \<Rightarrow> int \<Rightarrow> err \<Rightarrow> JSONRPCResponse" where
  "error_response render req code e = \<lparr>rs_ID = rq_ID req, rs_Result = '''', rs_Error = Some \<lparr>re_Code = code, re_Message = render e\<rparr>\<rparr>"

section \<open>Subagent calls\<close>

record SubagentArgs =
  sa_Prompt :: string
  sa_Model :: string
  sa_LeaseSec :: int
  sa_Tasks :: "(string \<times> string) list"

definition DefaultStepTimeout :: int where
  "DefaultStepTimeout = 150 * 1000000000"

text \<open>A duration is a signed 64-bit number of nanoseconds, and the product wraps.\<close>

definition lease_duration :: "int \<Rightarrow> int" where
  "lease_duration leaseSec = sint (word_of_int leaseSec * word_of_int 1000000000 :: 64 word)"

definition step_timeout :: "int \<Rightarrow> int" where
  "step_timeout leaseSec =
     (if leaseSec > 0 then
        (let declared = lease_duration leaseSec
         in if declared > DefaultStepTimeout \<and> declared \<le> 3600 * 1000000000 then declared else DefaultStepTimeout)
      else DefaultStepTimeout)"

definition prompt_preview :: "SubagentArgs \<Rightarrow> string" where
  "prompt_preview args =
     (let p = (if sa_Prompt args = '''' \<and> sa_Tasks args \<noteq> [] then
                 Sprintf ''[%d tasks] %s'' [AInt (int (length (sa_Tasks args))), AStr (snd (hd (sa_Tasks args)))]
               else sa_Prompt args)
      in if length p > 60 then take 60 p @ ''...'' else p)"

definition subagent_worker :: "gotime \<Rightarrow> string \<Rightarrow> string \<Rightarrow> SubagentArgs \<Rightarrow> ActiveWorker" where
  "subagent_worker now callName hostName args =
     (let isBatch = (callName = ''subagent_batch'')
      in \<lparr>aw_ID = Sprintf ''%s-%d'' [AStr callName, AInt (now mod 10000000)], aw_Type = (if isBatch then ''batch'' else ''task''),
          aw_ToolName = callName, aw_HostName = hostName,
          aw_Model = (if sa_Model args = '''' then (if isBatch then ''glm-5.3-flash'' else ''glm-5.3'') else sa_Model args),
          aw_PromptPreview = prompt_preview args, aw_StartTime = now, aw_LastHeartbeat = now, aw_Phase = ''running'',
          aw_DeclaredLease = lease_duration (sa_LeaseSec args), aw_cancel = None\<rparr>)"

text \<open>The texts of a result, each with its type, and the flag whether one was changed.\<close>

definition sanitize_text :: "(string \<Rightarrow> bool) \<Rightarrow> string \<Rightarrow> string \<times> bool" where
  "sanitize_text valid text0 =
     (let loop = DetectNgramLoop text0 8 4;
          text = (if loop then text0 @ [CHR 0x0A, CHR 0x0A] @ ''[Warning: repetitive degeneracy loop detected and flagged by omca watchdog]'' else text0);
          trimmed = TrimSpace text
      in if (has_prefix [CHR 0x7B] trimmed \<or> has_prefix [CHR 0x5B] trimmed) \<and> \<not> valid trimmed \<and> valid (JSONAutoRepair trimmed)
         then (JSONAutoRepair trimmed, True) else (text, loop))"

definition sanitizeWorkerResult ::
  "(string \<Rightarrow> bool) \<Rightarrow> (string \<Rightarrow> err + (string \<times> string) list) \<Rightarrow> ((string \<times> string) list \<Rightarrow> err + string) \<Rightarrow> string \<Rightarrow> string" where
  "sanitizeWorkerResult valid decode encode raw =
     (case decode raw of
        Inl _ \<Rightarrow> raw
      | Inr content \<Rightarrow>
         (let cleaned = map (\<lambda>(ty, text). if ty = ''text'' then (let (t, m) = sanitize_text valid text in ((ty, t), m)) else ((ty, text), False)) content
          in if list_ex snd cleaned then (case encode (map fst cleaned) of Inr data \<Rightarrow> data | Inl _ \<Rightarrow> raw) else raw))"

record codec =
  cd_request :: "string \<Rightarrow> err + JSONRPCRequest"
  cd_call :: "string \<Rightarrow> string \<times> SubagentArgs"
  cd_valid :: "string \<Rightarrow> bool"
  cd_result :: "string \<Rightarrow> err + (string \<times> string) list"
  cd_encode :: "(string \<times> string) list \<Rightarrow> err + string"
  cd_error :: "err \<Rightarrow> string"

text \<open>
  A subagent call: the slot may be refused (the context was done first), and a failing call may be due to the step's
  deadline. The worker is registered while the tool is called.
\<close>

definition handleSubagentCall ::
  "codec \<Rightarrow> process_env \<Rightarrow> err option \<Rightarrow> bool \<Rightarrow> nat \<Rightarrow> string \<Rightarrow> string \<Rightarrow> ManagedTool \<Rightarrow> JSONRPCRequest \<Rightarrow> Hub \<Rightarrow> JSONRPCResponse \<times> Hub" where
  "handleSubagentCall cc env slot deadline cancel targetTool hostName tool req h =
     (let (callName, args) = cd_call cc (rq_Params req); worker = subagent_worker (pe_now env) callName hostName args
      in case slot of
        Some e \<Rightarrow> (error_response (cd_error cc) req (- 32000) (Wrapf ''rate limit / queue error: %w'' [] e), h)
      | None \<Rightarrow>
         (let h1 = h\<lparr>hb_workers := RegisterWorker (pe_now env) (Some worker) (Some cancel) (hb_workers h)\<rparr>;
              (r, tool') = call_tool env req tool;
              h2 = put_tool targetTool tool' h1;
              h3 = h2\<lparr>hb_workers := UnregisterWorker (aw_ID worker) (hb_workers h2)\<rparr>
          in case r of
               Inl e \<Rightarrow>
                 (if deadline then
                    error_response (cd_error cc) req (- 32000)
                      (Errorf ''watchdog: step duration exceeded %v SLA limit (worker %s terminated by watchdog)''
                         [AInt (step_timeout (sa_LeaseSec args)), AStr (aw_ID worker)])
                  else error_response (cd_error cc) req (- 32603) e, h3)
             | Inr resp \<Rightarrow>
                 (if rs_Result resp \<noteq> '''' then
                    resp\<lparr>rs_Result := sanitizeWorkerResult (cd_valid cc) (cd_result cc) (cd_encode cc) (rs_Result resp)\<rparr>
                  else resp, h3)))"

text \<open>A line of a client: at most one response.\<close>

definition dispatchLine ::
  "codec \<Rightarrow> process_env \<Rightarrow> err option \<Rightarrow> bool \<Rightarrow> nat \<Rightarrow> string \<Rightarrow> string \<Rightarrow> string \<Rightarrow> Hub \<Rightarrow> JSONRPCResponse option \<times> Hub" where
  "dispatchLine cc env slot deadline cancel targetTool hostName line h =
     (case cd_request cc line of
        Inl _ \<Rightarrow> (None, h)
      | Inr req \<Rightarrow>
          if rq_ID req = '''' then (None, h)
          else (case GetTool targetTool (hb_supervisor h) of
            None \<Rightarrow> (Some (error_response (cd_error cc) req (- 32601) (Errorf ''tool %q not registered in hub'' [AStr targetTool])), h)
          | Some tool \<Rightarrow>
              if has_suffix ''subagent-worker'' targetTool \<and> rq_Method req = ''tools/call'' then
                (let (resp, h') = handleSubagentCall cc env slot deadline cancel targetTool hostName tool req h in (Some resp, h'))
              else (let (r, tool') = call_tool env req tool; h' = put_tool targetTool tool' h
                    in case r of
                         Inl e \<Rightarrow> (Some (error_response (cd_error cc) req (- 32603) e), h')
                       | Inr resp \<Rightarrow> (Some resp, h'))))"

section \<open>What is registered\<close>

text \<open>
  What the isolation of profiles needs of the names in a configuration: no colon in a profile's name, which is not
  \<^verbatim>\<open>shared\<close>, none in the names of plain tools, and profile tools registered under the name they have.
\<close>

definition separate :: "Config \<Rightarrow> bool" where
  "separate c \<longleftrightarrow> distinct (map fst (cg_Profiles c)) \<and> distinct (map fst (cg_SharedTools c)) \<and>
     (\<forall>(p, prof) \<in> set (cg_Profiles c). CHR '':'' \<notin> set p \<and> p \<noteq> ''shared'' \<and> distinct (map fst (wp_Tools prof)) \<and>
        (\<forall>(k, tc) \<in> set (wp_Tools prof). tl_Name tc = k)) \<and>
     (\<forall>(k, tc) \<in> set (cg_Tools c). CHR '':'' \<notin> set k \<and> CHR '':'' \<notin> set (tl_Name tc))"

definition profile_serves :: "(string \<Rightarrow> string) \<Rightarrow> loader \<Rightarrow> Config \<Rightarrow> string \<Rightarrow> string \<Rightarrow> ToolConfig \<Rightarrow> bool" where
  "profile_serves getenv load c p key conf \<longleftrightarrow>
     (\<exists>prof s tc. map_of (cg_Profiles c) p = Some prof \<and> map_of (wp_Tools prof) s = Some tc \<and> key = p @ CHR '':'' # s \<and>
        conf = (HydrateToolConfig getenv tc (env_of load (wp_EnvFiles prof)))\<lparr>tl_Name := key\<rparr>)"

definition shared_serves :: "(string \<Rightarrow> string) \<Rightarrow> loader \<Rightarrow> Config \<Rightarrow> bool \<Rightarrow> string \<Rightarrow> ToolConfig \<Rightarrow> bool" where
  "shared_serves getenv load c raw key conf \<longleftrightarrow>
     (\<exists>s tc. map_of (cg_SharedTools c) s = Some tc \<and> key = ''shared'' @ CHR '':'' # s \<and>
        (conf = tc\<lparr>tl_Name := key\<rparr> \<or> \<not> raw \<and> conf = (HydrateToolConfig getenv tc (env_of load []))\<lparr>tl_Name := key\<rparr>))"

definition tool_served :: "(string \<Rightarrow> string) \<Rightarrow> loader \<Rightarrow> Config \<Rightarrow> bool \<Rightarrow> string \<Rightarrow> ToolConfig \<Rightarrow> bool" where
  "tool_served getenv load c raw key conf \<longleftrightarrow>
     (\<exists>p. profile_serves getenv load c p key conf) \<or> shared_serves getenv load c raw key conf \<or> CHR '':'' \<notin> set key"

definition all_tools :: "(string \<Rightarrow> ToolConfig \<Rightarrow> bool) \<Rightarrow> Supervisor \<Rightarrow> bool" where
  "all_tools P s \<longleftrightarrow> (\<forall>key t. map_of s key = Some t \<longrightarrow> P key (mt_config t))"

lemma all_tools_put: "all_tools P s \<Longrightarrow> P key (mt_config t) \<Longrightarrow> all_tools P (map_put key t s)"
  by (auto simp: all_tools_def)


lemma RegisterTool_all: "all_tools P s \<Longrightarrow> P (tl_Name tc) tc \<Longrightarrow> all_tools P (RegisterTool tc now s)"
  unfolding RegisterTool_def by (rule all_tools_put) (simp_all add: new_tool_def)

lemma foldl_all:
  assumes "\<And>s x. all_tools P s \<Longrightarrow> x \<in> set xs \<Longrightarrow> all_tools P (f s x)" "all_tools P s"
  shows "all_tools P (foldl f s xs)"
  using assms by (induction xs arbitrary: s) auto

lemma profile_tools_serve:
  assumes "separate c" "tc \<in> set (profile_tools getenv load (cg_Profiles c))"
  shows "\<exists>p. profile_serves getenv load c p (tl_Name tc) tc"
proof -
  obtain p prof k tc0 where p: "(p, prof) \<in> set (cg_Profiles c)" "(k, tc0) \<in> set (wp_Tools prof)"
    and tc: "tc = (HydrateToolConfig getenv tc0 (env_of load (wp_EnvFiles prof)))\<lparr>tl_Name := p @ '':'' @ tl_Name tc0\<rparr>"
    using assms(2) by (auto simp: profile_tools_def Let_def)
  have "tl_Name tc0 = k" "distinct (map fst (wp_Tools prof))" "distinct (map fst (cg_Profiles c))"
    using assms(1) p by (auto simp: separate_def)
  then have "map_of (cg_Profiles c) p = Some prof" "map_of (wp_Tools prof) k = Some tc0" "tl_Name tc = p @ CHR '':'' # k"
    using p tc by simp_all
  then show ?thesis using tc \<open>tl_Name tc0 = k\<close> by (auto simp: profile_serves_def)
qed

lemma New_supervisor:
  "hb_supervisor (New getenv load now c) =
     register_plain now (cg_Tools c) (register_profiles getenv load now (cg_Profiles c) (register_shared now (cg_SharedTools c) []))"
  by (simp add: New_def)

lemma New_served:
  assumes "separate c"
  shows "all_tools (tool_served getenv load c True) (hb_supervisor (New getenv load now c))"
proof -
  let ?P = "tool_served getenv load c True"
  have shared: "all_tools ?P (register_shared now (cg_SharedTools c) [])"
    unfolding register_shared_def
  proof (rule foldl_all)
    fix s x assume a: "all_tools ?P s" "x \<in> set (cg_SharedTools c)"
    obtain k tc where x: "x = (k, tc)" by force
    then have "map_of (cg_SharedTools c) k = Some tc" using a(2) assms by (simp add: separate_def)
    then have "?P (''shared:'' @ k) (tc\<lparr>tl_Name := ''shared:'' @ k\<rparr>)" by (auto simp: tool_served_def shared_serves_def)
    then show "all_tools ?P (case x of (name, tc) \<Rightarrow> RegisterTool (tc\<lparr>tl_Name := ''shared:'' @ name\<rparr>) now s)"
      using RegisterTool_all [OF a(1), of "tc\<lparr>tl_Name := ''shared:'' @ k\<rparr>"] x by simp
  qed (simp add: all_tools_def)
  have profiles: "all_tools ?P (register_profiles getenv load now (cg_Profiles c) (register_shared now (cg_SharedTools c) []))"
    unfolding register_profiles_def
  proof (rule foldl_all [OF _ shared])
    fix s tc assume "all_tools ?P s" "tc \<in> set (profile_tools getenv load (cg_Profiles c))"
    then show "all_tools ?P (RegisterTool tc now s)"
      using profile_tools_serve [OF assms] by (intro RegisterTool_all) (auto simp: tool_served_def)
  qed
  show ?thesis unfolding New_supervisor register_plain_def
  proof (rule foldl_all [OF _ profiles])
    fix s x assume a: "all_tools ?P s" "x \<in> set (cg_Tools c)"
    obtain k tc where x: "x = (k, tc)" by force
    have "?P (tl_Name tc) tc" using a(2) x assms by (auto simp: separate_def tool_served_def)
    then show "all_tools ?P (case x of (_, tc) \<Rightarrow> case GetTool (tl_Name tc) s of None \<Rightarrow> RegisterTool tc now s | Some _ \<Rightarrow> s)"
      using RegisterTool_all [OF a(1), of tc] a(1) x by (simp split: option.split)
  qed
qed

text \<open>Every profile tool is registered at the start, and stays so.\<close>

lemma dom_RegisterTool: "dom (map_of (RegisterTool tc now s)) = insert (tl_Name tc) (dom (map_of s))"
  by (auto simp: RegisterTool_def)

lemma foldl_dom:
  assumes "\<And>s x. dom (map_of s) \<subseteq> dom (map_of (f s x))"
  shows "dom (map_of s) \<subseteq> dom (map_of (foldl f s xs))"
proof (induction xs arbitrary: s)
  case (Cons x xs)
  show ?case using Cons.IH [of "f s x"] assms [of s x] by (auto simp: dom_def)
qed simp

lemma foldl_register_dom: "tl_Name ` set xs \<subseteq> dom (map_of (foldl (\<lambda>s tc. RegisterTool tc now s) s xs))"
proof (induction xs arbitrary: s)
  case (Cons x xs)
  have "dom (map_of (RegisterTool x now s)) \<subseteq> dom (map_of (foldl (\<lambda>s tc. RegisterTool tc now s) (RegisterTool x now s) xs))"
    by (rule foldl_dom) (auto simp: dom_RegisterTool)
  moreover have "tl_Name x \<in> dom (map_of (RegisterTool x now s))" by (simp add: dom_RegisterTool)
  moreover have "tl_Name ` set xs \<subseteq> dom (map_of (foldl (\<lambda>s tc. RegisterTool tc now s) (RegisterTool x now s) xs))" by (rule Cons.IH)
  ultimately show ?case unfolding foldl_Cons list.set(2) image_insert by blast
qed simp

lemma New_dom:
  "tl_Name ` set (profile_tools getenv load (cg_Profiles c)) \<subseteq> dom (map_of (hb_supervisor (New getenv load now c)))"
  "(\<lambda>(k, _). ''shared:'' @ k) ` set (cg_SharedTools c) \<subseteq> dom (map_of (hb_supervisor (New getenv load now c)))"
proof -
  let ?sh = "register_shared now (cg_SharedTools c) []"
  let ?pr = "register_profiles getenv load now (cg_Profiles c) ?sh"
  have plain: "dom (map_of ?pr) \<subseteq> dom (map_of (hb_supervisor (New getenv load now c)))"
    unfolding New_supervisor register_plain_def
    by (rule foldl_dom) (auto simp: RegisterTool_def split: option.splits)
  show "tl_Name ` set (profile_tools getenv load (cg_Profiles c)) \<subseteq> dom (map_of (hb_supervisor (New getenv load now c)))"
    using plain foldl_register_dom [of "profile_tools getenv load (cg_Profiles c)" now ?sh] unfolding register_profiles_def by blast
  have sh: "dom (map_of ?sh) \<subseteq> dom (map_of ?pr)" unfolding register_profiles_def by (rule foldl_dom) (auto simp: dom_RegisterTool)
  let ?reg = "map (\<lambda>(k, tc). tc\<lparr>tl_Name := ''shared:'' @ k\<rparr>) (cg_SharedTools c)"
  have "?sh = foldl (\<lambda>s tc. RegisterTool tc now s) [] ?reg"
    unfolding register_shared_def foldl_map by (rule foldl_cong) (auto simp: case_prod_beta)
  then have "tl_Name ` set ?reg \<subseteq> dom (map_of ?sh)"
    using foldl_register_dom [of ?reg now "[]"] by simp
  moreover have "(\<lambda>(k, _). ''shared:'' @ k) ` set (cg_SharedTools c) = tl_Name ` set ?reg"
    unfolding set_map image_image by (rule image_cong) (simp_all add: case_prod_beta)
  ultimately have "(\<lambda>(k, _). ''shared:'' @ k) ` set (cg_SharedTools c) \<subseteq> dom (map_of ?sh)" by simp
  also note sh
  also note plain
  finally show "(\<lambda>(k, _). ''shared:'' @ k) ` set (cg_SharedTools c) \<subseteq> dom (map_of (hb_supervisor (New getenv load now c)))" .
qed

section \<open>The hub over time\<close>




inductive hub_step :: "(string \<Rightarrow> string) \<Rightarrow> loader \<Rightarrow> Hub \<Rightarrow> Hub \<Rightarrow> bool" for getenv :: "string \<Rightarrow> string" and load :: loader where
  attach: "handleConn_attach getenv load now a h = (r, h') \<Longrightarrow> hub_step getenv load h h'"
| connect: "hub_step getenv load h (registerHost now hid hostName target h)"
| disconnect: "hub_step getenv load h (unregisterHost hid h)"
| line: "dispatchLine cc env slot deadline cancel target hostName text h = (o', h') \<Longrightarrow> hub_step getenv load h h'"
| reap: "hub_step getenv load h (h\<lparr>hb_supervisor := snd (ReapOnce timeout now (hb_supervisor h))\<rparr>)"
| kill: "hub_step getenv load h (h\<lparr>hb_workers := snd (snd (KillWorker wid (hb_workers h)))\<rparr>)"






section \<open>Properties\<close>


text \<open>C33: naming a pool key goes around the isolation. A connection that names no profile and asks for the server
\<^verbatim>\<open>profile:tool\<close>, which resolves to nothing, is attached under that very name: it reaches the profile's tool, with the
secrets of that profile's environment files, from any directory.\<close>

theorem pool_key_reaches_profile_tool:
  assumes sep: "separate c" and tool: "map_of (cg_Profiles c) p = Some prof" "map_of (wp_Tools prof) s = Some tc"
    and a: "at_Profile a = ''''" "at_Server a = p @ '':'' @ s" "ResolveServer c '''' (at_Cwd a) (p @ '':'' @ s) = None"
    and h_def: "h = New getenv load now0 c"
  shows "handleConn_attach getenv load now a h = (Attached (p @ '':'' @ s), h) \<and>
    (\<exists>t. GetTool (p @ '':'' @ s) (hb_supervisor h) = Some t \<and>
       mt_config t = (HydrateToolConfig getenv tc (env_of load (wp_EnvFiles prof)))\<lparr>tl_Name := p @ '':'' @ s\<rparr>)"
proof -
  let ?key = "p @ '':'' @ s"
  have cfg: "hb_config h = c" by (simp add: h_def New_def)
  have mem: "(p, prof) \<in> set (cg_Profiles c)" "(s, tc) \<in> set (wp_Tools prof)" using tool by (auto dest: map_of_SomeD)
  have name: "tl_Name tc = s" and np: "CHR '':'' \<notin> set p" "p \<noteq> ''shared''" using sep mem by (auto simp: separate_def)
  let ?conf = "(HydrateToolConfig getenv tc (env_of load (wp_EnvFiles prof)))\<lparr>tl_Name := p @ '':'' @ tl_Name tc\<rparr>"
  have "?conf \<in> set (profile_tools getenv load (cg_Profiles c))"
    unfolding profile_tools_def Let_def set_concat set_map using mem by force
  then have "tl_Name ?conf \<in> dom (map_of (hb_supervisor h))" unfolding h_def by (intro subsetD [OF New_dom(1)] imageI)
  then obtain t where t: "map_of (hb_supervisor h) ?key = Some t" using name by auto
  have "tool_served getenv load c True ?key (mt_config t)" using New_served [OF sep] t by (auto simp: all_tools_def h_def)
  then have "profile_serves getenv load c p ?key (mt_config t)"
  proof (unfold tool_served_def, elim disjE exE)
    fix p' assume o: "profile_serves getenv load c p' ?key (mt_config t)"
    then obtain prof' s' where p': "map_of (cg_Profiles c) p' = Some prof'" "?key = p' @ CHR '':'' # s'" by (auto simp: profile_serves_def)
    then have "CHR '':'' \<notin> set p'" using sep by (auto simp: separate_def dest!: map_of_SomeD)
    then have "p' = p" using colon_split [of p s p' s'] np p'(2) by auto
    then show ?thesis using o by simp
  next
    assume "shared_serves getenv load c True ?key (mt_config t)"
    then obtain s' where "p @ CHR '':'' # s = ''shared'' @ CHR '':'' # s'" by (auto simp: shared_serves_def)
    then show ?thesis using colon_split [of p s "''shared''" s'] np by auto
  qed simp
  then obtain prof' s' tc' where x: "map_of (cg_Profiles c) p = Some prof'" "map_of (wp_Tools prof') s' = Some tc'" "?key = p @ CHR '':'' # s'"
    "mt_config t = (HydrateToolConfig getenv tc' (env_of load (wp_EnvFiles prof')))\<lparr>tl_Name := ?key\<rparr>"
    by (auto simp: profile_serves_def)
  then have "prof' = prof" "tc' = tc" using tool by auto
  moreover have "handleConn_attach getenv load now a h = (Attached ?key, h)" using a cfg by (simp add: handleConn_attach_def)
  ultimately show ?thesis using t x(4) by (auto simp: GetTool_def)
qed

text \<open>Tools of the shared pool are started unexpanded. At the start a shared tool is registered as it stands in the
configuration, so its references to the environment, the only form in which the configuration may hold a secret,
are passed to its process as they are written; and since it is registered, no later connection expands them.\<close>

theorem shared_tools_not_expanded:
  assumes sep: "separate c" and tool: "map_of (cg_SharedTools c) s = Some tc"
    and a: "ResolveServer c (at_Profile a) (at_Cwd a) (at_Server a) = Some r" "rv_InstanceKey r = ''shared:'' @ s"
    and h_def: "h = New getenv load now0 c"
  shows "handleConn_attach getenv load now a h = (Attached (''shared:'' @ s), h) \<and>
    (\<exists>t. GetTool (''shared:'' @ s) (hb_supervisor h) = Some t \<and> mt_config t = tc\<lparr>tl_Name := ''shared:'' @ s\<rparr>)"
proof -
  let ?key = "''shared'' @ CHR '':'' # s"
  have k: "?key = ''shared:'' @ s" by simp
  have "(s, tc) \<in> set (cg_SharedTools c)" using tool by (rule map_of_SomeD)
  then have "''shared:'' @ s \<in> (\<lambda>(k, _). ''shared:'' @ k) ` set (cg_SharedTools c)" by force
  then obtain t where t: "map_of (hb_supervisor h) ?key = Some t" using New_dom(2) [of c getenv load now0] unfolding h_def k by blast
  have "tool_served getenv load c True ?key (mt_config t)" using New_served [OF sep] t by (auto simp: all_tools_def h_def)
  then have "shared_serves getenv load c True ?key (mt_config t)"
  proof (unfold tool_served_def, elim disjE exE)
    fix p assume "profile_serves getenv load c p ?key (mt_config t)"
    then obtain prof s' where p: "map_of (cg_Profiles c) p = Some prof" "?key = p @ CHR '':'' # s'" by (auto simp: profile_serves_def)
    then have "CHR '':'' \<notin> set p" "p \<noteq> ''shared''" using sep by (auto simp: separate_def dest!: map_of_SomeD)
    then show ?thesis using colon_split [of "''shared''" s p s'] p(2) by simp
  qed simp_all
  then have "mt_config t = tc\<lparr>tl_Name := ?key\<rparr>" using tool unfolding shared_serves_def by auto
  then show ?thesis using t a unfolding k by (auto simp: handleConn_attach_def GetTool_def h_def New_def Let_def)
qed

lemma call_tool_id: "call_tool env req t = (Inr resp, t') \<Longrightarrow> rs_ID resp = rq_ID req"
  unfolding call_tool_def HandleClientRequest_def Let_def
  by (auto split: option.splits sum.splits prod.splits if_splits dest: cached_response_id)

text \<open>C12: every request is answered once, under its own identifier. A line that is no request, or a notification, gets no
response; any other gets exactly one, with the client's identifier, whether the tool exists, starts, fails or
answers, and whether the call is a subagent's or not.\<close>

theorem every_request_answered_once:
  assumes "dispatchLine cc env slot deadline cancel target hostName msg h = (o', h')"
  shows "(case cd_request cc msg of
      Inl e \<Rightarrow> o' = None \<and> h' = h
    | Inr req \<Rightarrow> if rq_ID req = '''' then o' = None \<and> h' = h else (\<exists>resp. o' = Some resp \<and> rs_ID resp = rq_ID req))"
proof (cases "cd_request cc msg")
  case (Inr req)
  show ?thesis
  proof (cases "rq_ID req = ''''")
    case True
    then show ?thesis using assms Inr by (simp add: dispatchLine_def)
  next
    case False
    show ?thesis
    proof (cases "GetTool target (hb_supervisor h)")
      case None
      then show ?thesis using assms Inr False by (auto simp: dispatchLine_def error_response_def)
    next
      case (Some t)
      obtain r t' where c: "call_tool env req t = (r, t')" by force
      then show ?thesis using assms Inr False Some call_tool_id [of env req t _ t']
        by (cases slot; cases r) (auto simp: dispatchLine_def handleSubagentCall_def error_response_def Let_def split: if_splits prod.splits)
    qed
  qed
qed (use assms in \<open>simp add: dispatchLine_def\<close>)

text \<open>C24: the step of a subagent is always bounded. Whatever number of seconds a client declares, also one whose product with
a second overflows 64 bits, the step may take at least the default of 150 seconds and at most an hour, and a
declaration between the two is granted.\<close>

theorem step_timeout_bounds:
  "150 * 1000000000 \<le> step_timeout leaseSec \<and> step_timeout leaseSec \<le> 3600 * 1000000000 \<and>
   (if 150 < leaseSec \<and> leaseSec \<le> 3600 then step_timeout leaseSec = leaseSec * 1000000000
    else if leaseSec \<le> 9000000000 then step_timeout leaseSec = 150 * 1000000000 else True)"
proof -
  have d: "lease_duration leaseSec = leaseSec * 1000000000" if "0 < leaseSec" "leaseSec \<le> 9000000000"
  proof -
    have "lease_duration leaseSec = signed_take_bit 63 (leaseSec * 1000000000)"
      by (simp only: lease_duration_def wi_hom_mult sint_sbintrunc') simp
    then show ?thesis using that by (simp add: signed_take_bit_int_eq_self)
  qed
  show ?thesis
    by (cases "leaseSec \<le> 0"; cases "leaseSec \<le> 9000000000") (auto simp: step_timeout_def DefaultStepTimeout_def Let_def d)
qed


section \<open>Samples\<close>

lemma separate_sample: "separate sample_hub"
  by (simp add: separate_def sample_hub_def sample_config_def sample_profile_def sample_tool_def)

definition sample_attach :: "string \<Rightarrow> string \<Rightarrow> AttachMessage" where
  "sample_attach profile server = \<lparr>at_Type = ''attach'', at_Server = server, at_Profile = profile, at_Cwd = '''',
     at_HostName = ''claude-code'', at_Action = '''', at_TargetID = ''''\<rparr>"

definition started_hub :: Hub where
  "started_hub = New (\<lambda>_. '''') (\<lambda>_. Inr [(''API_KEY'', ''k'')]) 0 sample_hub"


theorem pool_key_reaches_profile_tool_witness:
  "fst (handleConn_attach (\<lambda>_. '''') (\<lambda>_. Inr [(''API_KEY'', ''k'')]) 0 (sample_attach '''' ''alpha:search'') started_hub) = Attached ''alpha:search''"
proof -
  have m: "map_of (cg_Profiles sample_hub) ''alpha'' = Some (sample_profile ''/w/a'' [(''search'', sample_tool ''search'')])"
    by (simp add: sample_hub_def sample_config_def)
  have n: "map_of (wp_Tools (sample_profile ''/w/a'' [(''search'', sample_tool ''search'')])) ''search'' = Some (sample_tool ''search'')"
    by (simp add: sample_profile_def)
  have r: "ResolveServer sample_hub '''' (at_Cwd (sample_attach '''' ''alpha:search'')) (''alpha'' @ '':'' @ ''search'') = None" by code_simp
  have a: "at_Profile (sample_attach '''' ''alpha:search'') = ''''" "at_Server (sample_attach '''' ''alpha:search'') = ''alpha'' @ '':'' @ ''search''"
    by (simp_all add: sample_attach_def)
  show ?thesis using pool_key_reaches_profile_tool [OF separate_sample m n a r started_hub_def] by simp
qed

theorem shared_tools_not_expanded_witness:
  "\<exists>t. GetTool ''shared:web'' (hb_supervisor started_hub) = Some t \<and> tl_Env (mt_config t) = [(''API_KEY'', ''$API_KEY'')]"
proof -
  let ?r = "\<lparr>rv_InstanceKey = ''shared:web'', rv_Config = sample_tool ''web'', rv_Profile = ''shared'', rv_EnvFiles = []\<rparr>"
  have m: "map_of (cg_SharedTools sample_hub) ''web'' = Some (sample_tool ''web'')" by (simp add: sample_hub_def sample_config_def)
  have r: "ResolveServer sample_hub (at_Profile (sample_attach ''alpha'' ''web'')) (at_Cwd (sample_attach ''alpha'' ''web'')) (at_Server (sample_attach ''alpha'' ''web'')) = Some ?r"
    by code_simp
  have k: "rv_InstanceKey ?r = ''shared:'' @ ''web''" by simp
  show ?thesis using shared_tools_not_expanded [OF separate_sample m r k started_hub_def, of 0] by (auto simp: sample_tool_def)
qed

definition sample_codec :: codec where
  "sample_codec = \<lparr>cd_request = (\<lambda>s. Inr \<lparr>rq_ID = s, rq_Method = ''ping'', rq_Params = ''''\<rparr>), cd_call = (\<lambda>_. ('''', \<lparr>sa_Prompt = '''', sa_Model = '''', sa_LeaseSec = 0, sa_Tasks = []\<rparr>)),
     cd_valid = (\<lambda>_. True), cd_result = (\<lambda>_. Inr []), cd_encode = (\<lambda>_. Inr ''''), cd_error = (\<lambda>_. '''')\<rparr>"

theorem every_request_answered_once_witness:
  "\<exists>resp. fst (dispatchLine sample_codec \<lparr>pe_now = 0, pe_cmd = 0, pe_launched = Inr 0, pe_chan = 0, pe_answer = (\<lambda>_. Inr \<lparr>rs_ID = ''1'', rs_Result = ''{}'', rs_Error = None\<rparr>)\<rparr>
     None False 0 ''ghost'' '''' ''7'' started_hub) = Some resp \<and> rs_ID resp = ''7''"
proof -
  let ?env = "\<lparr>pe_now = 0, pe_cmd = 0, pe_launched = Inr 0, pe_chan = 0, pe_answer = (\<lambda>_. Inr \<lparr>rs_ID = ''1'', rs_Result = ''{}'', rs_Error = None\<rparr>)\<rparr>"
  obtain o' h' where d: "dispatchLine sample_codec ?env None False 0 ''ghost'' '''' ''7'' started_hub = (o', h')" by (metis surj_pair)
  show ?thesis using every_request_answered_once [OF d] d by (simp add: sample_codec_def)
qed

end
