(* ===== verification/Hub_Workers.thy ===== *)
theory Hub_Workers
  imports Hub_Config
begin

text \<open>
  The background workers of the hub (\<^verbatim>\<open>internal/hub/workers.go\<close>): the periodic check of rendered checkouts, and the
  session watcher that runs a distiller once a profile's sessions have been quiet for a while, or have been written
  to for too long. The commands they run, the walk over the session directories (\<open>latest\<close>, the latest modification
  time below some paths) and the home directory are parameters.
\<close>

section \<open>Rendered checkouts\<close>

record RenderCheckEntry =
  re_Path :: string
  re_Status :: string
  re_Detail :: string

record RenderDriftCard =
  rc_ID :: string
  rc_Profile :: string
  rc_WorkspaceDir :: string
  rc_CheckoutPath :: string
  rc_Status :: string
  rc_Detail :: string
  rc_Remediation :: string
  rc_Command :: string
  rc_ObservedAt :: gotime

definition expandHome :: "string option \<Rightarrow> string \<Rightarrow> string" where
  "expandHome home path =
     (if has_prefix ''~/'' path then (case home of Some h \<Rightarrow> Join [h, drop 2 path] | None \<Rightarrow> path) else path)"

definition drift_card :: "gotime \<Rightarrow> string \<Rightarrow> string \<Rightarrow> RenderCheckEntry \<Rightarrow> RenderDriftCard" where
  "drift_card now pName wsRoot entry =
     \<lparr>rc_ID = ''DR-render-'' @ pName @ ''-'' @ Base (re_Path entry), rc_Profile = pName, rc_WorkspaceDir = wsRoot,
      rc_CheckoutPath = re_Path entry, rc_Status = re_Status entry, rc_Detail = re_Detail entry,
      rc_Remediation = ''ws-render --checkout '' @ re_Path entry, rc_Command = ''ws-render --check --all --json'', rc_ObservedAt = now\<rparr>"

definition is_current :: "RenderCheckEntry \<Rightarrow> bool" where
  "is_current entry \<longleftrightarrow> re_Status entry = '''' \<or> re_Status entry = ''current'' \<or> re_Status entry = ''CURRENT''"

definition add_card :: "gotime \<Rightarrow> RenderDriftCard gomap \<Rightarrow> string \<times> string \<times> RenderCheckEntry \<Rightarrow> RenderDriftCard gomap" where
  "add_card now cards x =
     (case x of (pName, wsRoot, entry) \<Rightarrow>
        if is_current entry then cards else map_put (re_Path entry) (drift_card now pName wsRoot entry) cards)"

text \<open>The entries in the order in which the loops meet them.\<close>

definition render_entries ::
  "string option \<Rightarrow> (string \<Rightarrow> string \<Rightarrow> RenderCheckEntry list) \<Rightarrow> ProfileConfig gomap \<Rightarrow> (string \<times> string \<times> RenderCheckEntry) list" where
  "render_entries home check profiles =
     concat (map (\<lambda>pName. concat (map (\<lambda>root. let wsRoot = expandHome home root in map (\<lambda>e. (pName, wsRoot, e)) (check pName wsRoot))
       (wp_WorkspaceRoots (map_get ProfileConfig_zero profiles pName)))) (sorted_keys profiles))"

definition Cards :: "RenderDriftCard gomap \<Rightarrow> RenderDriftCard list" where
  "Cards cards = sort_key (\<lambda>c. (rc_Profile c, rc_CheckoutPath c)) (map snd cards)"

text \<open>The cards of the worker after a check, and what it returns.\<close>

definition CheckOnce ::
  "string option \<Rightarrow> (string \<Rightarrow> string \<Rightarrow> RenderCheckEntry list) \<Rightarrow> gotime \<Rightarrow> Config option \<Rightarrow> RenderDriftCard gomap \<Rightarrow> RenderDriftCard list \<times> RenderDriftCard gomap" where
  "CheckOnce home check now cfg cards =
     (case cfg of
        None \<Rightarrow> ([], cards)
      | Some c \<Rightarrow> (let next = foldl (add_card now) [] (render_entries home check (cg_Profiles c)) in (Cards next, next)))"

definition Restore ::
  "(string \<Rightarrow> err option) \<Rightarrow> string option \<Rightarrow> (string \<Rightarrow> string \<Rightarrow> RenderCheckEntry list) \<Rightarrow> gotime \<Rightarrow> Config option \<Rightarrow> string \<Rightarrow>
   RenderDriftCard gomap \<Rightarrow> err option \<times> RenderDriftCard gomap" where
  "Restore render home check now cfg checkoutPath cards =
     (if TrimSpace checkoutPath = '''' then (Some (Errorf ''hub: restore: checkout path is required'' []), cards)
      else case render checkoutPath of
        Some e \<Rightarrow> (Some (Wrapf ''hub: restore %s: %w'' [AStr checkoutPath] e), cards)
      | None \<Rightarrow> (None, snd (CheckOnce home check now cfg cards)))"

section \<open>The session watcher\<close>

record profileWatchState =
  wt_lastKnownMtime :: gotime
  wt_pendingTriggerSince :: gotime
  wt_firstPendingSince :: gotime
  wt_distillRuns :: nat

record SessionWatcherWorker =
  sw_debounce :: int
  sw_maxWait :: int
  sw_extraPaths :: "string list gomap"
  sw_states :: "profileWatchState gomap"

definition watchPathsForProfile :: "string option \<Rightarrow> string list gomap \<Rightarrow> string \<Rightarrow> ProfileConfig \<Rightarrow> string list" where
  "watchPathsForProfile home extra profile prof =
     (case map_of extra profile of
        Some (p # ps) \<Rightarrow> p # ps
      | _ \<Rightarrow> concat (map (\<lambda>root. let wsRoot = expandHome home root in
           [Join [wsRoot, ''.ws'', ''.codex'', ''sessions''],
            Join [wsRoot, ''.ws'', ''.pi'', ''agent'', ''sessions''],
            Join [wsRoot, ''.ws'', ''.claude'', ''projects''],
            Join [wsRoot, ''.ws'', ''claude-mem'', ''claude-mem.db''],
            Join [wsRoot, ''.ws'', ''.gemini'', ''antigravity'', ''brain'']]) (wp_WorkspaceRoots prof)))"

definition initBaselines ::
  "string option \<Rightarrow> (string list \<Rightarrow> gotime) \<Rightarrow> ProfileConfig gomap \<Rightarrow> string list gomap \<Rightarrow> profileWatchState gomap \<Rightarrow> profileWatchState gomap" where
  "initBaselines home latest profiles extra states =
     foldl (\<lambda>states (pName, prof).
       case map_of states pName of
         Some _ \<Rightarrow> states
       | None \<Rightarrow> map_put pName \<lparr>wt_lastKnownMtime = latest (watchPathsForProfile home extra pName prof),
                  wt_pendingTriggerSince = 0, wt_firstPendingSince = 0, wt_distillRuns = 0\<rparr> states) states profiles"

text \<open>One profile at one poll: whether the distiller runs, and the new state.\<close>

definition poll_profile :: "int \<Rightarrow> int \<Rightarrow> gotime \<Rightarrow> gotime \<Rightarrow> profileWatchState \<Rightarrow> bool \<times> profileWatchState" where
  "poll_profile debounce maxWait now currentMtime st =
     (let st1 = (if currentMtime > wt_lastKnownMtime st then
                   st\<lparr>wt_lastKnownMtime := currentMtime,
                      wt_firstPendingSince := (if wt_firstPendingSince st = 0 then now else wt_firstPendingSince st),
                      wt_pendingTriggerSince := now\<rparr>
                 else st);
          shouldTrigger =
            (if wt_pendingTriggerSince st1 \<noteq> 0 \<and> now - wt_pendingTriggerSince st1 \<ge> debounce then True
             else if wt_firstPendingSince st1 \<noteq> 0 \<and> now - wt_firstPendingSince st1 \<ge> maxWait then True
             else False)
      in if shouldTrigger then
           (True, st1\<lparr>wt_pendingTriggerSince := 0, wt_firstPendingSince := 0, wt_distillRuns := Suc (wt_distillRuns st1)\<rparr>)
         else (False, st1))"

fun PollOnce_loop ::
  "string option \<Rightarrow> (string list \<Rightarrow> gotime) \<Rightarrow> SessionWatcherWorker \<Rightarrow> ProfileConfig gomap \<Rightarrow> gotime \<Rightarrow> string list \<Rightarrow> profileWatchState gomap \<Rightarrow>
   (string \<times> string) list \<times> profileWatchState gomap" where
  "PollOnce_loop home latest s profiles now [] states = ([], states)"
| "PollOnce_loop home latest s profiles now (pName # ps) states =
     (let prof = map_get ProfileConfig_zero profiles pName
      in case map_of states pName of
           None \<Rightarrow> PollOnce_loop home latest s profiles now ps states
         | Some st \<Rightarrow>
            (let (trigger, st') = poll_profile (sw_debounce s) (sw_maxWait s) now (latest (watchPathsForProfile home (sw_extraPaths s) pName prof)) st;
                 (runs, states') = PollOnce_loop home latest s profiles now ps (map_put pName st' states);
                 wsRoot = (case wp_WorkspaceRoots prof of [] \<Rightarrow> '''' | r # _ \<Rightarrow> expandHome home r)
             in ((if trigger then [(pName, wsRoot)] else []) @ runs, states')))"

text \<open>The profiles whose distiller ran with their workspaces, and the watcher.\<close>

definition PollOnce ::
  "string option \<Rightarrow> (string list \<Rightarrow> gotime) \<Rightarrow> Config option \<Rightarrow> gotime \<Rightarrow> SessionWatcherWorker \<Rightarrow> (string \<times> string) list \<times> SessionWatcherWorker" where
  "PollOnce home latest cfg now s =
     (case cfg of
        None \<Rightarrow> ([], s)
      | Some c \<Rightarrow>
         (let states0 = initBaselines home latest (cg_Profiles c) (sw_extraPaths s) (sw_states s);
              (runs, states) = PollOnce_loop home latest s (cg_Profiles c) now (sorted_keys (cg_Profiles c)) states0
          in (runs, s\<lparr>sw_states := states\<rparr>)))"

section \<open>A profile over many polls\<close>

fun run_polls :: "int \<Rightarrow> int \<Rightarrow> (gotime \<times> gotime) list \<Rightarrow> profileWatchState \<Rightarrow> profileWatchState" where
  "run_polls debounce maxWait [] st = st"
| "run_polls debounce maxWait ((now, mtime) # ps) st = run_polls debounce maxWait ps (snd (poll_profile debounce maxWait now mtime st))"




lemma run_polls_append: "run_polls d m (ps @ qs) st = run_polls d m qs (run_polls d m ps st)"
  by (induction d m ps st rule: run_polls.induct) simp_all


section \<open>Properties\<close>



text \<open>The distiller runs only for a reason. It runs at a poll exactly when noticed activity has been quiet for the debounce
time or pending for the maximal wait, counting what this very poll notices; it runs at most once at a poll, and
afterwards nothing is pending.\<close>

theorem distiller_runs_for_a_reason:
  assumes "poll_profile debounce maxWait now mtime st = (run, st')" "0 < debounce" "0 < maxWait" "now > 0"
  shows "(run \<longleftrightarrow>
      (if mtime > wt_lastKnownMtime st then wt_firstPendingSince st \<noteq> 0 \<and> wt_firstPendingSince st + maxWait \<le> now
       else wt_pendingTriggerSince st \<noteq> 0 \<and> wt_pendingTriggerSince st + debounce \<le> now \<or>
            wt_firstPendingSince st \<noteq> 0 \<and> wt_firstPendingSince st + maxWait \<le> now)) \<and>
    (run \<longrightarrow> wt_pendingTriggerSince st' = 0 \<and> wt_firstPendingSince st' = 0) \<and>
    wt_distillRuns st' = wt_distillRuns st + (if run then 1 else 0) \<and> wt_lastKnownMtime st' = max mtime (wt_lastKnownMtime st)"
  using assms by (auto simp: poll_profile_def Let_def split: if_splits)

theorem distiller_runs_for_a_reason_witness:
  "\<exists>st'. poll_profile 60 300 100 5 \<lparr>wt_lastKnownMtime = 5, wt_pendingTriggerSince = 30, wt_firstPendingSince = 30, wt_distillRuns = 0\<rparr> = (True, st') \<and>
     wt_distillRuns st' = 1"
proof -
  obtain run st' where p: "poll_profile 60 300 100 5 \<lparr>wt_lastKnownMtime = 5, wt_pendingTriggerSince = 30, wt_firstPendingSince = 30, wt_distillRuns = 0\<rparr> = (run, st')"
    by force
  then show ?thesis using distiller_runs_for_a_reason [OF p] by auto
qed

end
