(* ===== verification/Knowledge_Versions.thy ===== *)
theory Knowledge_Versions
  imports Go_Text
begin

text \<open>
  Versions and version ranges (\<^verbatim>\<open>internal/knowledge/semver.go\<close>). The two regular expressions are written out: three
  groups of digits separated by dots, with an optional comparison before them in a range.
\<close>

record semver =
  sv_major :: nat
  sv_minor :: nat
  sv_patch :: nat

text \<open>The groups of \<^verbatim>\<open>^(\d+)\.(\d+)\.(\d+)$\<close>.\<close>

definition semverPattern :: "string \<Rightarrow> (string \<times> string \<times> string) option" where
  "semverPattern s =
     (case split_on CHR ''.'' s of
        [a, b, c] \<Rightarrow> if list_all (\<lambda>w. w \<noteq> [] \<and> list_all is_digit w) [a, b, c] then Some (a, b, c) else None
      | _ \<Rightarrow> None)"

definition parseSemver :: "string \<Rightarrow> err + semver" where
  "parseSemver s =
     (let core = takeWhile (\<lambda>c. c \<noteq> CHR ''-'' \<and> c \<noteq> CHR ''+'') (TrimSpace s)
      in case semverPattern core of
           None \<Rightarrow> Inl (Errorf ''knowledge: parseSemver: %q is not a MAJOR.MINOR.PATCH version'' [AStr s])
         | Some (a, b, c) \<Rightarrow>
         (case (Atoi a, Atoi b, Atoi c) of
             (Some x, Some y, Some z) \<Rightarrow> Inr \<lparr>sv_major = x, sv_minor = y, sv_patch = z\<rparr>
           | _ \<Rightarrow> Inl (Errorf ''knowledge: parseSemver: %q: invalid numeric component'' [AStr s])))"

definition sign :: "int \<Rightarrow> int" where
  "sign n = (if n > 0 then 1 else if n < 0 then - 1 else 0)"

definition semver_compare :: "semver \<Rightarrow> semver \<Rightarrow> int" where
  "semver_compare v w =
     (if sv_major v \<noteq> sv_major w then sign (int (sv_major v) - int (sv_major w))
      else if sv_minor v \<noteq> sv_minor w then sign (int (sv_minor v) - int (sv_minor w))
      else sign (int (sv_patch v) - int (sv_patch w)))"

record versionRangeTerm =
  vt_op :: string
  vt_version :: semver

text \<open>The groups of \<^verbatim>\<open>^(>=|<=|>|<|=)?(\d+\.\d+\.\d+)$\<close>, the comparison empty when it is not there.\<close>

definition rangeTermPattern :: "string \<Rightarrow> (string \<times> string) option" where
  "rangeTermPattern f =
     (let opn = takeWhile (\<lambda>c. c \<in> {CHR ''<'', CHR ''>'', CHR ''=''}) f; v = drop (length opn) f
      in if opn \<in> {'''', ''>='', ''<='', ''>'', ''<'', ''=''} \<and> semverPattern v \<noteq> None then Some (opn, v) else None)"

fun parse_terms :: "string \<Rightarrow> string list \<Rightarrow> err + versionRangeTerm list" where
  "parse_terms rangeExpr [] = Inr []"
| "parse_terms rangeExpr (f # fs) =
     (case rangeTermPattern f of
        None \<Rightarrow> Inl (Errorf ''knowledge: parseVersionRange: %q: unsupported comparator term %q'' [AStr rangeExpr, AStr f])
      | Some (opn, v) \<Rightarrow>
      (case parseSemver v of
        Inl e \<Rightarrow> Inl e
      | Inr ver \<Rightarrow>
      (case parse_terms rangeExpr fs of
        Inl e \<Rightarrow> Inl e
      | Inr terms \<Rightarrow> Inr (\<lparr>vt_op = (if opn = '''' then ''='' else opn), vt_version = ver\<rparr> # terms))))"

definition parseVersionRange :: "string \<Rightarrow> err + versionRangeTerm list" where
  "parseVersionRange rangeExpr =
     (let fields = Fields rangeExpr
      in if fields = [] then Inl (Errorf ''knowledge: parseVersionRange: empty range expression'' [])
         else parse_terms rangeExpr fields)"

fun satisfies_terms :: "semver \<Rightarrow> versionRangeTerm list \<Rightarrow> err + bool" where
  "satisfies_terms v [] = Inr True"
| "satisfies_terms v (t # ts) =
     (let cmp = semver_compare v (vt_version t); opn = vt_op t
      in if opn \<notin> {''>='', ''<='', ''>'', ''<'', ''=''} then
           Inl (Errorf ''knowledge: VersionSatisfiesRange: unreachable comparator %q'' [AStr opn])
         else if \<not> (if opn = ''>='' then cmp \<ge> 0 else if opn = ''<='' then cmp \<le> 0 else if opn = ''>'' then cmp > 0
                   else if opn = ''<'' then cmp < 0 else cmp = 0) then Inr False
         else satisfies_terms v ts)"

definition VersionSatisfiesRange :: "string \<Rightarrow> string \<Rightarrow> err + bool" where
  "VersionSatisfiesRange exactVersion rangeExpr =
     (case parseSemver exactVersion of
        Inl e \<Rightarrow> Inl e
      | Inr v \<Rightarrow>
      (case parseVersionRange rangeExpr of
        Inl e \<Rightarrow> Inl e
      | Inr terms \<Rightarrow> satisfies_terms v terms))"

section \<open>Lemmas\<close>

text \<open>The order of versions, and a comparison of two.\<close>

definition version_less :: "semver \<Rightarrow> semver \<Rightarrow> bool" where
  "version_less v w \<longleftrightarrow> (sv_major v, sv_minor v, sv_patch v) < (sv_major w, sv_minor w, sv_patch w)"

definition compares :: "string \<Rightarrow> semver \<Rightarrow> semver \<Rightarrow> bool" where
  "compares opn v w \<longleftrightarrow>
     opn = ''>='' \<and> \<not> version_less v w \<or> opn = ''<='' \<and> \<not> version_less w v \<or> opn = ''>'' \<and> version_less w v \<or>
     opn = ''<'' \<and> version_less v w \<or> opn = ''='' \<and> v = w"

lemma semver_compare_sign:
  "semver_compare v w < 0 \<longleftrightarrow> version_less v w" "semver_compare v w > 0 \<longleftrightarrow> version_less w v" "semver_compare v w = 0 \<longleftrightarrow> v = w"
  by (auto simp: semver_compare_def sign_def version_less_def less_prod_def)

lemma satisfies_terms_exact:
  assumes "\<forall>t \<in> set ts. vt_op t \<in> {''>='', ''<='', ''>'', ''<'', ''=''}"
  shows "satisfies_terms v ts = Inr (\<forall>t \<in> set ts. compares (vt_op t) v (vt_version t))"
  using assms
proof (induction ts)
  case (Cons t ts)
  note c = semver_compare_sign [of v "vt_version t"]
  have "vt_op t \<in> {''>='', ''<='', ''>'', ''<'', ''=''}" using Cons.prems by simp
  then show ?case using Cons c
    by (auto simp: compares_def Let_def not_less [symmetric])
qed simp

lemma parse_terms_ops: "parse_terms e fs = Inr ts \<Longrightarrow> \<forall>t \<in> set ts. vt_op t \<in> {''>='', ''<='', ''>'', ''<'', ''=''}"
proof (induction fs arbitrary: ts)
  case (Cons f fs)
  then obtain opn v ver terms where f: "rangeTermPattern f = Some (opn, v)" "parse_terms e fs = Inr terms"
    "ts = \<lparr>vt_op = (if opn = '''' then ''='' else opn), vt_version = ver\<rparr> # terms"
    by (auto split: option.splits sum.splits)
  have "opn \<in> {'''', ''>='', ''<='', ''>'', ''<'', ''=''}" using f(1) unfolding rangeTermPattern_def Let_def by (metis option.distinct(1) option.inject prod.inject)
  then have "(if opn = '''' then ''='' else opn) \<in> {''>='', ''<='', ''>'', ''<'', ''=''}" by auto
  then show ?case using Cons.IH [OF f(2)] unfolding f(3) by simp
qed simp

text \<open>How a version and a range are written.\<close>

definition version_text :: "semver \<Rightarrow> string" where
  "version_text v = nat_dec (sv_major v) @ ''.'' @ nat_dec (sv_minor v) @ ''.'' @ nat_dec (sv_patch v)"

definition in_range :: "semver \<Rightarrow> bool" where
  "in_range v \<longleftrightarrow> sv_major v < 2 ^ 63 \<and> sv_minor v < 2 ^ 63 \<and> sv_patch v < 2 ^ 63"

lemma digit_chars:
  assumes "is_digit c"
  shows "c \<noteq> CHR ''.''" "c \<noteq> CHR ''-''" "c \<noteq> CHR ''+''" "\<not> is_space c" "c \<notin> {CHR ''<'', CHR ''>'', CHR ''=''}"
  using assms by (auto simp: is_digit_def is_space_def less_eq_char_def)

lemma version_chars: "c \<in> set (version_text v) \<Longrightarrow> is_digit c \<or> c = CHR ''.''"
  by (auto simp: version_text_def dest: nat_dec_is_digit)

lemma version_text_clean:
  assumes "c \<in> set (version_text v)"
  shows "c \<noteq> CHR ''-'' \<and> c \<noteq> CHR ''+'' \<and> \<not> is_space c \<and> c \<notin> {CHR ''<'', CHR ''>'', CHR ''=''}"
  using version_chars [OF assms]
proof
  assume "c = CHR ''.''"
  then show ?thesis by (simp add: is_space_def)
qed (use digit_chars [of c] in auto)

lemma version_text_not_Nil [simp]: "version_text v \<noteq> []"
  by (simp add: version_text_def)

lemma semverPattern_text: "semverPattern (version_text v) = Some (nat_dec (sv_major v), nat_dec (sv_minor v), nat_dec (sv_patch v))"
proof -
  have "CHR ''.'' \<notin> set (nat_dec n)" for n using nat_dec_is_digit digit_chars(1) by blast
  then have "split_on CHR ''.'' (version_text v) = [nat_dec (sv_major v), nat_dec (sv_minor v), nat_dec (sv_patch v)]"
    by (simp add: version_text_def split_on_append split_on_single)
  then show ?thesis by (auto simp: semverPattern_def list_all_iff nat_dec_is_digit)
qed

lemma TrimSpace_no_space: "\<forall>c \<in> set s. \<not> is_space c \<Longrightarrow> TrimSpace s = s"
proof -
  have d: "dropWhile is_space t = t" if "\<forall>c \<in> set t. \<not> is_space c" for t using that by (cases t) auto
  assume "\<forall>c \<in> set s. \<not> is_space c"
  then show ?thesis using d [of s] d [of "rev s"] by (simp add: TrimSpace_def trim_right_def)
qed

lemma parseSemver_text: "in_range v \<Longrightarrow> parseSemver (version_text v) = Inr v"
proof -
  assume v: "in_range v"
  have t: "TrimSpace (version_text v) = version_text v" using version_text_clean by (intro TrimSpace_no_space) blast
  have w: "takeWhile (\<lambda>c. c \<noteq> CHR ''-'' \<and> c \<noteq> CHR ''+'') (version_text v) = version_text v"
    using version_text_clean by (intro takeWhile_eq_all_conv [THEN iffD2]) blast
  show ?thesis unfolding parseSemver_def Let_def t w semverPattern_text using v by (simp add: Atoi_nat_dec in_range_def)
qed

definition term_text :: "string \<times> semver \<Rightarrow> string" where
  "term_text t = fst t @ version_text (snd t)"

lemma rangeTermPattern_text:
  assumes "opn \<in> {''>='', ''<='', ''>'', ''<'', ''=''}"
  shows "rangeTermPattern (opn @ version_text v) = Some (opn, version_text v)"
proof -
  have "takeWhile (\<lambda>c. c \<in> {CHR ''<'', CHR ''>'', CHR ''=''}) (version_text v) = []"
    using version_text_clean [of "hd (version_text v)" v] by (cases "version_text v") auto
  then have "takeWhile (\<lambda>c. c \<in> {CHR ''<'', CHR ''>'', CHR ''=''}) (opn @ version_text v) = opn" using assms by auto
  then show ?thesis using assms by (simp add: rangeTermPattern_def semverPattern_text Let_def)
qed

text \<open>A range is its comparisons, separated by blanks.\<close>

definition range_text :: "(string \<times> semver) list \<Rightarrow> string" where
  "range_text ts = join_with '' '' (map term_text ts)"

lemma Fields_join: "\<forall>w \<in> set ws. w \<noteq> [] \<and> (\<forall>c \<in> set w. \<not> is_space c) \<Longrightarrow> Fields (join_with '' '' ws) = ws"
proof (induction ws rule: induct_list012)
  case (3 w w' ws)
  have "split_space (w @ CHR '' '' # join_with '' '' (w' # ws)) = w # split_space (join_with '' '' (w' # ws))"
    using 3 by (intro split_space_append) (simp_all add: is_space_def)
  then show ?case using 3 by (simp add: Fields_def)
qed (auto simp: Fields_def split_space_single)

lemma parse_terms_text:
  assumes "\<forall>t \<in> set ts. fst t \<in> {''>='', ''<='', ''>'', ''<'', ''=''} \<and> in_range (snd t)"
  shows "parse_terms e (map term_text ts) = Inr (map (\<lambda>(opn, v). \<lparr>vt_op = opn, vt_version = v\<rparr>) ts)"
  using assms
proof (induction ts)
  case (Cons t ts)
  obtain opn v where t: "t = (opn, v)" by force
  have "opn \<in> {''>='', ''<='', ''>'', ''<'', ''=''}" "in_range v" using Cons.prems t by auto
  then show ?case using Cons t by (auto simp: term_text_def rangeTermPattern_text parseSemver_text)
qed simp

section \<open>Properties\<close>

text \<open>A version is in a range exactly when every comparison of the range holds. Writing a version and a nonempty list of
comparisons as the packs do and asking whether the one satisfies the other never fails, and the answer is that
each comparison holds in the order by major, minor and patch number.\<close>

theorem version_range_exact:
  assumes "in_range v" "ts \<noteq> []" "\<forall>t \<in> set ts. fst t \<in> {''>='', ''<='', ''>'', ''<'', ''=''} \<and> in_range (snd t)"
  shows "VersionSatisfiesRange (version_text v) (range_text ts) = Inr (\<forall>(opn, w) \<in> set ts. compares opn v w)"
proof -
  have "\<not> is_space c" if "t \<in> set ts" "c \<in> set (term_text t)" for t c
    using assms(3) that version_text_clean [of c "snd t"] by (auto simp: term_text_def is_space_def)
  moreover have "term_text t \<noteq> []" for t by (simp add: term_text_def)
  ultimately have "Fields (range_text ts) = map term_text ts" unfolding range_text_def by (intro Fields_join) auto
  then have "parseVersionRange (range_text ts) = Inr (map (\<lambda>(opn, v). \<lparr>vt_op = opn, vt_version = v\<rparr>) ts)"
    using assms(2) parse_terms_text [OF assms(3)] by (simp add: parseVersionRange_def Let_def)
  moreover have "satisfies_terms v (map (\<lambda>(opn, v). \<lparr>vt_op = opn, vt_version = v\<rparr>) ts) = Inr (\<forall>(opn, w) \<in> set ts. compares opn v w)"
    using assms(3) by (subst satisfies_terms_exact) (auto simp: case_prod_beta)
  ultimately show ?thesis by (simp add: VersionSatisfiesRange_def parseSemver_text [OF assms(1)])
qed

theorem version_range_exact_witness:
  "VersionSatisfiesRange (version_text \<lparr>sv_major = 2, sv_minor = 1, sv_patch = 211\<rparr>)
     (range_text [(''>='', \<lparr>sv_major = 2, sv_minor = 1, sv_patch = 9\<rparr>), (''<'', \<lparr>sv_major = 3, sv_minor = 0, sv_patch = 0\<rparr>)]) = Inr True"
  by (subst version_range_exact) (simp_all add: in_range_def compares_def version_less_def)

text \<open>The answer to any range is in the order of versions. Whatever texts are asked about, if there is an answer then the
version parses, the range parses into comparisons, at least one, and the answer is that all of them hold.\<close>

lemma VersionSatisfiesRange_Inr:
  assumes "VersionSatisfiesRange s r = Inr b"
  shows "\<exists>v ts. parseSemver s = Inr v \<and> parseVersionRange r = Inr ts \<and> ts \<noteq> [] \<and> (b \<longleftrightarrow> (\<forall>t \<in> set ts. compares (vt_op t) v (vt_version t)))"
proof -
  obtain v ts where v: "parseSemver s = Inr v" "parseVersionRange r = Inr ts" "satisfies_terms v ts = Inr b"
    using assms by (auto simp: VersionSatisfiesRange_def split: sum.splits)
  then have p: "parse_terms r (Fields r) = Inr ts" "Fields r \<noteq> []" by (auto simp: parseVersionRange_def Let_def split: if_splits)
  then have "ts \<noteq> []" by (cases "Fields r") (auto split: option.splits sum.splits)
  then show ?thesis using v satisfies_terms_exact [OF parse_terms_ops [OF p(1)], of v] by auto
qed

end
