(* ===== verification/Knowledge.thy ===== *)
theory Knowledge
  imports Knowledge_Versions Domain_Docs Go_Paths
begin

text \<open>
  Knowledge packs (\<^verbatim>\<open>internal/knowledge\<close>: \<^verbatim>\<open>pack.go\<close>, \<^verbatim>\<open>repository.go\<close>, \<^verbatim>\<open>source.go\<close>, \<^verbatim>\<open>poll.go\<close>) and the candidate documents of
  \<^verbatim>\<open>internal/domain/knowledgecandidate.go\<close>: loading a repository of packs, resolving the one pack that covers a host's
  version, and polling the official sources for changes.

  Parameters: the files a walk visits and their text, JSON decoding and the digest of a pack, the hash of a fetched
  text, and the answers of the web servers. The check of the list of sources at program start is not modelled.
\<close>

section \<open>Packs\<close>

definition floatingVersionTags :: "string list" where
  "floatingVersionTags = [''latest'', ''stable'', ''head'']"

definition ValidatePackReference :: "string \<Rightarrow> string \<Rightarrow> err option" where
  "ValidatePackReference field val =
     require (ToLower (TrimSpace val) \<notin> set floatingVersionTags)
       (Errorf (''knowledge: %s %q is a floating reference and can never be recorded as a Knowledge Pack dependency (docs/knowledge/README.md '' @ section_sign @ ''7)'')
          [AStr field, AStr val])"

record Pack =
  pk_Knowledge :: HostKnowledge
  pk_Digest :: string
  pk_Path :: string

text \<open>The pack of a file that decodes to the given document.\<close>

definition parsePack :: "(string \<Rightarrow> err + HostKnowledge) \<Rightarrow> (HostKnowledge \<Rightarrow> err + string) \<Rightarrow> string \<Rightarrow> string \<Rightarrow> err + Pack" where
  "parsePack unmarshal dg raw path =
     (let wrap = Wrapf ''knowledge: LoadPack: %s: %w'' [AStr path]
      in case unmarshal raw of
        Inl e \<Rightarrow> Inl (wrap e)
      | Inr hk \<Rightarrow>
      (case first_err [ValidateHostKnowledge hk, ValidatePackReference ''metadata.id'' (hk_ID hk),
                       ValidatePackReference ''metadata.versionRange'' (hk_VersionRange hk)] of
        Some e \<Rightarrow> Inl (wrap e)
      | None \<Rightarrow>
      (case parseVersionRange (hk_VersionRange hk) of
        Inl e \<Rightarrow> Inl (Wrapf ''knowledge: LoadPack: %s: metadata.versionRange: %w'' [AStr path] e)
      | Inr _ \<Rightarrow>
      (case dg hk of
        Inl e \<Rightarrow> Inl (wrap e)
      | Inr digest \<Rightarrow> Inr \<lparr>pk_Knowledge = hk, pk_Digest = digest, pk_Path = path\<rparr>))))"

definition LoadPack :: "(string \<Rightarrow> err + string) \<Rightarrow> (string \<Rightarrow> err + HostKnowledge) \<Rightarrow> (HostKnowledge \<Rightarrow> err + string) \<Rightarrow> string \<Rightarrow> err + Pack" where
  "LoadPack readFile unmarshal dg path =
     (case readFile path of
        Inl e \<Rightarrow> Inl (Wrapf ''knowledge: LoadPack: %w'' [] e)
      | Inr raw \<Rightarrow> parsePack unmarshal dg raw path)"

section \<open>The repository\<close>

definition PackFileName :: string where
  "PackFileName = ''manifest.json''"

text \<open>An entry of a walk: its name, whether it is a directory, and an error of the walk at it.\<close>

record walk_entry =
  we_name :: string
  we_dir :: bool
  we_err :: "err option"

definition pack_id :: "Pack \<Rightarrow> string" where
  "pack_id p = hk_ID (pk_Knowledge p)"

fun walk_packs ::
  "(string \<Rightarrow> string) \<Rightarrow> (string \<Rightarrow> err + string) \<Rightarrow> (string \<Rightarrow> string \<Rightarrow> err + Pack) \<Rightarrow> string gomap \<Rightarrow> Pack list \<Rightarrow> walk_entry list \<Rightarrow> err + Pack list" where
  "walk_packs source readFile parse seenIDs packs [] = Inr packs"
| "walk_packs source readFile parse seenIDs packs (d # ds) =
     (case we_err d of
        Some e \<Rightarrow> Inl e
      | None \<Rightarrow>
          if we_dir d \<or> Base (we_name d) \<noteq> PackFileName then walk_packs source readFile parse seenIDs packs ds
          else (case readFile (we_name d) of
              Inl e \<Rightarrow> Inl (Wrapf ''knowledge: read pack %s: %w'' [AStr (source (we_name d))] e)
            | Inr raw \<Rightarrow>
            (case parse raw (source (we_name d)) of
              Inl e \<Rightarrow> Inl e
            | Inr p \<Rightarrow>
            (case map_of seenIDs (pack_id p) of
              Some existing \<Rightarrow> Inl (Errorf
                ''knowledge: LoadRepository: metadata.id %q is declared by both %s and %s; a duplicate Pack id must fail closed rather than silently shadow an earlier one''
                [AStr (pack_id p), AStr existing, AStr (source (we_name d))])
            | None \<Rightarrow> walk_packs source readFile parse (map_put (pack_id p) (source (we_name d)) seenIDs) (packs @ [p]) ds))))"

type_synonym Repository = "Pack list"

definition loadRepositoryFS ::
  "walk_entry list \<Rightarrow> (string \<Rightarrow> err + string) \<Rightarrow> (string \<Rightarrow> string \<Rightarrow> err + Pack) \<Rightarrow> string \<Rightarrow> string \<Rightarrow> err + Repository" where
  "loadRepositoryFS entries readFile parse root displayRoot =
     (case walk_packs (\<lambda>name. Join [displayRoot, TrimPrefix (Clean root @ ''/'') name]) readFile parse [] [] entries of
        Inl e \<Rightarrow> Inl (Wrapf ''knowledge: LoadRepository: %w'' [] e)
      | Inr packs \<Rightarrow> Inr (sort_key pack_id packs))"

definition LoadRepository ::
  "walk_entry list \<Rightarrow> (string \<Rightarrow> err + string) \<Rightarrow> (string \<Rightarrow> string \<Rightarrow> err + Pack) \<Rightarrow> string \<Rightarrow> err + Repository" where
  "LoadRepository entries readFile parse hostsRoot = loadRepositoryFS entries readFile parse ''.'' hostsRoot"

section \<open>Resolution\<close>

definition ReconcileModeObserved :: string where
  "ReconcileModeObserved = ''OBSERVED''"

record Resolution =
  rl_Host :: string
  rl_Surface :: string
  rl_Version :: string
  rl_Qualified :: bool
  rl_PackID :: string
  rl_Digest :: string
  rl_Reason :: string
  rl_pack :: "Pack option"

definition Resolution_Status :: "Resolution \<Rightarrow> KnowledgeStatus option" where
  "Resolution_Status r = (case rl_pack r of Some p \<Rightarrow> if rl_Qualified r then Some (hk_Status (pk_Knowledge p)) else None | None \<Rightarrow> None)"

definition CapabilityFor :: "Resolution \<Rightarrow> string \<Rightarrow> CapabilityOps" where
  "CapabilityFor r concept =
     (let observed = CapabilityOps_zero\<lparr>co_ReconcileMode := ReconcileModeObserved\<rparr>
      in case rl_pack r of
           None \<Rightarrow> observed
         | Some p \<Rightarrow> if \<not> rl_Qualified r then observed
                    else (case map_of (hk_Capabilities (pk_Knowledge p)) concept of None \<Rightarrow> observed | Some ops \<Rightarrow> ops))"

definition covers :: "string \<Rightarrow> string \<Rightarrow> string \<Rightarrow> Pack \<Rightarrow> bool" where
  "covers host surface exactVersion p \<longleftrightarrow>
     hk_Host (pk_Knowledge p) = host \<and> hk_Surface (pk_Knowledge p) = surface \<and>
     VersionSatisfiesRange exactVersion (hk_VersionRange (pk_Knowledge p)) = Inr True"

definition Repository_Resolve :: "Repository \<Rightarrow> string \<Rightarrow> string \<Rightarrow> string \<Rightarrow> Resolution" where
  "Repository_Resolve repo host surface exactVersion =
     (let base = \<lparr>rl_Host = host, rl_Surface = surface, rl_Version = exactVersion, rl_Qualified = False, rl_PackID = '''',
                  rl_Digest = '''', rl_Reason = '''', rl_pack = None\<rparr>
      in case filter (covers host surface exactVersion) repo of
           [] \<Rightarrow> base\<lparr>rl_Reason := Sprintf
             ''no qualified pack: no Knowledge Pack's versionRange matches %s/%s version %s; downstream operations degrade to observed''
             [AStr host, AStr surface, AStr exactVersion]\<rparr>
         | [p] \<Rightarrow> base\<lparr>rl_Qualified := True, rl_PackID := pack_id p, rl_Digest := pk_Digest p, rl_pack := Some p\<rparr>
         | candidates \<Rightarrow> base\<lparr>rl_Reason := Sprintf
             ''no qualified pack: %d Knowledge Packs matched %s/%s version %s ambiguously (%s); refusing to guess, downstream operations degrade to observed''
             [AInt (int (length candidates)), AStr host, AStr surface, AStr exactVersion, AStr (join_with '', '' (map pack_id (sort_key pack_id candidates)))]\<rparr>)"

section \<open>Official sources\<close>

record Source =
  so_Host :: string
  so_SourceID :: string
  so_Kind :: string
  so_URL :: string

definition official :: "string \<Rightarrow> string \<Rightarrow> string \<Rightarrow> Source" where
  "official host sid url = \<lparr>so_Host = host, so_SourceID = sid, so_Kind = ''official-doc'', so_URL = url\<rparr>"

definition officialSources :: "Source list" where
  "officialSources =
     [official ''claude-code'' ''claude-code-settings-doc'' ''https://code.claude.com/docs/en/settings'',
      official ''claude-code'' ''claude-code-memory-doc'' ''https://code.claude.com/docs/en/memory'',
      official ''claude-code'' ''claude-code-skills-doc'' ''https://code.claude.com/docs/en/skills'',
      official ''codex'' ''codex-environment-variables-doc'' ''https://learn.chatgpt.com/docs/config-file/environment-variables'',
      official ''codex'' ''codex-cli-doc'' ''https://learn.chatgpt.com/docs/codex/cli'',
      official ''codex'' ''codex-agents-md-doc'' ''https://learn.chatgpt.com/docs/agent-configuration/agents-md'',
      official ''codex'' ''codex-skills-doc'' ''https://learn.chatgpt.com/docs/build-skills'',
      official ''pi'' ''pi-settings-doc'' ''https://pi.dev/docs/latest/settings'',
      official ''pi'' ''pi-usage-doc'' ''https://pi.dev/docs/latest/usage'',
      official ''pi'' ''pi-skills-doc'' ''https://pi.dev/docs/latest/skills'',
      official ''pi'' ''pi-extensions-doc'' ''https://pi.dev/docs/latest/extensions'',
      official ''pi'' ''pi-environment-variables-doc'' ''https://pi.dev/docs/latest/environment-variables'']"

definition OfficialSources :: "Source list" where
  "OfficialSources = officialSources"

definition OfficialSourcesForHost :: "string \<Rightarrow> Source list" where
  "OfficialSourcesForHost host = filter (\<lambda>s. so_Host s = host) officialSources"

definition ValidateSource :: "Source \<Rightarrow> err option" where
  "ValidateSource s =
     require (s \<in> set officialSources)
       (Errorf ''knowledge: ValidateSource: %+v is not one of the allowlisted official sources -- refusing to fetch an arbitrary, non-allowlisted source''
          [AStr (so_SourceID s)])"

section \<open>Lemmas\<close>

lemma parsePack_Inr:
  assumes "parsePack unmarshal dg raw path = Inr p"
  shows "ValidateHostKnowledge (pk_Knowledge p) = None \<and> (\<exists>ts. parseVersionRange (hk_VersionRange (pk_Knowledge p)) = Inr ts) \<and> dg (pk_Knowledge p) = Inr (pk_Digest p)"
  using assms by (auto simp: parsePack_def Let_def go_check split: sum.splits option.splits)

definition is_pack_file :: "walk_entry \<Rightarrow> bool" where
  "is_pack_file d \<longleftrightarrow> \<not> we_dir d \<and> Base (we_name d) = PackFileName"

text \<open>The packs of a walk that succeeds: one for each pack file, all with different identifiers.\<close>

lemma walk_packs_Inr:
  assumes "walk_packs source readFile parse seen packs ds = Inr out" "fst ` set seen = pack_id ` set packs" "distinct (map pack_id packs)"
  shows "(\<forall>d \<in> set ds. we_err d = None) \<and> distinct (map pack_id out) \<and>
    (\<exists>new. out = packs @ new \<and>
       list_all2 (\<lambda>d p. \<exists>raw. readFile (we_name d) = Inr raw \<and> parse raw (source (we_name d)) = Inr p) (filter is_pack_file ds) new)"
  using assms
proof (induction ds arbitrary: seen packs)
  case (Cons d ds)
  have err: "we_err d = None" using Cons.prems(1) by (auto split: option.splits)
  show ?case
  proof (cases "is_pack_file d")
    case False
    then have "walk_packs source readFile parse seen packs ds = Inr out" using Cons.prems(1) err by (auto simp: is_pack_file_def)
    then show ?thesis using Cons.IH [of seen packs] Cons.prems(2,3) False err by simp
  next
    case True
    then have d: "\<not> (we_dir d \<or> Base (we_name d) \<noteq> PackFileName)" by (simp add: is_pack_file_def)
    then obtain raw p where p: "readFile (we_name d) = Inr raw" "parse raw (source (we_name d)) = Inr p" "map_of seen (pack_id p) = None"
      "walk_packs source readFile parse (map_put (pack_id p) (source (we_name d)) seen) (packs @ [p]) ds = Inr out"
      using Cons.prems(1) err by (auto split: sum.splits option.splits)
    then have "pack_id p \<notin> pack_id ` set packs" using Cons.prems(2) by (simp add: map_of_eq_None_iff)
    then have "fst ` set (map_put (pack_id p) (source (we_name d)) seen) = pack_id ` set (packs @ [p])" "distinct (map pack_id (packs @ [p]))"
      using Cons.prems(2,3) by auto
    note IH = Cons.IH [OF p(4) this]
    then obtain new where "out = (packs @ [p]) @ new"
      "list_all2 (\<lambda>d p. \<exists>raw. readFile (we_name d) = Inr raw \<and> parse raw (source (we_name d)) = Inr p) (filter is_pack_file ds) new" by blast
    then have "out = packs @ (p # new)"
      "list_all2 (\<lambda>d p. \<exists>raw. readFile (we_name d) = Inr raw \<and> parse raw (source (we_name d)) = Inr p) (filter is_pack_file (d # ds)) (p # new)"
      using p(1,2) True by auto
    then show ?thesis using IH err by auto
  qed
qed simp

lemma loaded_distinct:
  assumes "loadRepositoryFS entries readFile parse root displayRoot = Inr repo"
  shows "distinct (map pack_id repo)" "sorted (map pack_id repo)" "\<forall>d \<in> set entries. we_err d = None"
    "length repo = length (filter is_pack_file entries)" "\<forall>p \<in> set repo. \<exists>raw path. parse raw path = Inr p"
proof -
  obtain packs where w: "walk_packs (\<lambda>name. Join [displayRoot, TrimPrefix (Clean root @ ''/'') name]) readFile parse [] [] entries = Inr packs"
    and repo: "repo = sort_key pack_id packs"
    using assms by (auto simp: loadRepositoryFS_def split: sum.splits)
  have i: "distinct (map pack_id packs)" "\<forall>d \<in> set entries. we_err d = None"
    "list_all2 (\<lambda>d p. \<exists>raw. readFile (we_name d) = Inr raw \<and> parse raw (Join [displayRoot, TrimPrefix (Clean root @ ''/'') (we_name d)]) = Inr p) (filter is_pack_file entries) packs"
    using walk_packs_Inr [OF w] by auto
  show "distinct (map pack_id repo)" using i(1) by (simp add: repo distinct_map)
  show "sorted (map pack_id repo)" by (simp add: repo)
  show "\<forall>d \<in> set entries. we_err d = None" by (rule i(2))
  show "length repo = length (filter is_pack_file entries)" using list_all2_lengthD [OF i(3)] by (simp add: repo)
  show "\<forall>p \<in> set repo. \<exists>raw path. parse raw path = Inr p"
    using i(3) by (auto simp: repo list_all2_conv_all_nth in_set_conv_nth) metis
qed

lemma filter_unique:
  assumes "distinct xs"
  shows "(\<exists>p. filter P xs = [p]) \<longleftrightarrow> (\<exists>!p. p \<in> set xs \<and> P p)"
proof
  assume "\<exists>p. filter P xs = [p]"
  then obtain p where "filter P xs = [p]" by blast
  then have "x \<in> set xs \<and> P x \<longleftrightarrow> x = p" for x using set_filter [of P xs] by (metis (no_types, lifting) empty_set list.simps(15) mem_Collect_eq singleton_iff)
  then show "\<exists>!p. p \<in> set xs \<and> P p" by simp
next
  assume "\<exists>!p. p \<in> set xs \<and> P p"
  then obtain p where "{x \<in> set xs. P x} = {p}" by blast
  then have "set (filter P xs) = {p}" by simp
  moreover have "distinct (filter P xs)" using assms by simp
  ultimately have "length (filter P xs) = 1" using distinct_card [of "filter P xs"] by simp
  then show "\<exists>p. filter P xs = [p]" by (auto simp: length_Suc_conv)
qed

section \<open>Properties\<close>

text \<open>A repository of packs fails closed. If it loads, the walk met no error and there is one pack for every pack file, none
shadowing another: the identifiers are different and in order, and every pack is a valid document with a range of
versions that parses.\<close>

theorem repository_fails_closed:
  assumes "LoadRepository entries readFile (parsePack unmarshal dg) hostsRoot = Inr repo"
  shows "(\<forall>d \<in> set entries. we_err d = None) \<and> length repo = length (filter is_pack_file entries) \<and>
    distinct (map pack_id repo) \<and> sorted (map pack_id repo) \<and>
    (\<forall>p \<in> set repo. ValidateHostKnowledge (pk_Knowledge p) = None \<and> (\<exists>ts. parseVersionRange (hk_VersionRange (pk_Knowledge p)) = Inr ts))"
  using loaded_distinct [OF assms [unfolded LoadRepository_def]] parsePack_Inr by blast

text \<open>C39: the pack of a version is never guessed. Against a repository that loaded, the resolution of a host, a surface and a
version is qualified exactly when one pack and no other covers them; then it pins that pack's identifier and digest
and has its declared capabilities; otherwise every capability is merely observed and there is no status.\<close>

theorem pack_resolution_never_guesses:
  assumes "LoadRepository entries readFile (parsePack unmarshal dg) hostsRoot = Inr repo" "r = Repository_Resolve repo host surface version"
  shows "(rl_Qualified r \<longleftrightarrow> (\<exists>!p. p \<in> set repo \<and> covers host surface version p)) \<and>
    (if rl_Qualified r then
       \<exists>p \<in> set repo. covers host surface version p \<and> rl_PackID r = pack_id p \<and> rl_Digest r = pk_Digest p \<and>
         Resolution_Status r = Some (hk_Status (pk_Knowledge p)) \<and>
         (\<forall>concept ops. map_of (hk_Capabilities (pk_Knowledge p)) concept = Some ops \<longrightarrow> CapabilityFor r concept = ops)
     else Resolution_Status r = None \<and> (\<forall>concept. CapabilityFor r concept = CapabilityOps_zero\<lparr>co_ReconcileMode := ReconcileModeObserved\<rparr>))"
proof -
  have "distinct (map pack_id repo)" using loaded_distinct(1) [OF assms(1) [unfolded LoadRepository_def]] .
  then have u: "(\<exists>p. filter (covers host surface version) repo = [p]) \<longleftrightarrow> (\<exists>!p. p \<in> set repo \<and> covers host surface version p)"
    by (intro filter_unique) (simp add: distinct_map)
  consider (none) "filter (covers host surface version) repo = []" | (one) p where "filter (covers host surface version) repo = [p]"
    | (many) p q ps where "filter (covers host surface version) repo = p # q # ps"
    by (metis list.exhaust)
  then show ?thesis
  proof cases
    case one
    have "p \<in> set (filter (covers host surface version) repo)" by (simp add: one)
    then have "p \<in> set repo" "covers host surface version p" by simp_all
    then show ?thesis using one u assms(2) by (auto simp: Repository_Resolve_def CapabilityFor_def Resolution_Status_def Let_def)
  qed (use u assms(2) in \<open>simp_all add: Repository_Resolve_def CapabilityFor_def Resolution_Status_def Let_def\<close>)
qed


definition sample_pack_knowledge :: HostKnowledge where
  "sample_pack_knowledge =
     \<lparr>hk_APIVersion = SupportedAPIVersion, hk_Kind = ''HostKnowledge'', hk_ID = ''codex-cli'', hk_Host = ''codex'', hk_Surface = ''cli'',
      hk_VersionRange = ''>=1.2.0 <2.0.0'', hk_Platforms = [], hk_ObservedAt = '''', hk_RecheckAfter = '''', hk_Status = KnowledgeFresh,
      hk_Evidence = [\<lparr>ke_ID = ''codex-cli-doc'', ke_Kind = ''official-doc'', ke_URL = '''', ke_Path = '''', ke_Digest = ''sha256:old''\<rparr>],
      hk_Capabilities = [(''mcp'', CapabilityOps_zero\<lparr>co_Compile := CapExact\<rparr>)], hk_PrecedencePrograms = [], hk_KnownUnknowns = []\<rparr>"

definition sample_pack_file :: walk_entry where
  "sample_pack_file = \<lparr>we_name = ''codex/manifest.json'', we_dir = False, we_err = None\<rparr>"

definition sample_repo :: Repository where
  "sample_repo = [\<lparr>pk_Knowledge = sample_pack_knowledge, pk_Digest = ''d'', pk_Path = ''hosts/codex/manifest.json''\<rparr>]"

definition sample_unmarshal :: "string \<Rightarrow> err + HostKnowledge" where
  "sample_unmarshal raw = Inr sample_pack_knowledge"

lemma sample_repository:
  "LoadRepository [sample_pack_file] (\<lambda>_. Inr ''raw'') (parsePack sample_unmarshal (\<lambda>_. Inr ''d'')) ''hosts'' = Inr sample_repo"
  by code_simp

theorem repository_fails_closed_witness:
  "length sample_repo = length (filter is_pack_file [sample_pack_file]) \<and> distinct (map pack_id sample_repo)"
  using repository_fails_closed [OF sample_repository] by (elim conjE) (intro conjI)

theorem pack_resolution_never_guesses_witness:
  "rl_Qualified (Repository_Resolve sample_repo ''codex'' ''cli'' ''1.4.0'') \<and>
   (\<exists>!p. p \<in> set sample_repo \<and> covers ''codex'' ''cli'' ''1.4.0'' p)"
proof -
  have q: "rl_Qualified (Repository_Resolve sample_repo ''codex'' ''cli'' ''1.4.0'')" by code_simp
  then show ?thesis
    using conjunct1 [OF pack_resolution_never_guesses [OF sample_repository refl, of "''codex''" "''cli''" "''1.4.0''"]] by (simp only: simp_thms)
qed

end
