(* ===== verification/Knowledge_Poll.thy ===== *)
theory Knowledge_Poll
  imports Knowledge
begin

text \<open>
  Polling the official sources (\<^verbatim>\<open>internal/knowledge/poll.go\<close>) and the candidate document it builds
  (\<^verbatim>\<open>internal/domain/knowledgecandidate.go\<close>). The answers of the web servers and the hash of a body are parameters.
\<close>

section \<open>Candidates\<close>

record KnowledgeCandidateMetadata =
  cm_ID :: string
  cm_Host :: string
  cm_Surface :: string
  cm_CollectedAt :: string
  cm_Automation :: string

record ChangedSource =
  cs_SourceID :: string
  cs_Kind :: string
  cs_URL :: string
  cs_OldDigest :: string
  cs_NewDigest :: string

record VersionRangeChange =
  vr_Old :: string
  vr_New :: string

record AffectedCapability =
  af_Concept :: string
  af_Operation :: string
  af_Old :: CapabilityLevel
  af_New :: CapabilityLevel

record FixtureResult =
  fr_ID :: string
  fr_Status :: string
  fr_Detail :: string

record WriteCapabilityImpact =
  wi_Concept :: string
  wi_Change :: string
  wi_Reason :: string

record KnowledgeCandidate =
  kc_APIVersion :: string
  kc_Kind :: string
  kc_Metadata :: KnowledgeCandidateMetadata
  kc_ChangedSources :: "ChangedSource list"
  kc_VersionRange :: VersionRangeChange
  kc_AffectedCapabilities :: "AffectedCapability list"
  kc_FixtureResults :: "FixtureResult list"
  kc_WriteCapabilityImpacts :: "WriteCapabilityImpact list"
  kc_NewKnownUnknowns :: "string list"

definition ValidateKnowledgeCandidate :: "KnowledgeCandidate \<Rightarrow> err option" where
  "ValidateKnowledgeCandidate kc =
     (let m = kc_Metadata kc
      in first_err
        ([ValidateAPIVersion ''KnowledgeCandidate'' (kc_APIVersion kc),
          ValidateKind ''KnowledgeCandidate'' (kc_Kind kc),
          require (cm_ID m \<noteq> '''') (Errorf ''KnowledgeCandidate: metadata.id is required'' []),
          require (cm_Host m \<noteq> '''') (Errorf ''KnowledgeCandidate: metadata.host is required'' []),
          wrap_err ''KnowledgeCandidate: metadata.host: %w'' [] (ValidateHostID (cm_Host m)),
          require (cm_Surface m \<noteq> '''') (Errorf ''KnowledgeCandidate: metadata.surface is required'' []),
          require (cm_CollectedAt m \<noteq> '''') (Errorf ''KnowledgeCandidate: metadata.collectedAt is required'' []),
          require (cm_Automation m \<noteq> '''') (Errorf ''KnowledgeCandidate: metadata.automation is required'' []),
          require (kc_ChangedSources kc \<noteq> [])
            (Errorf ''KnowledgeCandidate: spec.changedSources must not be empty -- a candidate with no changed source is not a candidate'' [])]
         @ concat (map (\<lambda>(i, cs).
             [require (cs_SourceID cs \<noteq> '''') (Errorf ''KnowledgeCandidate: spec.changedSources[%d]: sourceId is required'' [AInt (int i)]),
              require (cs_NewDigest cs \<noteq> '''') (Errorf ''KnowledgeCandidate: spec.changedSources[%d]: newDigest is required'' [AInt (int i)])])
             (enumerate 0 (kc_ChangedSources kc)))
         @ map (\<lambda>(i, fr). require (fr_Status fr \<in> {''PASS'', ''FAIL'', ''NOT_RUN''})
             (Errorf ''KnowledgeCandidate: spec.fixtureResults[%d]: invalid status %q'' [AInt (int i), AStr (fr_Status fr)]))
             (enumerate 0 (kc_FixtureResults kc))
         @ map (\<lambda>(i, wc). require (wi_Change wc \<in> {''BLOCKED'', ''EXPANDED''})
             (Errorf ''KnowledgeCandidate: spec.writeCapabilityImpacts[%d]: invalid change %q'' [AInt (int i), AStr (wi_Change wc)]))
             (enumerate 0 (kc_WriteCapabilityImpacts kc))))"

section \<open>Fetching\<close>

definition maxFetchBytes :: nat where
  "maxFetchBytes = 8 * 1024 * 1024"

text \<open>A server answers with a failure, or a status and a body, whose reading may fail.\<close>

type_synonym web = "string \<Rightarrow> err + nat \<times> (err + string)"

definition httpGet :: "web \<Rightarrow> string \<Rightarrow> err + string" where
  "httpGet client rawURL =
     (case client rawURL of
        Inl e \<Rightarrow> Inl (Wrapf ''GET %q: %w'' [AStr rawURL] e)
      | Inr (status, body) \<Rightarrow>
          if status \<noteq> 200 then Inl (Errorf ''GET %q: unexpected status %d'' [AStr rawURL, AInt (int status)])
          else (case body of
              Inl e \<Rightarrow> Inl (Wrapf ''reading body of %q: %w'' [AStr rawURL] e)
            | Inr raw0 \<Rightarrow>
               (let raw = take (maxFetchBytes + 1) raw0
                in if length raw > maxFetchBytes then
                     Inl (Errorf ''reading body of %q: response exceeds the %d byte limit, refusing to digest a truncated body'' [AStr rawURL, AInt (int maxFetchBytes)])
                   else Inr raw)))"

text \<open>The client refuses to follow redirects, so a redirect is an answer with its own status.\<close>

definition HTTPFetcher_Fetch :: "web \<Rightarrow> Source \<Rightarrow> err + string" where
  "HTTPFetcher_Fetch client s =
     (case ValidateSource s of
        Some e \<Rightarrow> Inl (Wrapf ''knowledge: HTTPFetcher.Fetch: %w'' [] e)
      | None \<Rightarrow> (case httpGet client (so_URL s) of
          Inl e \<Rightarrow> Inl (Wrapf ''knowledge: HTTPFetcher.Fetch: %w'' [] e)
        | Inr raw \<Rightarrow> Inr raw))"

definition digestBytes :: "(string \<Rightarrow> string) \<Rightarrow> string \<Rightarrow> string" where
  "digestBytes sha raw = ''sha256:'' @ sha raw"

record PollResult =
  pr_Source :: Source
  pr_OldDigest :: string
  pr_NewDigest :: string
  pr_Changed :: bool
  pr_Reason :: message

definition evidenceDigest :: "Pack option \<Rightarrow> string \<Rightarrow> string option" where
  "evidenceDigest pack sourceID =
     (case pack of
        None \<Rightarrow> None
      | Some p \<Rightarrow> map_option ke_Digest (find (\<lambda>ev. ke_ID ev = sourceID) (hk_Evidence (pk_Knowledge p))))"

definition PollSource :: "(string \<Rightarrow> string) \<Rightarrow> (Source \<Rightarrow> err + string) \<Rightarrow> Source \<Rightarrow> Pack option \<Rightarrow> err + PollResult" where
  "PollSource sha fetch s pack =
     (case ValidateSource s of
        Some e \<Rightarrow> Inl (Wrapf ''knowledge: PollSource: %w'' [] e)
      | None \<Rightarrow>
      (case fetch s of
        Inl e \<Rightarrow> Inl (Wrapf ''knowledge: PollSource: %w'' [] e)
      | Inr raw \<Rightarrow>
         (let newDigest = digestBytes sha raw;
              old = (case evidenceDigest pack (so_SourceID s) of None \<Rightarrow> '''' | Some d \<Rightarrow> d)
          in if old = '''' then
               Inr \<lparr>pr_Source = s, pr_OldDigest = '''', pr_NewDigest = newDigest, pr_Changed = False,
                    pr_Reason = Msg ''no baseline digest recorded in the current Pack for source %q; nothing to compare yet'' [AStr (so_SourceID s)]\<rparr>
             else if old = newDigest then
               Inr \<lparr>pr_Source = s, pr_OldDigest = old, pr_NewDigest = newDigest, pr_Changed = False,
                    pr_Reason = Msg ''content digest matches the currently published Pack'' []\<rparr>
             else Inr \<lparr>pr_Source = s, pr_OldDigest = old, pr_NewDigest = newDigest, pr_Changed = True,
                    pr_Reason = Msg ''content digest differs from the currently published Pack'' []\<rparr>)))"

definition PackForHost :: "Repository \<Rightarrow> string \<Rightarrow> Pack option" where
  "PackForHost repo host =
     (let matches = filter (\<lambda>p. hk_Host (pk_Knowledge p) = host) repo
      in if matches = [] then None else Some (last (sort_key pack_id matches)))"

section \<open>Polling a host\<close>

fun poll_sources ::
  "(string \<Rightarrow> string) \<Rightarrow> (Source \<Rightarrow> err + string) \<Rightarrow> string \<Rightarrow> Pack option \<Rightarrow> Source list \<Rightarrow> err + PollResult list" where
  "poll_sources sha fetch host pack [] = Inr []"
| "poll_sources sha fetch host pack (s # ss) =
     (case PollSource sha fetch s pack of
        Inl e \<Rightarrow> Inl (Wrapf ''knowledge: PollHost: host %q: %w'' [AStr host] e)
      | Inr res \<Rightarrow> (case poll_sources sha fetch host pack ss of Inl e \<Rightarrow> Inl e | Inr rs \<Rightarrow> Inr (res # rs)))"

definition changed_source :: "PollResult \<Rightarrow> ChangedSource" where
  "changed_source res =
     \<lparr>cs_SourceID = so_SourceID (pr_Source res), cs_Kind = so_Kind (pr_Source res), cs_URL = so_URL (pr_Source res),
      cs_OldDigest = pr_OldDigest res, cs_NewDigest = pr_NewDigest res\<rparr>"

definition affected_capabilities :: "HostKnowledge \<Rightarrow> AffectedCapability list" where
  "affected_capabilities hk =
     sort_key (\<lambda>a. (af_Concept a, af_Operation a))
       (concat (map (\<lambda>(concept, ops).
          map (\<lambda>(opn, level). \<lparr>af_Concept = concept, af_Operation = opn, af_Old = level, af_New = CapOther ''''\<rparr>)
            (filter (\<lambda>(opn, level). level \<noteq> CapOther '''') (CapabilityOps_levels ops))) (hk_Capabilities hk)))"

definition blocked_reason :: string where
  "blocked_reason = ''STALE Pack (docs/knowledge/README.md '' @ section_sign @ ''7: \"New version or evidence changed; no expansion of write behavior\") -- write capability stays blocked until a maintainer re-qualifies a Pack covering the changed source''"

definition write_impacts :: "HostKnowledge \<Rightarrow> WriteCapabilityImpact list" where
  "write_impacts hk =
     sort_key wi_Concept (map (\<lambda>(concept, _). \<lparr>wi_Concept = concept, wi_Change = ''BLOCKED'', wi_Reason = blocked_reason\<rparr>) (hk_Capabilities hk))"

definition fixture_results :: "HostKnowledge \<Rightarrow> FixtureResult list" where
  "fixture_results hk =
     sort_key fr_ID (map (\<lambda>prog. \<lparr>fr_ID = pp_Fixture prog, fr_Status = ''NOT_RUN'',
         fr_Detail = ''qualification fixtures are not run automatically by this Poller (issue #33/PR-29)''\<rparr>)
       (filter (\<lambda>prog. pp_Fixture prog \<noteq> '''') (hk_PrecedencePrograms hk)))"

definition poll_candidate :: "string \<Rightarrow> Pack option \<Rightarrow> string \<Rightarrow> gotime \<Rightarrow> ChangedSource list \<Rightarrow> KnowledgeCandidate" where
  "poll_candidate host pack automation now changedSources =
     (let surface = (case pack of None \<Rightarrow> ''cli'' | Some p \<Rightarrow> hk_Surface (pk_Knowledge p)); collectedAt = RFC3339 now
      in \<lparr>kc_APIVersion = SupportedAPIVersion, kc_Kind = ''KnowledgeCandidate'',
          kc_Metadata = \<lparr>cm_ID = ''candidate:'' @ host @ '':'' @ surface @ '':'' @ collectedAt, cm_Host = host, cm_Surface = surface,
                         cm_CollectedAt = collectedAt, cm_Automation = automation\<rparr>,
          kc_ChangedSources = sort_key cs_SourceID changedSources,
          kc_VersionRange = \<lparr>vr_Old = (case pack of None \<Rightarrow> '''' | Some p \<Rightarrow> hk_VersionRange (pk_Knowledge p)), vr_New = ''''\<rparr>,
          kc_AffectedCapabilities = (case pack of None \<Rightarrow> [] | Some p \<Rightarrow> affected_capabilities (pk_Knowledge p)),
          kc_FixtureResults = (case pack of None \<Rightarrow> [] | Some p \<Rightarrow> fixture_results (pk_Knowledge p)),
          kc_WriteCapabilityImpacts = (case pack of None \<Rightarrow> [] | Some p \<Rightarrow> write_impacts (pk_Knowledge p)),
          kc_NewKnownUnknowns =
            [''the new host version range covering the changed source(s) has not yet been determined; requires maintainer investigation of the actual upstream change'',
             ''whether adapter code needs to change to reflect the upstream change is not yet determined'']\<rparr>)"

text \<open>The results, and the candidate if a source changed.\<close>

definition PollHost ::
  "(string \<Rightarrow> string) \<Rightarrow> (Source \<Rightarrow> err + string) \<Rightarrow> string \<Rightarrow> Pack option \<Rightarrow> string \<Rightarrow> gotime \<Rightarrow> err + PollResult list \<times> KnowledgeCandidate option" where
  "PollHost sha fetch host pack automation now =
     (case poll_sources sha fetch host pack (OfficialSourcesForHost host) of
        Inl e \<Rightarrow> Inl e
      | Inr results \<Rightarrow>
         (let changedSources = map changed_source (filter pr_Changed results)
          in if changedSources = [] then Inr (results, None)
             else let candidate = poll_candidate host pack automation now changedSources
             in case ValidateKnowledgeCandidate candidate of
                  Some e \<Rightarrow> Inl (Wrapf ''knowledge: PollHost: host %q: built an invalid KnowledgeCandidate: %w'' [AStr host] e)
                | None \<Rightarrow> Inr (results, Some candidate)))"


section \<open>Lemmas\<close>

lemma official_source:
  assumes "s \<in> set (OfficialSourcesForHost host)"
  shows "ValidateSource s = None" "so_Host s = host" "so_SourceID s \<noteq> ''''"
proof -
  have s: "s \<in> set officialSources" "so_Host s = host" using assms by (auto simp: OfficialSourcesForHost_def)
  then show "ValidateSource s = None" "so_Host s = host" by (simp_all add: ValidateSource_def go_check)
  have "\<forall>t \<in> set officialSources. so_SourceID t \<noteq> ''''" by (simp add: officialSources_def official_def)
  then show "so_SourceID s \<noteq> ''''" using s(1) by blast
qed

text \<open>What one poll reports: the digest of what was fetched, and a change only against a recorded digest.\<close>

definition reports :: "(string \<Rightarrow> string) \<Rightarrow> (Source \<Rightarrow> err + string) \<Rightarrow> Pack option \<Rightarrow> PollResult \<Rightarrow> bool" where
  "reports sha fetch pack res \<longleftrightarrow>
     (\<exists>raw. fetch (pr_Source res) = Inr raw \<and> pr_NewDigest res = digestBytes sha raw) \<and>
     (pr_Changed res \<longleftrightarrow> (\<exists>d. evidenceDigest pack (so_SourceID (pr_Source res)) = Some d \<and> d \<noteq> '''' \<and> d \<noteq> pr_NewDigest res))"

lemma PollSource_cases:
  assumes "ValidateSource s = None"
  shows "(\<exists>e. fetch s = Inl e \<and> PollSource sha fetch s pack = Inl (Wrapf ''knowledge: PollSource: %w'' [] e)) \<or>
    (\<exists>raw res. fetch s = Inr raw \<and> PollSource sha fetch s pack = Inr res \<and> pr_Source res = s \<and> reports sha fetch pack res)"
  using assms by (cases "fetch s"; cases "evidenceDigest pack (so_SourceID s)") (auto simp: PollSource_def Let_def reports_def)

lemma poll_sources_cases:
  assumes "\<forall>s \<in> set ss. ValidateSource s = None"
  shows "(case poll_sources sha fetch host pack ss of
            Inl e \<Rightarrow> \<exists>s \<in> set ss. \<exists>e'. fetch s = Inl e'
          | Inr rs \<Rightarrow> map pr_Source rs = ss \<and> list_all (reports sha fetch pack) rs \<and> (\<forall>s \<in> set ss. \<exists>raw. fetch s = Inr raw))"
  using assms
proof (induction ss)
  case (Cons s ss)
  then have IH: "case poll_sources sha fetch host pack ss of
      Inl e \<Rightarrow> \<exists>s \<in> set ss. \<exists>e'. fetch s = Inl e'
    | Inr rs \<Rightarrow> map pr_Source rs = ss \<and> list_all (reports sha fetch pack) rs \<and> (\<forall>s \<in> set ss. \<exists>raw. fetch s = Inr raw)" by simp
  show ?case using PollSource_cases [of s fetch sha pack] Cons.prems IH by (auto split: sum.splits)
qed simp

lemma digestBytes_nonempty: "digestBytes sha raw \<noteq> ''''" "'''' \<noteq> digestBytes sha raw"
  by (simp_all add: digestBytes_def)

lemma RFC3339_nonempty: "RFC3339 t \<noteq> ''''"
  by (simp add: RFC3339_def Let_def split: prod.split)

text \<open>The candidate of a poll is valid.\<close>

lemma poll_candidate_valid:
  assumes "ValidateHostID host = None" "host \<noteq> ''''" "automation \<noteq> ''''" "\<forall>p. pack = Some p \<longrightarrow> hk_Surface (pk_Knowledge p) \<noteq> ''''"
    "cs \<noteq> []" "\<forall>c \<in> set cs. cs_SourceID c \<noteq> '''' \<and> cs_NewDigest c \<noteq> ''''"
  shows "ValidateKnowledgeCandidate (poll_candidate host pack automation now cs) = None"
proof -
  let ?c = "poll_candidate host pack automation now cs"
  have a: "\<forall>c \<in> set (kc_ChangedSources ?c). cs_SourceID c \<noteq> '''' \<and> cs_NewDigest c \<noteq> ''''" using assms(6) by (simp add: poll_candidate_def Let_def)
  have b: "\<forall>f \<in> set (kc_FixtureResults ?c). fr_Status f = ''NOT_RUN''" by (auto simp: poll_candidate_def Let_def fixture_results_def split: option.splits)
  have c: "\<forall>w \<in> set (kc_WriteCapabilityImpacts ?c). wi_Change w = ''BLOCKED''" by (auto simp: poll_candidate_def Let_def write_impacts_def split: option.splits)
  have d: "kc_ChangedSources ?c \<noteq> []" using assms(5) by (simp add: poll_candidate_def Let_def)
  have e: "kc_APIVersion ?c = SupportedAPIVersion" "kc_Kind ?c = ''KnowledgeCandidate''" "cm_ID (kc_Metadata ?c) \<noteq> ''''" "cm_Host (kc_Metadata ?c) = host"
    "cm_Surface (kc_Metadata ?c) \<noteq> ''''" "cm_CollectedAt (kc_Metadata ?c) \<noteq> ''''" "cm_Automation (kc_Metadata ?c) = automation"
    using assms(4) by (simp_all add: poll_candidate_def Let_def RFC3339_nonempty split: option.splits)
  show ?thesis
    unfolding ValidateKnowledgeCandidate_def Let_def using a b c d e assms(1-3)
    by (auto simp: first_err_None_iff require_None_iff wrap_err_None_iff in_set_enumerate_eq ValidateAPIVersion_def ValidateKind_def)
qed


lemma write_impacts_blocked: "set (map wi_Concept (write_impacts hk)) = fst ` set (hk_Capabilities hk)" "\<forall>w \<in> set (write_impacts hk). wi_Change w = ''BLOCKED''"
  by (auto simp: write_impacts_def image_image case_prod_beta)

lemma affected_unknown: "\<forall>a \<in> set (affected_capabilities hk). af_New a = CapOther ''''"
  by (auto simp: affected_capabilities_def)

lemma changed_sources_complete:
  assumes "map pr_Source results = OfficialSourcesForHost host" "list_all (reports sha fetch pack) results"
  shows "\<forall>c \<in> set (map changed_source (filter pr_Changed results)). cs_SourceID c \<noteq> '''' \<and> cs_NewDigest c \<noteq> ''''"
proof
  fix c assume "c \<in> set (map changed_source (filter pr_Changed results))"
  then obtain res where res: "res \<in> set results" "c = changed_source res" by auto
  then have "pr_Source res \<in> set (OfficialSourcesForHost host)" using assms(1) by (metis image_eqI set_map)
  moreover have "reports sha fetch pack res" using assms(2) res(1) by (simp add: list_all_iff)
  ultimately show "cs_SourceID c \<noteq> '''' \<and> cs_NewDigest c \<noteq> ''''"
    using res(2) official_source(3) by (auto simp: changed_source_def reports_def digestBytes_nonempty)
qed

lemma PollHost_Inr:
  assumes "PollHost sha fetch host pack automation now = Inr (results, cand)"
  shows "map pr_Source results = OfficialSourcesForHost host \<and> list_all (reports sha fetch pack) results \<and>
    (let changed = map changed_source (filter pr_Changed results)
     in if changed = [] then cand = None
        else cand = Some (poll_candidate host pack automation now changed) \<and> ValidateKnowledgeCandidate (poll_candidate host pack automation now changed) = None)"
proof -
  have o: "\<forall>s \<in> set (OfficialSourcesForHost host). ValidateSource s = None" using official_source(1) by blast
  obtain rs where rs: "poll_sources sha fetch host pack (OfficialSourcesForHost host) = Inr rs"
    using assms by (auto simp: PollHost_def split: sum.splits)
  then have "rs = results" using assms by (auto simp: PollHost_def Let_def split: if_splits option.splits)
  then show ?thesis using poll_sources_cases [OF o, of fetch sha pack host] rs assms
    by (auto simp: PollHost_def Let_def split: if_splits option.splits)
qed

section \<open>Properties\<close>

text \<open>C40: a poll never expands what may be written. When a poll of a host returns, every official source of the host was
fetched, in order, and a source counts as changed exactly when the published pack records a digest of it that
differs from the digest of what was fetched. There is a candidate exactly when a source changed; it is a valid document
that names the changed sources, claims no new capability level and no new version range, reports no fixture as
run, and marks the write capability of every concept of the pack as blocked.\<close>

theorem poll_never_expands:
  assumes "PollHost sha fetch host pack automation now = Inr (results, cand)"
  shows "map pr_Source results = OfficialSourcesForHost host \<and>
    (\<forall>res \<in> set results. \<exists>raw. fetch (pr_Source res) = Inr raw \<and> pr_NewDigest res = ''sha256:'' @ sha raw \<and>
       (pr_Changed res \<longleftrightarrow> (\<exists>d. evidenceDigest pack (so_SourceID (pr_Source res)) = Some d \<and> d \<noteq> '''' \<and> d \<noteq> pr_NewDigest res))) \<and>
    (cand = None \<longleftrightarrow> (\<forall>res \<in> set results. \<not> pr_Changed res)) \<and>
    (case cand of None \<Rightarrow> True | Some c \<Rightarrow>
       ValidateKnowledgeCandidate c = None \<and>
       set (kc_ChangedSources c) = changed_source ` {res \<in> set results. pr_Changed res} \<and>
       (\<forall>a \<in> set (kc_AffectedCapabilities c). af_New a = CapOther '''') \<and> vr_New (kc_VersionRange c) = '''' \<and>
       (\<forall>f \<in> set (kc_FixtureResults c). fr_Status f = ''NOT_RUN'') \<and>
       (\<forall>w \<in> set (kc_WriteCapabilityImpacts c). wi_Change w = ''BLOCKED'') \<and>
       wi_Concept ` set (kc_WriteCapabilityImpacts c) = (case pack of None \<Rightarrow> {} | Some p \<Rightarrow> fst ` set (hk_Capabilities (pk_Knowledge p))))"
proof -
  let ?changed = "map changed_source (filter pr_Changed results)"
  let ?c = "poll_candidate host pack automation now ?changed"
  note p = PollHost_Inr [OF assms, unfolded Let_def]
  have n: "?changed = [] \<longleftrightarrow> (\<forall>res \<in> set results. \<not> pr_Changed res)" by (simp add: filter_empty_conv)
  have r: "\<forall>res \<in> set results. \<exists>raw. fetch (pr_Source res) = Inr raw \<and> pr_NewDigest res = ''sha256:'' @ sha raw \<and>
       (pr_Changed res \<longleftrightarrow> (\<exists>d. evidenceDigest pack (so_SourceID (pr_Source res)) = Some d \<and> d \<noteq> '''' \<and> d \<noteq> pr_NewDigest res))"
    using p by (auto simp: list_all_iff reports_def digestBytes_def)
  have i: "wi_Concept ` set (kc_WriteCapabilityImpacts ?c) = (case pack of None \<Rightarrow> {} | Some p \<Rightarrow> fst ` set (hk_Capabilities (pk_Knowledge p)))"
    "\<forall>w \<in> set (kc_WriteCapabilityImpacts ?c). wi_Change w = ''BLOCKED''"
    using write_impacts_blocked by (auto simp: poll_candidate_def Let_def split: option.splits)
  have a: "\<forall>a \<in> set (kc_AffectedCapabilities ?c). af_New a = CapOther ''''" "vr_New (kc_VersionRange ?c) = ''''"
    "\<forall>f \<in> set (kc_FixtureResults ?c). fr_Status f = ''NOT_RUN''" "set (kc_ChangedSources ?c) = changed_source ` {res \<in> set results. pr_Changed res}"
    using affected_unknown by (auto simp: poll_candidate_def Let_def fixture_results_def split: option.splits)
  show ?thesis
  proof (cases "?changed = []")
    case True
    then show ?thesis using p n r by simp
  next
    case False
    then have "cand = Some ?c" "ValidateKnowledgeCandidate ?c = None" using p by simp_all
    moreover have "\<not> (\<forall>res \<in> set results. \<not> pr_Changed res)" using False n by blast
    ultimately show ?thesis using p r i a by simp
  qed
qed

definition sample_pack :: "Pack option" where
  "sample_pack = Some \<lparr>pk_Knowledge = sample_pack_knowledge, pk_Digest = ''d'', pk_Path = ''p''\<rparr>"

definition sample_fetch :: "Source \<Rightarrow> err + string" where
  "sample_fetch s = Inr ''new''"

lemma sample_poll:
  "(case PollHost (\<lambda>raw. raw) sample_fetch ''codex'' sample_pack ''robot'' 0 of
      Inr (results, Some c) \<Rightarrow> length results = 4 \<and> map cs_SourceID (kc_ChangedSources c) = [''codex-cli-doc''] | _ \<Rightarrow> False)"
  by code_simp

theorem poll_never_expands_witness:
  "\<exists>results c. PollHost (\<lambda>raw. raw) sample_fetch ''codex'' sample_pack ''robot'' 0 = Inr (results, Some c) \<and>
     map pr_Source results = OfficialSourcesForHost ''codex'' \<and> (\<forall>w \<in> set (kc_WriteCapabilityImpacts c). wi_Change w = ''BLOCKED'')"
proof -
  obtain results c where p: "PollHost (\<lambda>raw. raw) sample_fetch ''codex'' sample_pack ''robot'' 0 = Inr (results, Some c)"
    using sample_poll by (auto split: sum.splits option.splits prod.splits)
  note q = poll_never_expands [OF p]
  have "map pr_Source results = OfficialSourcesForHost ''codex''" using q by (elim conjE)
  moreover have "\<forall>w \<in> set (kc_WriteCapabilityImpacts c). wi_Change w = ''BLOCKED''" using q by (simp only: option.case) (elim conjE)
  ultimately show ?thesis using p by (intro exI conjI)
qed

text \<open>A poll fails only because of the network. With a known host, a named automation and a pack that was loaded (so that
its surface is written), a poll fails exactly when some official source of the host cannot be fetched: the
candidate it builds is never rejected by its own validation.\<close>

theorem poll_fails_only_on_fetch:
  assumes "ValidateHostID host = None" "automation \<noteq> ''''" "\<forall>p. pack = Some p \<longrightarrow> ValidateHostKnowledge (pk_Knowledge p) = None"
  shows "isl (PollHost sha fetch host pack automation now) \<longleftrightarrow> (\<exists>s \<in> set (OfficialSourcesForHost host). isl (fetch s))"
proof -
  have h: "host \<noteq> ''''" using assms(1) by (auto simp: ValidateHostID_def go_check)
  have s: "\<forall>p. pack = Some p \<longrightarrow> hk_Surface (pk_Knowledge p) \<noteq> ''''"
    using assms(3) by (auto simp: ValidateHostKnowledge_def go_check)
  have o: "\<forall>s \<in> set (OfficialSourcesForHost host). ValidateSource s = None" using official_source(1) by blast
  note c = poll_sources_cases [OF o, of fetch sha pack host]
  show ?thesis
  proof (cases "poll_sources sha fetch host pack (OfficialSourcesForHost host)")
    case (Inl e)
    then obtain s e' where "s \<in> set (OfficialSourcesForHost host)" "fetch s = Inl e'" using c by auto
    then have "\<exists>s \<in> set (OfficialSourcesForHost host). isl (fetch s)" by (intro bexI [of _ s]) simp_all
    then show ?thesis using Inl by (simp add: PollHost_def)
  next
    case (Inr rs)
    then have rs: "map pr_Source rs = OfficialSourcesForHost host" "list_all (reports sha fetch pack) rs"
      "\<forall>s \<in> set (OfficialSourcesForHost host). \<exists>raw. fetch s = Inr raw" using c by simp_all
    have "ValidateKnowledgeCandidate (poll_candidate host pack automation now (map changed_source (filter pr_Changed rs))) = None"
      if "map changed_source (filter pr_Changed rs) \<noteq> []"
      using that by (rule poll_candidate_valid [OF assms(1) h assms(2) s _ changed_sources_complete [OF rs(1,2)]])
    then have "\<not> isl (PollHost sha fetch host pack automation now)" using Inr by (auto simp: PollHost_def Let_def)
    moreover have "\<not> (\<exists>s \<in> set (OfficialSourcesForHost host). isl (fetch s))" using rs(3) by auto
    ultimately show ?thesis by blast
  qed
qed

theorem poll_fails_only_on_fetch_witness:
  "\<not> isl (PollHost (\<lambda>raw. raw) sample_fetch ''codex'' None ''robot'' 0)"
proof -
  have "ValidateHostID ''codex'' = None" "\<forall>p. None = Some p \<longrightarrow> ValidateHostKnowledge (pk_Knowledge p) = None" by (code_simp, simp)
  then show ?thesis using poll_fails_only_on_fetch [of "''codex''" "''robot''" None "\<lambda>raw. raw" sample_fetch 0] by (simp add: sample_fetch_def)
qed

text \<open>Only the official sources are fetched, and nothing truncated is digested. A fetch that returns a text asked for the
address of a source of the list, was answered with status 200 (a redirect is not followed) and returns the whole
body, of at most the maximal size; for anything else the client is not even asked.\<close>

theorem fetch_only_official:
  "if s \<in> set OfficialSources
   then \<forall>raw. HTTPFetcher_Fetch client s = Inr raw \<longleftrightarrow> client (so_URL s) = Inr (200, Inr raw) \<and> length raw \<le> maxFetchBytes
   else \<forall>client'. HTTPFetcher_Fetch client s = HTTPFetcher_Fetch client' s \<and> isl (HTTPFetcher_Fetch client' s)"
  by (auto simp: HTTPFetcher_Fetch_def httpGet_def ValidateSource_def OfficialSources_def Let_def require_def
      split: option.splits sum.splits prod.splits if_splits)

end
